(* ===== verification/Prelude.thy ===== *)
theory Prelude
  imports Main "HOL-Library.Multiset"
begin

text \<open>
  The vocabulary every component shares: the error values of the Go code, the outcome of a
  call that may also panic, the two loop shapes the code uses over and over (search a slice for
  the first occurrence of a key; run a fallible call on every element and stop at the first
  error), and the library facts about them.  The collections \<open>go_step\<close> and \<open>go_inv\<close>
  gather the equations of the operations and the preservation lemmas of the invariants, so that a
  component proof is a simplification with one of them.
\<close>

named_theorems go_step \<open>defining equations of the operations, to be unfolded together\<close>
named_theorems go_inv \<open>preservation lemmas of the invariants\<close>

section \<open>Errors and outcomes\<close>

text \<open>
  A Go \<open>error\<close> is nil or a value.  The code tells apart a Kubernetes status error whose
  reason is NotFound (\<open>apierrors.IsNotFound\<close>), any other error with its text, an error
  wrapped with a message (\<open>fmt.Errorf\<close> with a wrapping verb, \<open>errors.Wrapf\<close>) and the
  result of \<open>errors.Join\<close>.  A nil-able error is an \<open>option\<close>.
\<close>

datatype go_error =
    NotFoundError string
  | PlainError string
  | WrappedError string go_error
  | JoinedError "go_error list"

type_synonym go_err = "go_error option"

fun isNotFound :: "go_error \<Rightarrow> bool" where
  "isNotFound (NotFoundError _) = True"
| "isNotFound (PlainError _) = False"
| "isNotFound (WrappedError _ e) = isNotFound e"
| "isNotFound (JoinedError es) = list_ex isNotFound es"

text \<open>The text of an error, as its \<open>Error\<close> method gives it.\<close>

fun intercalate :: "'a list \<Rightarrow> 'a list list \<Rightarrow> 'a list" where
  "intercalate sep [] = []"
| "intercalate sep [x] = x"
| "intercalate sep (x # y # ys) = x @ sep @ intercalate sep (y # ys)"

fun error_text :: "go_error \<Rightarrow> string" where
  "error_text (NotFoundError s) = s"
| "error_text (PlainError s) = s"
| "error_text (WrappedError s e) = s @ '': '' @ error_text e"
| "error_text (JoinedError es) = intercalate [CHR 0x0A] (map error_text es)"

text \<open>
  The outcome of a function that returns a value and an error, or does not come back to its caller: a
  panic in a goroutine of the controller ends the process, and a user's script that never ends keeps
  the goroutine for ever.  Both are \<open>Panic\<close>: in neither case does the caller do anything more.
\<close>

datatype 'a outcome = Ok (the_ok: 'a) | Fail go_error | Panic

fun bind_outcome :: "'a outcome \<Rightarrow> ('a \<Rightarrow> 'b outcome) \<Rightarrow> 'b outcome" where
  "bind_outcome (Ok a) f = f a"
| "bind_outcome (Fail e) f = Fail e"
| "bind_outcome Panic f = Panic"

lemma bind_outcome_Ok_iff [simp]:
  "bind_outcome x f = Ok b \<longleftrightarrow> (\<exists>a. x = Ok a \<and> f a = Ok b)"
  by (cases x) auto

lemma bind_outcome_Fail_iff [simp]:
  "bind_outcome x f = Fail e \<longleftrightarrow> x = Fail e \<or> (\<exists>a. x = Ok a \<and> f a = Fail e)"
  by (cases x) auto

lemma bind_outcome_Ok_right [simp]: "bind_outcome x Ok = x"
  by (cases x) auto

lemma bind_outcome_assoc:
  "bind_outcome (bind_outcome x f) g = bind_outcome x (\<lambda>a. bind_outcome (f a) g)"
  by (cases x) auto

section \<open>Searching a slice\<close>

text \<open>
  The index at which a \<open>for i := range s\<close> loop that breaks on \<open>s[i] == key\<close> stops.
\<close>

fun first_index :: "'a \<Rightarrow> 'a list \<Rightarrow> nat option" where
  "first_index key [] = None"
| "first_index key (x # xs) = (if x = key then Some 0 else map_option Suc (first_index key xs))"

lemma first_index_None_iff [simp]: "first_index key xs = None \<longleftrightarrow> key \<notin> set xs"
  by (induction xs) auto

lemma first_index_SomeD:
  "first_index key xs = Some i \<Longrightarrow> i < length xs \<and> xs ! i = key \<and> key \<notin> set (take i xs)"
proof (induction xs arbitrary: i)
  case Nil
  then show ?case by simp
next
  case (Cons x xs)
  then show ?case by (cases i) (auto split: if_splits)
qed

lemma first_index_lt: "first_index key xs = Some i \<Longrightarrow> i < length xs"
  and first_index_nth: "first_index key xs = Some i \<Longrightarrow> xs ! i = key"
  by (auto dest: first_index_SomeD)

lemma first_index_Some_mem: "first_index key xs = Some i \<Longrightarrow> key \<in> set xs"
  using first_index_SomeD nth_mem by metis

lemma first_index_ex: "key \<in> set xs \<Longrightarrow> \<exists>i. first_index key xs = Some i"
  by (metis first_index_None_iff not_None_eq)

section \<open>Running a fallible call on every element\<close>

text \<open>
  The loop that appends what each call returns and returns the first error it meets.
\<close>

fun collect_all :: "('a \<Rightarrow> 'b list outcome) \<Rightarrow> 'a list \<Rightarrow> 'b list outcome" where
  "collect_all f [] = Ok []"
| "collect_all f (x # xs) =
     bind_outcome (f x) (\<lambda>ys. bind_outcome (collect_all f xs) (\<lambda>zs. Ok (ys @ zs)))"

lemma collect_all_Ok_iff:
  "collect_all f xs = Ok ys \<longleftrightarrow>
   (\<exists>yss. list_all2 (\<lambda>x zs. f x = Ok zs) xs yss \<and> ys = concat yss)"
proof (induction xs arbitrary: ys)
  case Nil
  then show ?case by auto
next
  case (Cons x xs)
  then show ?case by (fastforce simp: list_all2_Cons1)
qed

lemma collect_all_Ok_value:
  "collect_all f xs = Ok ys \<longleftrightarrow>
   (\<forall>x \<in> set xs. \<exists>zs. f x = Ok zs) \<and> ys = concat (map (\<lambda>x. the_ok (f x)) xs)"
  by (induction xs arbitrary: ys) auto

lemma collect_all_Ok_map:
  "(\<And>x. x \<in> set xs \<Longrightarrow> f x = Ok (g x)) \<Longrightarrow> collect_all f xs = Ok (concat (map g xs))"
  by (induction xs) auto

lemma collect_all_Ok_elem:
  "collect_all f xs = Ok ys \<Longrightarrow> x \<in> set xs \<Longrightarrow> \<exists>zs. f x = Ok zs \<and> set zs \<subseteq> set ys"
  by (induction xs arbitrary: ys) (auto, blast)

text \<open>The loop that applies a fallible call to every element and keeps the results in order.\<close>

fun traverse :: "('a \<Rightarrow> 'b outcome) \<Rightarrow> 'a list \<Rightarrow> 'b list outcome" where
  "traverse f [] = Ok []"
| "traverse f (x # xs) =
     bind_outcome (f x) (\<lambda>y. bind_outcome (traverse f xs) (\<lambda>ys. Ok (y # ys)))"

lemma traverse_cong [fundef_cong]:
  "xs = ys \<Longrightarrow> (\<And>x. x \<in> set ys \<Longrightarrow> f x = g x) \<Longrightarrow> traverse f xs = traverse g ys"
  by (induction ys arbitrary: xs) auto

lemma traverse_Ok_iff: "traverse f xs = Ok ys \<longleftrightarrow> list_all2 (\<lambda>x y. f x = Ok y) xs ys"
proof (induction xs arbitrary: ys)
  case Nil
  then show ?case by auto
next
  case (Cons x xs)
  then show ?case by (cases ys) auto
qed

text \<open>The loop that keeps the results that are there.\<close>

fun keep_some :: "('a \<Rightarrow> 'b option) \<Rightarrow> 'a list \<Rightarrow> 'b list" where
  "keep_some f [] = []"
| "keep_some f (x # xs) = (case f x of None \<Rightarrow> keep_some f xs | Some y \<Rightarrow> y # keep_some f xs)"

lemma keep_some_cong [fundef_cong]:
  "xs = ys \<Longrightarrow> (\<And>x. x \<in> set ys \<Longrightarrow> f x = g x) \<Longrightarrow> keep_some f xs = keep_some g ys"
  by (induction ys arbitrary: xs) (auto split: option.split)

lemma in_keep_some: "y \<in> set (keep_some f xs) \<longleftrightarrow> (\<exists>x \<in> set xs. f x = Some y)"
  by (induction xs) (auto split: option.splits)

lemma keep_some_all: "(\<And>x. x \<in> set xs \<Longrightarrow> f x = Some (g x)) \<Longrightarrow> keep_some f xs = map g xs"
  by (induction xs) auto

lemma keep_some_map: "keep_some f (map g xs) = keep_some (\<lambda>x. f (g x)) xs"
  by (induction xs) (auto split: option.splits)

section \<open>Joining strings\<close>

lemma intercalate_eq_concat:
  "xs \<noteq> [] \<Longrightarrow> intercalate sep xs = hd xs @ concat (map (\<lambda>x. sep @ x) (tl xs))"
  by (induction sep xs rule: intercalate.induct) auto

lemma intercalate_snoc:
  "xs \<noteq> [] \<Longrightarrow> intercalate sep (xs @ [x]) = intercalate sep xs @ sep @ x"
  by (simp add: intercalate_eq_concat)

section \<open>Splitting strings\<close>

fun split_at :: "char \<Rightarrow> string \<Rightarrow> string list" where
  "split_at c [] = [[]]"
| "split_at c (x # xs) =
     (if x = c then [] # split_at c xs
      else (case split_at c xs of [] \<Rightarrow> [[x]] | p # ps \<Rightarrow> (x # p) # ps))"

lemma split_at_no: "c \<notin> set s \<Longrightarrow> split_at c s = [s]"
  by (induction s) auto

lemma split_at_append: "c \<notin> set s \<Longrightarrow> split_at c (s @ c # t) = s # split_at c t"
  by (induction s) auto

lemma split_at_intercalate:
  "xs \<noteq> [] \<Longrightarrow> \<forall>x \<in> set xs. c \<notin> set x \<Longrightarrow> split_at c (intercalate [c] xs) = xs"
  by (induction "[c]" xs rule: intercalate.induct) (auto simp: split_at_no split_at_append)

lemma split_at_nonempty [simp]: "split_at c s \<noteq> []"
  by (induction s) (auto split: list.split)

lemma intercalate_inject:
  fixes xs ys :: "string list"
  assumes "xs \<noteq> []" "ys \<noteq> []" "\<forall>x \<in> set xs. c \<notin> set x" "\<forall>y \<in> set ys. c \<notin> set y"
    and "intercalate [c] xs = intercalate [c] ys"
  shows "xs = ys"
  using split_at_intercalate [OF assms(1,3)] unfolding assms(5)
  by (rule trans [OF sym split_at_intercalate [OF assms(2,4)]])

section \<open>Effects with errors\<close>

text \<open>
  A sequence of calls on an outside state, each returning a value or an error, where the first error
  is returned and the deferred calls run in any case.
\<close>

type_synonym ('s, 'a) act = "'s \<Rightarrow> (go_error + 'a) \<times> 's"

definition act_return :: "'a \<Rightarrow> ('s, 'a) act" where
  "act_return a s = (Inr a, s)"

definition act_bind :: "('s, 'a) act \<Rightarrow> ('a \<Rightarrow> ('s, 'b) act) \<Rightarrow> ('s, 'b) act" where
  "act_bind m f s = (case m s of (Inl e, s') \<Rightarrow> (Inl e, s') | (Inr a, s') \<Rightarrow> f a s')"

definition act_lift :: "go_error + 'a \<Rightarrow> ('s, 'a) act" where
  "act_lift r s = (r, s)"

definition act_check :: "('s \<Rightarrow> go_err \<times> 's) \<Rightarrow> ('s, unit) act" where
  "act_check f s = (case f s of (None, s') \<Rightarrow> (Inr (), s') | (Some e, s') \<Rightarrow> (Inl e, s'))"

definition act_finally :: "('s, 'a) act \<Rightarrow> ('s \<Rightarrow> 's) \<Rightarrow> ('s, 'a) act" where
  "act_finally m f s = (case m s of (r, s') \<Rightarrow> (r, f s'))"

definition act_error :: "('s, unit) act \<Rightarrow> 's \<Rightarrow> go_err \<times> 's" where
  "act_error m s = (case m s of (Inl e, s') \<Rightarrow> (Some e, s') | (Inr _, s') \<Rightarrow> (None, s'))"

lemmas act_defs = act_return_def act_bind_def act_lift_def act_check_def act_finally_def act_error_def

text \<open>
  Frame: a sequence keeps what each of its calls keeps.
\<close>

definition act_keeps :: "('s \<Rightarrow> 'v) \<Rightarrow> ('s, 'a) act \<Rightarrow> bool" where
  "act_keeps v m \<longleftrightarrow> (\<forall>s. v (snd (m s)) = v s)"

lemma act_keeps_return [simp]: "act_keeps v (act_return a)"
  and act_keeps_lift [simp]: "act_keeps v (act_lift r)"
  by (simp_all add: act_keeps_def act_defs)

lemma act_keeps_bind:
  "act_keeps v m \<Longrightarrow> (\<And>a. act_keeps v (f a)) \<Longrightarrow> act_keeps v (act_bind m f)"
  by (auto simp: act_keeps_def act_bind_def prod.case_eq_if split: sum.split)

lemma act_keeps_check: "(\<And>s. v (snd (f s)) = v s) \<Longrightarrow> act_keeps v (act_check f)"
  by (auto simp: act_keeps_def act_check_def prod.case_eq_if split: option.split)

lemma act_keeps_finally: "act_keeps v m \<Longrightarrow> (\<And>s. v (f s) = v s) \<Longrightarrow> act_keeps v (act_finally m f)"
  by (simp add: act_keeps_def act_finally_def prod.case_eq_if)

lemma act_error_keeps: "act_keeps v m \<Longrightarrow> v (snd (act_error m s)) = v s"
  unfolding act_keeps_def act_error_def
  by (metis (mono_tags, lifting) prod.case_eq_if snd_conv old.sum.exhaust sum.case(1,2))

end
