(* ===== verification/Job_Manager.thy ===== *)
theory Job_Manager
  imports Prelude
begin

text \<open>
  The job manager of \<open>internal/controller/executor\<close>: the four collections of
  \<open>client.go\<close> that record which Cleaner instances wait, run and are done, the operations the
  reconcilers call on them (\<open>Process\<close>, \<open>GetResult\<close>, \<open>RemoveEntries\<close>), and the
  two critical sections of the workers (\<open>worker.go\<close>): taking a request from the queue in
  \<open>processRequests\<close>, and \<open>storeResult\<close>.  Each of them runs under the manager's mutex, so
  it is one function from the state before to the state after.
\<close>

section \<open>State\<close>

record manager =
  dirty :: "string list"
  inProgress :: "string list"
  jobQueue :: "string list"
  results :: "string \<rightharpoonup> go_err"

definition startWorkloadWorkers :: manager where
  "startWorkloadWorkers =
     \<lparr>dirty = [], inProgress = [], jobQueue = [], results = Map.empty\<rparr>"

datatype ResultStatus = Processed | InProgress | Failed | Unavailable

fun ResultStatus_String :: "ResultStatus \<Rightarrow> string" where
  "ResultStatus_String Processed = ''processed''"
| "ResultStatus_String InProgress = ''in-progress''"
| "ResultStatus_String Failed = ''failed''"
| "ResultStatus_String Unavailable = ''unavailable''"

record Result =
  Status :: ResultStatus
  Message :: string
  Err :: go_err

record responseParams =
  resp_cleanerName :: string
  resp_err :: go_err

section \<open>Removing an element of a slice\<close>

text \<open>
  \<open>removeFromSlice(s, i)\<close> overwrites \<open>s[i]\<close> with the last element and returns the slice
  one shorter.  The write goes to the array the caller's slice shares, so the result is a pair: what
  the caller's own header, whose length did not change, shows afterwards, and the returned slice.
\<close>

definition removeFromSlice :: "'a list \<Rightarrow> nat \<Rightarrow> 'a list \<times> 'a list" where
  "removeFromSlice s i =
     (let s' = s[i := s ! (length s - 1)] in (s', take (length s - 1) s'))"

text \<open>
  The loop \<open>for i := range s { if s[i] == key { s = removeFromSlice(s, i); break } }\<close>,
  and the same loop in \<open>RemoveEntries\<close>, which drops the returned slice.
\<close>

definition removeKey :: "'a \<Rightarrow> 'a list \<Rightarrow> 'a list" where
  "removeKey key s =
     (case first_index key s of None \<Rightarrow> s | Some i \<Rightarrow> snd (removeFromSlice s i))"

definition overwriteKey :: "'a \<Rightarrow> 'a list \<Rightarrow> 'a list" where
  "overwriteKey key s =
     (case first_index key s of None \<Rightarrow> s | Some i \<Rightarrow> fst (removeFromSlice s i))"

section \<open>Operations of the manager\<close>

definition Process :: "string \<Rightarrow> manager \<Rightarrow> manager" where
  "Process key m =
     (if key \<in> set (dirty m) then m
      else
        let m1 = m\<lparr>results := (results m)(key := None), dirty := dirty m @ [key]\<rparr>
        in if key \<in> set (inProgress m1) then m1
           else m1\<lparr>jobQueue := jobQueue m1 @ [key]\<rparr>)"

text \<open>
  \<open>getRequestStatus\<close> returns a response, or nil while the request is queued or running, or
  an error when it knows nothing of the request.  Returning a response deletes the stored result.
\<close>

definition getRequestStatus ::
  "string \<Rightarrow> manager \<Rightarrow> (go_error + responseParams option) \<times> manager" where
  "getRequestStatus key m =
     (case results m key of
        Some err \<Rightarrow>
          (Inr (Some \<lparr>resp_cleanerName = key, resp_err = err\<rparr>),
           m\<lparr>results := (results m)(key := None)\<rparr>)
      | None \<Rightarrow>
          if key \<in> set (inProgress m) then (Inr None, m)
          else if key \<in> set (jobQueue m) then (Inr None, m)
          else (Inl (PlainError ''request has not been processed nor is currently queued''), m))"

definition GetResult :: "string \<Rightarrow> manager \<Rightarrow> Result \<times> manager" where
  "GetResult key m =
     (case getRequestStatus key m of
        (Inl _, m') \<Rightarrow> (\<lparr>Status = Unavailable, Message = [], Err = None\<rparr>, m')
      | (Inr None, m') \<Rightarrow> (\<lparr>Status = InProgress, Message = [], Err = None\<rparr>, m')
      | (Inr (Some r), m') \<Rightarrow>
          (case resp_err r of
             Some e \<Rightarrow> (\<lparr>Status = Failed, Message = [], Err = Some e\<rparr>, m')
           | None \<Rightarrow> (\<lparr>Status = Processed, Message = [], Err = None\<rparr>, m')))"

text \<open>
  \<open>RemoveEntries\<close> calls \<open>removeFromSlice\<close> on each collection and does not assign what it
  returns.
\<close>

definition RemoveEntries :: "string \<Rightarrow> manager \<Rightarrow> manager" where
  "RemoveEntries key m =
     m\<lparr>inProgress := overwriteKey key (inProgress m),
       dirty := overwriteKey key (dirty m),
       jobQueue := overwriteKey key (jobQueue m),
       results := (results m)(key := None)\<rparr>"

text \<open>The critical section of \<open>processRequests\<close>: the request taken, if any.\<close>

definition takeRequest :: "manager \<Rightarrow> string option \<times> manager" where
  "takeRequest m =
     (case jobQueue m of
        [] \<Rightarrow> (None, m)
      | key # rest \<Rightarrow>
          (Some key,
           m\<lparr>jobQueue := rest, inProgress := inProgress m @ [key],
             dirty := removeKey key (dirty m)\<rparr>))"

definition storeResult :: "string \<Rightarrow> go_err \<Rightarrow> manager \<Rightarrow> manager" where
  "storeResult key err m =
     (let m1 = m\<lparr>inProgress := removeKey key (inProgress m),
                 results := (results m)(key \<mapsto> err)\<rparr>
      in if key \<in> set (dirty m1)
         then m1\<lparr>jobQueue := jobQueue m1 @ [key], dirty := removeKey key (dirty m1),
                 results := (results m1)(key := None)\<rparr>
         else m1)"

lemmas manager_ops [go_step] =
  Process_def getRequestStatus_def GetResult_def RemoveEntries_def takeRequest_def storeResult_def

section \<open>Removal as a multiset operation\<close>

lemma length_removeFromSlice [simp]:
  "length (fst (removeFromSlice s i)) = length s"
  "length (snd (removeFromSlice s i)) = length s - 1"
  by (simp_all add: removeFromSlice_def Let_def)

lemma mset_snd_removeFromSlice:
  assumes "i < length s"
  shows "mset (snd (removeFromSlice s i)) = mset s - {#s ! i#}"
proof -
  obtain s' z where s: "s = s' @ [z]"
    using assms by (metis append_butlast_last_id length_greater_0_conv less_zeroE list.size(3))
  show ?thesis
  proof (cases "i < length s'")
    case True
    then have "mset (s'[i := z]) = add_mset z (mset s' - {#s' ! i#})"
      by (simp add: mset_update)
    moreover have "s' ! i \<in># mset s'" using True by simp
    ultimately show ?thesis
      using True by (simp add: s removeFromSlice_def Let_def nth_append list_update_append)
  next
    case False
    with assms s have "i = length s'" by simp
    then show ?thesis by (simp add: s removeFromSlice_def Let_def list_update_append)
  qed
qed

lemma first_index_notin [simp]: "key \<notin> set s \<Longrightarrow> first_index key s = None"
  by simp

lemma removeKey_notin [simp]: "key \<notin> set s \<Longrightarrow> removeKey key s = s"
  and overwriteKey_notin [simp]: "key \<notin> set s \<Longrightarrow> overwriteKey key s = s"
  by (simp_all add: removeKey_def overwriteKey_def del: first_index_None_iff)

lemma mset_removeKey [simp]: "mset (removeKey key s) = mset s - {#key#}"
proof (cases "first_index key s")
  case None
  then show ?thesis by (simp add: diff_single_trivial)
next
  case (Some i)
  then show ?thesis
    by (simp add: removeKey_def mset_snd_removeFromSlice first_index_lt first_index_nth)
qed

lemma in_removeKey: "x \<noteq> key \<Longrightarrow> x \<in> set (removeKey key s) \<longleftrightarrow> x \<in> set s"
  by (metis in_set_remove1 mset_remove1 mset_removeKey mset_eq_setD)

lemma set_removeKey_subset: "set (removeKey key s) \<subseteq> set s"
  by (metis in_diffD mset_removeKey set_mset_mset subsetI)

lemma distinct_removeKey: "distinct s \<Longrightarrow> distinct (removeKey key s)"
  by (metis (no_types, lifting) distinct_remove1 mset_eq_imp_distinct_iff mset_remove1
      mset_removeKey)

lemma set_removeKey_distinct: "distinct s \<Longrightarrow> set (removeKey key s) = set s - {key}"
  by (metis mset_eq_setD mset_remove1 mset_removeKey set_remove1_eq)

lemma length_overwriteKey [simp]: "length (overwriteKey key s) = length s"
  by (simp add: overwriteKey_def split: option.split)

lemma set_overwriteKey_subset: "set (overwriteKey key s) \<subseteq> set s"
proof (cases "first_index key s")
  case None
  then show ?thesis by simp
next
  case (Some i)
  then have "i < length s" by (rule first_index_lt)
  then have "s ! (length s - 1) \<in> set s" by simp
  then show ?thesis
    using Some by (auto simp: overwriteKey_def removeFromSlice_def Let_def
        dest!: set_update_subset_insert [THEN subsetD])
qed

end
