(* ===== verification/Worker_Pool.thy ===== *)
theory Worker_Pool
  imports Job_Manager
begin

text \<open>
  The manager and its pool of workers as one transition system.  A worker of
  \<open>processRequests\<close> is either at its \<open>select\<close>, or working on the request it took, or has
  returned because the context was cancelled.  A step is one call of a reconciler on the manager, or
  one critical section of a worker; which comes next is not determined, so runs are sequences of
  events.  The sections that follow prove what holds in every run, and give the runs on which the
  promise in the head comment of \<open>worker.go\<close> (a request is never processed more than once in
  parallel) does not hold.
\<close>

section \<open>The transition system\<close>

datatype worker = AtSelect | Working string | Exited

record sys =
  mgr :: manager
  workers :: "worker list"

datatype event =
    EProcess string
  | EGetResult string
  | ERemove string
  | ETake nat
  | EFinish nat go_err
  | ECancel nat

definition init_sys :: "nat \<Rightarrow> sys" where
  "init_sys n = \<lparr>mgr = startWorkloadWorkers, workers = replicate n AtSelect\<rparr>"

text \<open>
  The body of the loop of \<open>processRequests\<close>.  At the select a worker waits for the timer and
  takes a request if the queue is not empty; a worker with a request runs
  \<open>processCleanerInstance\<close>, whose error is \<open>err\<close>, and stores the result.
\<close>

fun exec_event :: "event \<Rightarrow> sys \<Rightarrow> sys option" where
  "exec_event (EProcess key) s = Some (s\<lparr>mgr := Process key (mgr s)\<rparr>)"
| "exec_event (EGetResult key) s = Some (s\<lparr>mgr := snd (GetResult key (mgr s))\<rparr>)"
| "exec_event (ERemove key) s = Some (s\<lparr>mgr := RemoveEntries key (mgr s)\<rparr>)"
| "exec_event (ETake i) s =
     (if i < length (workers s) \<and> workers s ! i = AtSelect
      then (case takeRequest (mgr s) of
              (None, m) \<Rightarrow> Some (s\<lparr>mgr := m\<rparr>)
            | (Some key, m) \<Rightarrow> Some (s\<lparr>mgr := m, workers := (workers s)[i := Working key]\<rparr>))
      else None)"
| "exec_event (EFinish i err) s =
     (if i < length (workers s)
      then (case workers s ! i of
              Working key \<Rightarrow>
                Some (s\<lparr>mgr := storeResult key err (mgr s),
                        workers := (workers s)[i := AtSelect]\<rparr>)
            | _ \<Rightarrow> None)
      else None)"
| "exec_event (ECancel i) s =
     (if i < length (workers s) \<and> workers s ! i = AtSelect
      then Some (s\<lparr>workers := (workers s)[i := Exited]\<rparr>) else None)"

fun exec_trace :: "event list \<Rightarrow> sys \<Rightarrow> sys option" where
  "exec_trace [] s = Some s"
| "exec_trace (e # es) s =
     (case exec_event e s of None \<Rightarrow> None | Some t \<Rightarrow> exec_trace es t)"

text \<open>
  The same steps as a relation with one rule per kind of step, on which the invariants are proved by
  case analysis.
\<close>

inductive sys_step :: "sys \<Rightarrow> event \<Rightarrow> sys \<Rightarrow> bool" where
  process: "sys_step s (EProcess key) (s\<lparr>mgr := Process key (mgr s)\<rparr>)"
| get_result: "sys_step s (EGetResult key) (s\<lparr>mgr := snd (GetResult key (mgr s))\<rparr>)"
| remove: "sys_step s (ERemove key) (s\<lparr>mgr := RemoveEntries key (mgr s)\<rparr>)"
| take_none: "i < length (workers s) \<Longrightarrow> workers s ! i = AtSelect \<Longrightarrow> jobQueue (mgr s) = [] \<Longrightarrow>
    sys_step s (ETake i) s"
| take_some: "i < length (workers s) \<Longrightarrow> workers s ! i = AtSelect \<Longrightarrow>
    takeRequest (mgr s) = (Some key, m) \<Longrightarrow>
    sys_step s (ETake i) (s\<lparr>mgr := m, workers := (workers s)[i := Working key]\<rparr>)"
| finish: "i < length (workers s) \<Longrightarrow> workers s ! i = Working key \<Longrightarrow>
    sys_step s (EFinish i err)
      (s\<lparr>mgr := storeResult key err (mgr s), workers := (workers s)[i := AtSelect]\<rparr>)"
| cancel: "i < length (workers s) \<Longrightarrow> workers s ! i = AtSelect \<Longrightarrow>
    sys_step s (ECancel i) (s\<lparr>workers := (workers s)[i := Exited]\<rparr>)"

inductive_cases sys_step_processE: "sys_step s (EProcess key) t"
inductive_cases sys_step_takeE: "sys_step s (ETake i) t"
inductive_cases sys_step_finishE: "sys_step s (EFinish i err) t"

lemma takeRequest_None_iff: "takeRequest m = (None, m') \<longleftrightarrow> jobQueue m = [] \<and> m' = m"
  by (auto simp: takeRequest_def split: list.splits)

lemma takeRequest_Some_iff:
  "takeRequest m = (Some key, m') \<longleftrightarrow>
   (\<exists>rest. jobQueue m = key # rest \<and>
      m' = m\<lparr>jobQueue := rest, inProgress := inProgress m @ [key],
             dirty := removeKey key (dirty m)\<rparr>)"
  by (auto simp: takeRequest_def split: list.splits)

lemma sys_step_exec: "sys_step s e t \<longleftrightarrow> exec_event e s = Some t"
proof
  assume "sys_step s e t"
  then show "exec_event e s = Some t"
  proof cases
    case (take_none i)
    then show ?thesis by (auto simp: takeRequest_def)
  qed auto
next
  assume "exec_event e s = Some t"
  then show "sys_step s e t"
  proof (cases e)
    case (ETake i)
    with \<open>exec_event e s = Some t\<close> show ?thesis
      by (cases "takeRequest (mgr s)")
        (auto split: if_splits option.splits simp: takeRequest_None_iff
          intro: sys_step.take_none sys_step.take_some)
  qed (auto split: if_splits worker.splits intro: sys_step.intros)
qed

text \<open>
  A run is constrained by a predicate on the state and the event to come; \<open>reach ok n\<close> holds of
  the states reached from a pool of \<open>n\<close> workers by steps that satisfy \<open>ok\<close>.
\<close>

inductive reach :: "(sys \<Rightarrow> event \<Rightarrow> bool) \<Rightarrow> nat \<Rightarrow> sys \<Rightarrow> bool" for ok n where
  init: "reach ok n (init_sys n)"
| step: "reach ok n s \<Longrightarrow> ok s e \<Longrightarrow> sys_step s e t \<Longrightarrow> reach ok n t"

lemma reach_invariant:
  assumes "reach ok n s" and "P (init_sys n)"
    and "\<And>s e t. P s \<Longrightarrow> ok s e \<Longrightarrow> sys_step s e t \<Longrightarrow> P t"
  shows "P s"
  using assms(1) by (induction rule: reach.induct) (auto intro: assms(2,3))

lemma reach_mono:
  "reach ok n s \<Longrightarrow> (\<And>s e. ok s e \<Longrightarrow> ok' s e) \<Longrightarrow> reach ok' n s"
  by (induction rule: reach.induct) (auto intro: reach.intros)

fun trace_ok :: "(sys \<Rightarrow> event \<Rightarrow> bool) \<Rightarrow> event list \<Rightarrow> sys \<Rightarrow> bool" where
  "trace_ok ok [] s = True"
| "trace_ok ok (e # es) s =
     (ok s e \<and> (case exec_event e s of None \<Rightarrow> False | Some t \<Rightarrow> trace_ok ok es t))"

lemma reach_exec_trace:
  "reach ok n s \<Longrightarrow> trace_ok ok es s \<Longrightarrow> exec_trace es s = Some t \<Longrightarrow> reach ok n t"
proof (induction es arbitrary: s)
  case Nil
  then show ?case by simp
next
  case (Cons e es)
  then obtain u where u: "exec_event e s = Some u" "ok s e" "trace_ok ok es u"
      "exec_trace es u = Some t"
    by (auto split: option.splits)
  with Cons.prems(1) have "reach ok n u" by (auto intro: reach.step simp: sys_step_exec)
  with u show ?case by (blast intro: Cons.IH)
qed

lemma exec_trace_append:
  "exec_trace (es @ fs) s =
   (case exec_trace es s of None \<Rightarrow> None | Some t \<Rightarrow> exec_trace fs t)"
  by (induction es arbitrary: s) (auto split: option.splits)

lemma trace_ok_append:
  "trace_ok ok (es @ fs) s \<longleftrightarrow>
   trace_ok ok es s \<and> (case exec_trace es s of None \<Rightarrow> fs = [] | Some t \<Rightarrow> trace_ok ok fs t)"
  by (induction es arbitrary: s) (auto split: option.splits)

text \<open>Runs without \<open>RemoveEntries\<close>: no Cleaner is deleted.\<close>

fun no_remove :: "sys \<Rightarrow> event \<Rightarrow> bool" where
  "no_remove s (ERemove _) = False"
| "no_remove s _ = True"

text \<open>
  Runs in which, moreover, no request comes for a Cleaner that \<open>storeResult\<close> has put back in
  the queue and that is no longer in the dirty set.
\<close>

definition requeued :: "string \<Rightarrow> manager \<Rightarrow> bool" where
  "requeued key m \<longleftrightarrow> key \<in> set (jobQueue m) \<and> key \<notin> set (dirty m)"

fun no_requeue_race :: "sys \<Rightarrow> event \<Rightarrow> bool" where
  "no_requeue_race s (ERemove _) = False"
| "no_requeue_race s (EProcess key) = (\<not> requeued key (mgr s))"
| "no_requeue_race s _ = True"

lemma no_requeue_race_no_remove: "no_requeue_race s e \<Longrightarrow> no_remove s e"
  by (cases e) auto

section \<open>What each operation does to the four collections\<close>

text \<open>The cases of each operation, as equations on the collections it writes.\<close>

lemma Process_fields:
  "jobQueue (Process key m) =
     (if key \<in> set (dirty m) \<or> key \<in> set (inProgress m) then jobQueue m
      else jobQueue m @ [key])"
  "dirty (Process key m) = (if key \<in> set (dirty m) then dirty m else dirty m @ [key])"
  "inProgress (Process key m) = inProgress m"
  "results (Process key m) =
     (if key \<in> set (dirty m) then results m else (results m)(key := None))"
  by (simp_all add: Process_def Let_def)

lemma GetResult_fields:
  "jobQueue (snd (GetResult key m)) = jobQueue m"
  "dirty (snd (GetResult key m)) = dirty m"
  "inProgress (snd (GetResult key m)) = inProgress m"
  "results (snd (GetResult key m)) = (results m)(key := None)"
  by (auto simp: GetResult_def getRequestStatus_def fun_eq_iff split: option.splits if_splits)

lemma storeResult_fields:
  "jobQueue (storeResult key err m) =
     (if key \<in> set (dirty m) then jobQueue m @ [key] else jobQueue m)"
  "dirty (storeResult key err m) = removeKey key (dirty m)"
  "inProgress (storeResult key err m) = removeKey key (inProgress m)"
  "results (storeResult key err m) =
     (if key \<in> set (dirty m) then (results m)(key := None) else (results m)(key \<mapsto> err))"
  by (simp_all add: storeResult_def Let_def)

lemma RemoveEntries_fields:
  "jobQueue (RemoveEntries key m) = overwriteKey key (jobQueue m)"
  "dirty (RemoveEntries key m) = overwriteKey key (dirty m)"
  "inProgress (RemoveEntries key m) = overwriteKey key (inProgress m)"
  "results (RemoveEntries key m) = (results m)(key := None)"
  by (simp_all add: RemoveEntries_def)

lemmas manager_fields = Process_fields GetResult_fields storeResult_fields RemoveEntries_fields

end
