(* ===== verification/Worker_Safety.thy ===== *)
theory Worker_Safety
  imports Worker_Pool
begin

text \<open>
  What holds in the runs of the worker pool: no request is lost while no Cleaner is deleted, the
  in-progress collection is exactly what the workers run, and two workers never run the same Cleaner
  unless a request comes in the window \<open>storeResult\<close> opens when it requeues.
\<close>

section \<open>The requests the workers run\<close>

fun worker_keys :: "worker \<Rightarrow> string list" where
  "worker_keys (Working key) = [key]"
| "worker_keys _ = []"

definition running :: "sys \<Rightarrow> string list" where
  "running s = concat (map worker_keys (workers s))"

lemma mset_concat_update:
  assumes "i < length ws"
  shows "mset (concat (map f (ws[i := w]))) + mset (f (ws ! i)) =
    mset (concat (map f ws)) + mset (f w)"
  using assms
proof (induction ws arbitrary: i)
  case Nil
  then show ?case by simp
next
  case (Cons x xs)
  then show ?case by (cases i) (auto simp: ac_simps)
qed

lemma mset_running_update:
  "i < length (workers s) \<Longrightarrow> workers s ! i = w0 \<Longrightarrow>
   mset (running (s\<lparr>mgr := m, workers := (workers s)[i := w]\<rparr>)) + mset (worker_keys w0) =
   mset (running s) + mset (worker_keys w)"
  using mset_concat_update [of i "workers s" worker_keys w] by (simp add: running_def)

lemma running_mgr [simp]: "running (s\<lparr>mgr := m\<rparr>) = running s"
  by (simp add: running_def)

lemma in_running_iff:
  "key \<in> set (running s) \<longleftrightarrow> (\<exists>i < length (workers s). workers s ! i = Working key)"
proof -
  have "key \<in> set (running s) \<longleftrightarrow> Working key \<in> set (workers s)"
    unfolding running_def
    by (auto elim: worker_keys.elims intro!: bexI [of _ "Working key"]) (metis empty_iff
        insert_iff list.set worker_keys.elims)
  then show ?thesis by (metis in_set_conv_nth)
qed

lemma distinct_running_inj:
  assumes "distinct (running s)"
    and "i < length (workers s)" "workers s ! i = Working key"
    and "j < length (workers s)" "workers s ! j = Working key"
  shows "i = j"
proof (rule ccontr)
  assume ij: "i \<noteq> j"
  define ws where "ws = (workers s)[j := AtSelect]"
  have "mset (concat (map worker_keys ws)) + {#key#} = mset (running s)"
    using mset_concat_update [of j "workers s" worker_keys AtSelect] assms(4,5)
    by (simp add: ws_def running_def)
  moreover have "key \<in> set (concat (map worker_keys ws))"
  proof -
    have "ws ! i \<in> set ws" using assms(2) by (simp add: ws_def)
    then show ?thesis using ij assms(2,3) by (force simp: ws_def)
  qed
  ultimately have "2 \<le> count (mset (running s)) key"
    by (metis count_add_mset add_mset_add_single set_mset_mset count_greater_eq_one_iff
        Suc_le_mono numeral_2_eq_2 One_nat_def)
  then show False using assms(1) by (metis distinct_count_atmost_1 One_nat_def not_less_eq_eq
      numeral_2_eq_2 le_SucE le_refl One_nat_def nat_le_linear)
qed

section \<open>No request is lost\<close>

text \<open>
  Every request in the dirty set waits in the queue or is being served; the in-progress collection is
  the multiset of what the workers run; the dirty set has no duplicate; and a stored result is never
  that of a request still to be served.
\<close>

definition pool_inv :: "sys \<Rightarrow> bool" where
  "pool_inv s \<longleftrightarrow>
     mset (inProgress (mgr s)) = mset (running s) \<and>
     distinct (dirty (mgr s)) \<and>
     set (dirty (mgr s)) \<subseteq> set (jobQueue (mgr s)) \<union> set (inProgress (mgr s)) \<and>
     (\<forall>key \<in> set (dirty (mgr s)). results (mgr s) key = None)"

lemma pool_inv_init: "pool_inv (init_sys n)"
proof -
  have "running (init_sys n) = []" by (simp add: running_def init_sys_def)
  then show ?thesis by (simp add: pool_inv_def init_sys_def startWorkloadWorkers_def)
qed

lemma pool_inv_step [go_inv]:
  assumes "sys_step s e t" and "no_remove s e" and "pool_inv s"
  shows "pool_inv t"
  using assms(1)
proof cases
  case (process key)
  then show ?thesis using assms(3) by (auto simp: pool_inv_def manager_fields)
next
  case (get_result key)
  then show ?thesis using assms(3) by (auto simp: pool_inv_def manager_fields)
next
  case (remove key)
  then show ?thesis using assms(2) by simp
next
  case (take_none i)
  then show ?thesis using assms(3) by simp
next
  case (take_some i key m)
  then obtain rest where q: "jobQueue (mgr s) = key # rest"
    and m: "m = (mgr s)\<lparr>jobQueue := rest, inProgress := inProgress (mgr s) @ [key],
             dirty := removeKey key (dirty (mgr s))\<rparr>"
    by (auto simp: takeRequest_Some_iff)
  have "mset (running t) = add_mset key (mset (running s))"
    using mset_running_update [of i s AtSelect "Working key" m] take_some by simp
  then show ?thesis
    using assms(3) take_some(2) q
    by (auto simp: pool_inv_def m distinct_removeKey set_removeKey_distinct)
next
  case (finish i key err)
  have r: "add_mset key (mset (running t)) = mset (running s)"
    using mset_running_update [of i s "Working key" AtSelect "storeResult key err (mgr s)"] finish
    by simp
  have "set (inProgress (mgr s)) \<subseteq> insert key (set (removeKey key (inProgress (mgr s))))"
    using in_removeKey by fastforce
  then show ?thesis
    using assms(3) finish(2) r
    by (auto simp: pool_inv_def storeResult_fields distinct_removeKey set_removeKey_distinct
        simp flip: r)
next
  case (cancel i)
  have "mset (running t) = mset (running s)"
    using mset_running_update [of i s AtSelect Exited "mgr s"] cancel by simp
  then show ?thesis using assms(3) cancel(2) by (simp add: pool_inv_def)
qed

lemma reach_pool_inv: "reach no_remove n s \<Longrightarrow> pool_inv s"
  by (erule reach_invariant) (auto intro: pool_inv_init pool_inv_step)

text \<open>The in-progress collection and the workers agree on what is being served.\<close>

lemma pool_inv_inProgress:
  "pool_inv s \<Longrightarrow> key \<in> set (inProgress (mgr s)) \<longleftrightarrow>
     (\<exists>i < length (workers s). workers s ! i = Working key)"
  by (metis in_running_iff mset_eq_setD pool_inv_def)

section \<open>A Cleaner is served by one worker at a time\<close>

definition exclusive_inv :: "sys \<Rightarrow> bool" where
  "exclusive_inv s \<longleftrightarrow>
     pool_inv s \<and> distinct (jobQueue (mgr s) @ inProgress (mgr s))"

lemma exclusive_inv_init: "exclusive_inv (init_sys n)"
  using pool_inv_init by (simp add: exclusive_inv_def init_sys_def startWorkloadWorkers_def)

lemma removeKey_distinct_notin: "distinct s \<Longrightarrow> key \<notin> set (removeKey key s)"
  by (simp add: set_removeKey_distinct)

lemma exclusive_inv_step [go_inv]:
  assumes st: "sys_step s e t" and ok: "no_requeue_race s e" and inv: "exclusive_inv s"
  shows "exclusive_inv t"
proof -
  have "pool_inv t"
    using st ok inv by (auto simp: exclusive_inv_def intro: pool_inv_step no_requeue_race_no_remove)
  moreover have "distinct (jobQueue (mgr t) @ inProgress (mgr t))"
    using st
  proof cases
    case (process key)
    then show ?thesis using ok inv by (auto simp: exclusive_inv_def requeued_def manager_fields)
  next
    case (get_result key)
    then show ?thesis using inv by (simp add: exclusive_inv_def manager_fields)
  next
    case (remove key)
    then show ?thesis using ok by simp
  next
    case (take_none i)
    then show ?thesis using inv by (simp add: exclusive_inv_def)
  next
    case (take_some i key m)
    then show ?thesis using inv by (auto simp: exclusive_inv_def takeRequest_Some_iff)
  next
    case (finish i key err)
    have "key \<in> set (inProgress (mgr s))"
      using finish inv pool_inv_inProgress unfolding exclusive_inv_def by blast
    then show ?thesis
      using finish(2) inv
      by (auto simp: exclusive_inv_def manager_fields distinct_removeKey set_removeKey_distinct)
  next
    case (cancel i)
    then show ?thesis using inv by (simp add: exclusive_inv_def)
  qed
  ultimately show ?thesis by (simp add: exclusive_inv_def)
qed

lemma reach_exclusive_inv: "reach no_requeue_race n s \<Longrightarrow> exclusive_inv s"
  by (erule reach_invariant) (auto intro: exclusive_inv_init exclusive_inv_step)

lemma exclusive_running: "exclusive_inv s \<Longrightarrow> distinct (running s)"
  by (metis distinct_append exclusive_inv_def mset_eq_imp_distinct_iff pool_inv_def)

text \<open>
  Without the window, the queue of a requeued request is where a second copy enters: a step that
  breaks exclusivity, other than a deletion, is a request for a Cleaner that waits in the queue but is
  not in the dirty set.
\<close>

lemma exclusivity_broken_by:
  assumes "sys_step s e t" "exclusive_inv s" "\<not> exclusive_inv t"
  shows "(\<exists>key. e = ERemove key) \<or> (\<exists>key. e = EProcess key \<and> requeued key (mgr s))"
  using assms exclusive_inv_step [OF assms(1) _ assms(2)] by (cases e) auto

section \<open>The abstract life of one request\<close>

text \<open>
  What the manager promises about one Cleaner, without queues: it is idle, waits, runs, runs with
  another request noted meanwhile, or waits again because of that note.
\<close>

datatype phase = Idle | Waiting | Active | ActiveDirty | Requeued

datatype key_event = KProcess | KRead | KTake | KFinish go_err | KOther

type_synonym view = "phase \<times> go_err option"

fun phase_step :: "key_event \<Rightarrow> view \<Rightarrow> view" where
  "phase_step KProcess (Idle, r) = (Waiting, None)"
| "phase_step KProcess (Active, r) = (ActiveDirty, None)"
| "phase_step KProcess (p, r) = (p, r)"
| "phase_step KRead (p, r) = (p, None)"
| "phase_step KTake (p, r) = (Active, r)"
| "phase_step (KFinish err) (ActiveDirty, r) = (Requeued, None)"
| "phase_step (KFinish err) (p, r) = (Idle, Some err)"
| "phase_step KOther v = v"

text \<open>The abstraction of the manager's collections, and of an event, for one Cleaner.\<close>

definition phase_of :: "string \<Rightarrow> manager \<Rightarrow> phase" where
  "phase_of key m =
     (if key \<in> set (inProgress m) then if key \<in> set (dirty m) then ActiveDirty else Active
      else if key \<in> set (jobQueue m) then if key \<in> set (dirty m) then Waiting else Requeued
      else Idle)"

definition view_of :: "string \<Rightarrow> sys \<Rightarrow> view" where
  "view_of key s = (phase_of key (mgr s), results (mgr s) key)"

fun event_for :: "string \<Rightarrow> sys \<Rightarrow> event \<Rightarrow> key_event" where
  "event_for key s (EProcess k) = (if k = key then KProcess else KOther)"
| "event_for key s (EGetResult k) = (if k = key then KRead else KOther)"
| "event_for key s (ETake i) =
     (case jobQueue (mgr s) of [] \<Rightarrow> KOther | k # _ \<Rightarrow> if k = key then KTake else KOther)"
| "event_for key s (EFinish i err) =
     (if workers s ! i = Working key then KFinish err else KOther)"
| "event_for key s _ = KOther"

text \<open>Every step of the pool is, for every Cleaner, one step of its abstract life.\<close>

lemma pool_refines_phases:
  assumes st: "sys_step s e t" and ok: "no_requeue_race s e" and inv: "exclusive_inv s"
  shows "view_of key t = phase_step (event_for key s e) (view_of key s)"
  using st
proof cases
  case (process k)
  have sub: "set (dirty (mgr s)) \<subseteq> set (jobQueue (mgr s)) \<union> set (inProgress (mgr s))"
    using inv by (simp add: exclusive_inv_def pool_inv_def)
  then show ?thesis
    using process ok inv
    by (auto simp: view_of_def phase_of_def manager_fields requeued_def exclusive_inv_def
        pool_inv_def)
next
  case (get_result k)
  then show ?thesis by (simp add: view_of_def phase_of_def manager_fields)
next
  case (remove k)
  then show ?thesis using ok by simp
next
  case (take_none i)
  then show ?thesis by simp
next
  case (take_some i k m)
  have "distinct (dirty (mgr s))" using inv by (simp add: exclusive_inv_def pool_inv_def)
  then show ?thesis
    using take_some inv
    by (auto simp: view_of_def phase_of_def takeRequest_Some_iff exclusive_inv_def
        set_removeKey_distinct)
next
  case (finish i k err)
  have k: "k \<in> set (inProgress (mgr s))"
    using finish inv pool_inv_inProgress unfolding exclusive_inv_def by blast
  have d: "distinct (dirty (mgr s))" "distinct (inProgress (mgr s))"
    "k \<notin> set (jobQueue (mgr s))"
    using inv k by (auto simp: exclusive_inv_def pool_inv_def)
  show ?thesis
    using finish k d
    by (auto simp: view_of_def phase_of_def manager_fields set_removeKey_distinct)
next
  case (cancel i)
  then show ?thesis by (simp add: view_of_def)
qed

end
