(* ===== verification/Worker_Order.thy ===== *)
theory Worker_Order
  imports Worker_Safety
begin

text \<open>
  The order in which the workers serve requests, and whether they serve them at all: the queue is
  first in, first out in every run without deletions; a request is taken once the workers have come as
  often as there are requests before it; and a Cleaner whose name a deletion leaked into the
  in-progress collection is never served again.
\<close>

section \<open>What a run takes from the queue and adds to it\<close>

fun step_taken :: "sys \<Rightarrow> event \<Rightarrow> string list" where
  "step_taken s (ETake i) = take 1 (jobQueue (mgr s))"
| "step_taken s _ = []"

fun step_queued :: "sys \<Rightarrow> event \<Rightarrow> string list" where
  "step_queued s (EProcess key) =
     (if key \<in> set (dirty (mgr s)) \<or> key \<in> set (inProgress (mgr s)) then [] else [key])"
| "step_queued s (EFinish i err) =
     (case workers s ! i of
        Working key \<Rightarrow> if key \<in> set (dirty (mgr s)) then [key] else []
      | _ \<Rightarrow> [])"
| "step_queued s _ = []"

fun trace_collect :: "(sys \<Rightarrow> event \<Rightarrow> 'a list) \<Rightarrow> event list \<Rightarrow> sys \<Rightarrow> 'a list" where
  "trace_collect f [] s = []"
| "trace_collect f (e # es) s =
     f s e @ (case exec_event e s of None \<Rightarrow> [] | Some t \<Rightarrow> trace_collect f es t)"

lemma step_fifo:
  assumes "sys_step s e t" and "no_remove s e"
  shows "jobQueue (mgr s) @ step_queued s e = step_taken s e @ jobQueue (mgr t)"
  using assms(1)
proof cases
  case (take_some i key m)
  then show ?thesis by (auto simp: takeRequest_Some_iff)
next
  case (remove key)
  then show ?thesis using assms(2) by simp
qed (auto simp: manager_fields)

lemma trace_fifo:
  "trace_ok no_remove es s \<Longrightarrow> exec_trace es s = Some t \<Longrightarrow>
   jobQueue (mgr s) @ trace_collect step_queued es s =
   trace_collect step_taken es s @ jobQueue (mgr t)"
proof (induction es arbitrary: s)
  case Nil
  then show ?case by simp
next
  case (Cons e es)
  then obtain u where u: "exec_event e s = Some u" "no_remove s e" "trace_ok no_remove es u"
      "exec_trace es u = Some t"
    by (auto split: option.splits)
  have "jobQueue (mgr s) @ step_queued s e = step_taken s e @ jobQueue (mgr u)"
    using u(1,2) by (intro step_fifo) (simp_all add: sys_step_exec)
  moreover have "jobQueue (mgr u) @ trace_collect step_queued es u =
      trace_collect step_taken es u @ jobQueue (mgr t)"
    using u by (intro Cons.IH)
  ultimately show ?case
    using u(1) by (metis append_assoc option.simps(5) trace_collect.simps(2))
qed

section \<open>A queued request is served in its turn\<close>

fun takes_request :: "event \<Rightarrow> bool" where
  "takes_request (ETake _) = True"
| "takes_request _ = False"

lemma step_queue:
  assumes "exec_event e s = Some t" and "no_remove s e" and "jobQueue (mgr s) = k # q"
  shows "if takes_request e
    then jobQueue (mgr t) = q \<and> (\<exists>i. e = ETake i \<and> workers t ! i = Working k)
    else \<exists>new. jobQueue (mgr t) = k # q @ new"
  using assms by (cases e) (auto simp: takeRequest_def manager_fields split: if_splits worker.splits)

lemma served_in_turn:
  "trace_ok no_remove es s \<Longrightarrow> exec_trace es s = Some t \<Longrightarrow>
   p < length (jobQueue (mgr s)) \<Longrightarrow> p < length (filter takes_request es) \<Longrightarrow>
   \<exists>es1 i es2 u. es = es1 @ ETake i # es2 \<and> length (filter takes_request es1) = p \<and>
     exec_trace (es1 @ [ETake i]) s = Some u \<and> workers u ! i = Working (jobQueue (mgr s) ! p)"
proof (induction es arbitrary: s p)
  case Nil
  then show ?case by simp
next
  case (Cons e es)
  obtain k q where q: "jobQueue (mgr s) = k # q" using Cons.prems(3) by (cases "jobQueue (mgr s)") auto
  obtain u where u: "exec_event e s = Some u" "no_remove s e" "trace_ok no_remove es u" "exec_trace es u = Some t"
    using Cons.prems(1,2) by (auto split: option.splits)
  note step = step_queue [OF u(1,2) q]
  have later: "\<exists>es1 i es2 v. e # es = es1 @ ETake i # es2 \<and> length (filter takes_request es1) = p \<and>
      exec_trace (es1 @ [ETake i]) s = Some v \<and> workers v ! i = Working (jobQueue (mgr s) ! p)"
    if p': "p' < length (jobQueue (mgr u))" "p' < length (filter takes_request es)"
      and turn: "p = length (filter takes_request [e]) + p'"
      and same: "jobQueue (mgr u) ! p' = jobQueue (mgr s) ! p" for p'
  proof -
    obtain es1 i es2 v where "es = es1 @ ETake i # es2" "length (filter takes_request es1) = p'"
      "exec_trace (es1 @ [ETake i]) u = Some v" "workers v ! i = Working (jobQueue (mgr u) ! p')"
      using Cons.IH [OF u(3,4) p'] by blast
    then show ?thesis
      using turn same u(1) by (intro exI [of _ "e # es1"] exI [of _ i] exI [of _ es2] exI [of _ v]) auto
  qed
  show ?case
  proof (cases "takes_request e")
    case True
    then obtain i where i: "e = ETake i" "workers u ! i = Working k" and rest: "jobQueue (mgr u) = q"
      using step by auto
    show ?thesis
    proof (cases p)
      case 0
      then show ?thesis using i u(1) q by (intro exI [of _ "[]"] exI [of _ i] exI [of _ es] exI [of _ u]) auto
    next
      case (Suc p')
      then show ?thesis using later [of p'] Cons.prems(3,4) True rest q by simp
    qed
  next
    case False
    then obtain new where "jobQueue (mgr u) = k # q @ new" using step by auto
    then show ?thesis using later [of p] Cons.prems(3,4) False q by (simp add: nth_append nth_Cons split: nat.split)
  qed
qed

text \<open>One worker serves the queue: it takes and finishes requests, with the errors \<open>errs\<close> of their runs.\<close>

definition serve :: "nat \<Rightarrow> go_err list \<Rightarrow> event list" where
  "serve i errs = concat (map (\<lambda>err. [ETake i, EFinish i err]) errs)"

lemma serve_simps [simp]:
  "serve i [] = []" "serve i (err # errs) = ETake i # EFinish i err # serve i errs"
  by (simp_all add: serve_def)

lemma serve_runs:
  assumes "i < length (workers s)" and "workers s ! i = AtSelect"
    and "jobQueue (mgr s) = q @ rest" and "length errs = length q"
  shows "\<exists>t new. exec_trace (serve i errs) s = Some t \<and> trace_ok no_remove (serve i errs) s \<and>
    workers t = workers s \<and> jobQueue (mgr t) = rest @ new"
  using assms
proof (induction q arbitrary: s rest errs)
  case Nil
  then show ?case by simp
next
  case (Cons k q)
  then obtain err errs' where errs: "errs = err # errs'" by (cases errs) auto
  let ?u = "s\<lparr>mgr := storeResult k err (snd (takeRequest (mgr s))), workers := (workers s)[i := AtSelect]\<rparr>"
  have two: "exec_trace [ETake i, EFinish i err] s = Some ?u" "trace_ok no_remove [ETake i, EFinish i err] s"
    using Cons.prems by (auto simp: takeRequest_def)
  have idle: "(workers s)[i := AtSelect] = workers s" using Cons.prems(2) by (metis list_update_id)
  have "\<exists>new. jobQueue (mgr ?u) = q @ rest @ new"
    using Cons.prems(3) by (simp add: takeRequest_def storeResult_fields)
  then obtain new where "jobQueue (mgr ?u) = q @ rest @ new" by blast
  then obtain t new' where t: "exec_trace (serve i errs') ?u = Some t" "trace_ok no_remove (serve i errs') ?u"
    "workers t = workers ?u" "jobQueue (mgr t) = (rest @ new) @ new'"
    using Cons.IH [of ?u "rest @ new" errs'] Cons.prems errs idle by auto
  have split: "serve i errs = [ETake i, EFinish i err] @ serve i errs'" by (simp add: errs)
  show ?case
    unfolding split exec_trace_append trace_ok_append two(1) using two(2) t idle
    by (intro exI [of _ t] exI [of _ "new @ new'"]) (simp del: exec_trace.simps trace_ok.simps)
qed

section \<open>A leaked in-progress entry starves its Cleaner\<close>

definition starved :: "string \<Rightarrow> sys \<Rightarrow> bool" where
  "starved key s \<longleftrightarrow>
     key \<in> set (inProgress (mgr s)) \<and> key \<notin> set (jobQueue (mgr s)) \<and> key \<notin> set (running s)"

lemma starved_step:
  assumes "sys_step s e t" "no_remove s e" "starved key s"
  shows "starved key t"
  using assms(1)
proof cases
  case (remove k)
  then show ?thesis using assms(2) by simp
next
  case (take_some i k m)
  have "mset (running t) = add_mset k (mset (running s))"
    using mset_running_update [of i s AtSelect "Working k" m] take_some by simp
  then have "set (running t) = insert k (set (running s))"
    by (metis set_mset_add_mset_insert set_mset_mset)
  then show ?thesis using take_some assms(3) by (auto simp: starved_def takeRequest_Some_iff)
next
  case (finish i k err)
  have r: "add_mset k (mset (running t)) = mset (running s)"
    using mset_running_update [of i s "Working k" AtSelect "storeResult k err (mgr s)"] finish
    by simp
  then have "set (running s) = insert k (set (running t))"
    by (metis set_mset_add_mset_insert set_mset_mset)
  moreover from this assms(3) have "k \<noteq> key" by (auto simp: starved_def)
  ultimately show ?thesis
    using finish(2) assms(3) by (auto simp: starved_def manager_fields in_removeKey)
next
  case (cancel i)
  have "mset (running t) = mset (running s)"
    using mset_running_update [of i s AtSelect Exited "mgr s"] cancel by simp
  then have "set (running t) = set (running s)" by (metis set_mset_mset)
  then show ?thesis using cancel(2) assms(3) by (simp add: starved_def)
qed (use assms(3) in \<open>auto simp: starved_def manager_fields\<close>)

lemma starved_not_taken: "starved key s \<Longrightarrow> key \<notin> set (step_taken s e)"
  by (cases e) (auto simp: starved_def dest: in_set_takeD)

lemma starved_trace:
  "starved key s \<Longrightarrow> trace_ok no_remove es s \<Longrightarrow> exec_trace es s = Some t \<Longrightarrow>
   starved key t \<and> key \<notin> set (trace_collect step_taken es s)"
proof (induction es arbitrary: s)
  case Nil
  then show ?case by simp
next
  case (Cons e es)
  then obtain u where u: "exec_event e s = Some u" "no_remove s e" "trace_ok no_remove es u"
      "exec_trace es u = Some t"
    by (auto split: option.splits)
  then have "starved key u" using Cons.prems(1) by (auto intro: starved_step simp: sys_step_exec)
  then have "starved key t \<and> key \<notin> set (trace_collect step_taken es u)"
    using u by (intro Cons.IH)
  then show ?case using u(1) starved_not_taken [OF Cons.prems(1)] by simp
qed

section \<open>The abstract life along a run\<close>

fun key_trace :: "string \<Rightarrow> event list \<Rightarrow> sys \<Rightarrow> key_event list" where
  "key_trace key es s = trace_collect (\<lambda>s e. [event_for key s e]) es s"

lemma trace_refines_phases:
  "exclusive_inv s \<Longrightarrow> trace_ok no_requeue_race es s \<Longrightarrow> exec_trace es s = Some t \<Longrightarrow>
   view_of key t = fold phase_step (key_trace key es s) (view_of key s)"
proof (induction es arbitrary: s)
  case Nil
  then show ?case by simp
next
  case (Cons e es)
  then obtain u where u: "exec_event e s = Some u" "no_requeue_race s e"
      "trace_ok no_requeue_race es u" "exec_trace es u = Some t"
    by (auto split: option.splits)
  then have st: "sys_step s e u" by (simp add: sys_step_exec)
  have "exclusive_inv u" using st u(2) Cons.prems(1) by (rule exclusive_inv_step)
  then have "view_of key t = fold phase_step (key_trace key es u) (view_of key u)"
    using u(3,4) by (rule Cons.IH)
  moreover have "view_of key u = phase_step (event_for key s e) (view_of key s)"
    using st u(2) Cons.prems(1) by (rule pool_refines_phases)
  ultimately show ?case using u(1) by simp
qed

end
