(* ===== verification/Worker_Properties.thy ===== *)
theory Worker_Properties
  imports Worker_Order
begin

text \<open>
  The properties of the job manager and its workers: what every run guarantees, and the runs on
  which \<open>storeResult\<close> and \<open>RemoveEntries\<close> break the promise of the head comment of
  \<open>worker.go\<close>.
\<close>

text \<open>A run from a fresh pool, evaluated, gives a reachable state.\<close>

lemma reach_trace:
  "exec_trace es (init_sys n) = Some s \<Longrightarrow> trace_ok ok es (init_sys n) \<Longrightarrow> reach ok n s"
  using reach_exec_trace reach.init by blast

lemmas run_eval =
  init_sys_def startWorkloadWorkers_def Process_def GetResult_def getRequestStatus_def
  RemoveEntries_def takeRequest_def storeResult_def removeKey_def overwriteKey_def
  removeFromSlice_def requeued_def Let_def eval_nat_numeral

text \<open>
  The run on which a deletion leaks an entry: \<open>a\<close> is deleted while \<open>a\<close> and \<open>b\<close> run.
\<close>

definition leak_run :: "string \<Rightarrow> string \<Rightarrow> event list" where
  "leak_run a b = [EProcess a, EProcess b, ETake 0, ETake 1, ERemove a, EFinish 0 None,
     EFinish 1 None]"

lemma leak_run_result:
  "a \<noteq> b \<Longrightarrow> \<exists>s. exec_trace (leak_run a b) (init_sys 2) = Some s \<and>
     workers s = [AtSelect, AtSelect] \<and> inProgress (mgr s) = [b] \<and> jobQueue (mgr s) = [] \<and>
     dirty (mgr s) = []"
  by (simp add: leak_run_def run_eval)

section \<open>What every run guarantees\<close>

text \<open>
  C1. As long as no Cleaner is deleted, a request that \<open>Process\<close> accepted and that is still in
  the dirty set waits in the queue or belongs to a Cleaner a worker is running (which requeues it when
  it is done); meanwhile \<open>GetResult\<close> reports it in progress and leaves the manager as it is.
\<close>

theorem pending_request_not_lost:
  assumes "reach no_remove n s" and "key \<in> set (dirty (mgr s))"
  shows "(key \<in> set (jobQueue (mgr s)) \<or>
      (\<exists>i < length (workers s). workers s ! i = Working key)) \<and>
    Status (fst (GetResult key (mgr s))) = InProgress \<and> snd (GetResult key (mgr s)) = mgr s"
proof -
  have inv: "pool_inv s" using assms(1) by (rule reach_pool_inv)
  then have "key \<in> set (jobQueue (mgr s)) \<or> key \<in> set (inProgress (mgr s))"
      and "results (mgr s) key = None"
    using assms(2) by (auto simp: pool_inv_def)
  then show ?thesis
    using pool_inv_inProgress [OF inv, of key]
    by (auto simp: GetResult_def getRequestStatus_def)
qed

theorem pending_request_not_lost_witness:
  "\<exists>s. exec_trace [EProcess ''a'', ETake 0, EProcess ''a''] (init_sys 1) = Some s \<and>
     ''a'' \<in> set (dirty (mgr s)) \<and> ''a'' \<notin> set (jobQueue (mgr s)) \<and>
     Status (fst (GetResult ''a'' (mgr s))) = InProgress"
proof -
  obtain s where s: "exec_trace [EProcess ''a'', ETake 0, EProcess ''a''] (init_sys 1) = Some s"
    and d: "''a'' \<in> set (dirty (mgr s))" "''a'' \<notin> set (jobQueue (mgr s))"
    by (simp add: run_eval)
  have "reach no_remove 1 s" using s by (rule reach_trace) (simp add: run_eval)
  from pending_request_not_lost [OF this d(1)] s d show ?thesis by blast
qed

text \<open>
  C5. Two workers never run the same Cleaner, in every run without deletions in which no request
  comes for a Cleaner that \<open>storeResult\<close> has requeued (in the queue, no longer in the dirty set).
\<close>

theorem one_worker_per_cleaner:
  assumes "reach no_requeue_race n s"
    and "i < length (workers s)" "workers s ! i = Working key"
    and "j < length (workers s)" "workers s ! j = Working key"
  shows "i = j"
  using exclusive_running [OF reach_exclusive_inv [OF assms(1)]] assms(2-5)
  by (rule distinct_running_inj)

theorem one_worker_per_cleaner_witness:
  "\<exists>s. exec_trace [EProcess ''a'', EProcess ''b'', ETake 0, EProcess ''a'', ETake 1] (init_sys 2)
      = Some s \<and> workers s ! 0 = Working ''a'' \<and> workers s ! 1 \<noteq> Working ''a''"
proof -
  let ?es = "[EProcess ''a'', EProcess ''b'', ETake 0, EProcess ''a'', ETake 1]"
  obtain s where s: "exec_trace ?es (init_sys 2) = Some s"
    and w: "length (workers s) = 2" "workers s ! 0 = Working ''a''"
    by (simp add: run_eval)
  have r: "reach no_requeue_race 2 s" using s by (rule reach_trace) (simp add: run_eval)
  have "workers s ! 1 \<noteq> Working ''a''"
    using one_worker_per_cleaner [OF r, of 0 "''a''" 1] w by auto
  with s w show ?thesis by blast
qed

definition race_run :: "nat \<Rightarrow> nat \<Rightarrow> string \<Rightarrow> go_err \<Rightarrow> go_err list \<Rightarrow> event list" where
  "race_run i j key err errs = [EFinish i err, EProcess key] @ serve i errs @ [ETake i, ETake j]"

text \<open>
  C30. The window is real: in every state reached without it in which a worker runs a Cleaner that has
  been requested again, and another worker is idle, the worker finishes, one more request for the Cleaner
  comes before it is taken, the queue is served up to it, and then both workers run the Cleaner at the
  same time, whatever the errors of the runs.  No deletion is involved.
\<close>

theorem requeue_race_runs_cleaner_twice:
  assumes "reach no_requeue_race n s"
    and "i < length (workers s)" and "workers s ! i = Working key"
    and "j < length (workers s)" and "workers s ! j = AtSelect"
    and "key \<in> set (dirty (mgr s))" and "length errs = length (jobQueue (mgr s))"
  shows "trace_ok no_remove (race_run i j key err errs) s \<and>
    (\<exists>t. exec_trace (race_run i j key err errs) s = Some t \<and>
       workers t ! i = Working key \<and> workers t ! j = Working key)"
proof -
  have inv: "exclusive_inv s" by (rule reach_exclusive_inv [OF assms(1)])
  let ?u = "s\<lparr>mgr := Process key (storeResult key err (mgr s)), workers := (workers s)[i := AtSelect]\<rparr>"
  have two: "exec_trace [EFinish i err, EProcess key] s = Some ?u" "trace_ok no_remove [EFinish i err, EProcess key] s"
    using assms(2,3) by simp_all
  have "distinct (dirty (mgr s))" "distinct (inProgress (mgr s))"
    using inv by (simp_all add: exclusive_inv_def pool_inv_def)
  then have "key \<notin> set (removeKey key (dirty (mgr s)))" "key \<notin> set (removeKey key (inProgress (mgr s)))"
    by (simp_all add: removeKey_distinct_notin)
  then have "jobQueue (mgr ?u) = jobQueue (mgr s) @ [key, key]"
    using assms(6) by (simp add: manager_fields)
  then obtain t new where t: "exec_trace (serve i errs) ?u = Some t" "trace_ok no_remove (serve i errs) ?u"
    "workers t = workers ?u" "jobQueue (mgr t) = [key, key] @ new"
    using serve_runs [of i ?u "jobQueue (mgr s)" "[key, key]" errs] assms(2,7) by auto
  have "i \<noteq> j" using assms(3,5) by auto
  then have last: "\<exists>v. exec_trace [ETake i, ETake j] t = Some v \<and> workers v ! i = Working key \<and>
      workers v ! j = Working key" and ok: "trace_ok no_remove [ETake i, ETake j] t"
    using t(3,4) assms(2,4,5) by (simp_all add: takeRequest_def)
  show ?thesis
    unfolding race_run_def exec_trace_append trace_ok_append two(1)
    using two(2) t(1,2) last ok by (simp del: exec_trace.simps trace_ok.simps add: exec_trace_append trace_ok_append)
qed

theorem requeue_race_runs_cleaner_twice_witness:
  "\<exists>s t. exec_trace [EProcess ''a'', ETake 0, EProcess ''b'', EProcess ''a''] (init_sys 2) = Some s \<and>
     exec_trace (race_run 0 1 ''a'' None [None]) s = Some t \<and>
     workers t ! 0 = Working ''a'' \<and> workers t ! 1 = Working ''a''"
proof -
  let ?es = "[EProcess ''a'', ETake 0, EProcess ''b'', EProcess ''a'']"
  obtain s where s: "exec_trace ?es (init_sys 2) = Some s"
    and f: "workers s = [Working ''a'', AtSelect]" "''a'' \<in> set (dirty (mgr s))" "jobQueue (mgr s) = [''b'']"
    by (simp add: run_eval)
  then have at: "0 < length (workers s)" "workers s ! 0 = Working ''a''" "1 < length (workers s)"
    "workers s ! 1 = AtSelect" "''a'' \<in> set (dirty (mgr s))" "length [None] = length (jobQueue (mgr s))"
    by simp_all
  have "reach no_requeue_race 2 s" using s by (rule reach_trace) (simp add: run_eval)
  from requeue_race_runs_cleaner_twice [OF this at, of None] obtain t where
    "exec_trace (race_run 0 1 ''a'' None [None]) s = Some t"
    "workers t ! 0 = Working ''a''" "workers t ! 1 = Working ''a''" by (elim exE conjE)
  with s show ?thesis by (intro exI conjI)
qed

text \<open>
  C11. Requests are taken in the order in which they were queued: over any run without deletions, what
  the queue held followed by what the run appended is what the run took followed by what the queue
  holds at the end.
\<close>

theorem queue_is_fifo:
  assumes "trace_ok no_remove es s" and "exec_trace es s = Some t"
  shows "jobQueue (mgr s) @ trace_collect step_queued es s =
    trace_collect step_taken es s @ jobQueue (mgr t)"
  using assms by (rule trace_fifo)

theorem queue_is_fifo_witness:
  "\<exists>t. exec_trace [EProcess ''a'', EProcess ''b'', ETake 0] (init_sys 1) = Some t \<and>
     ''a'' # ''b'' # [] = ''a'' # jobQueue (mgr t)"
proof -
  let ?es = "[EProcess ''a'', EProcess ''b'', ETake 0]"
  obtain t where t: "exec_trace ?es (init_sys 1) = Some t"
    by (simp add: run_eval)
  have "trace_ok no_remove ?es (init_sys 1)" by (simp add: run_eval)
  from queue_is_fifo [OF this t] t show ?thesis by (simp add: run_eval)
qed

text \<open>
  C12. A queued request is served in its turn: in every run without deletions, however the workers and the
  reconcilers interleave and whatever is requested meanwhile, when \<open>p\<close> requests stand before it then the
  worker that comes to the queue as the one after \<open>p\<close> others gets this very request; so it waits for no
  more takes than there were requests before it.
\<close>

theorem pending_request_served:
  assumes "trace_ok no_remove es s" and "exec_trace es s = Some t"
    and "p < length (jobQueue (mgr s))" and "p < length (filter takes_request es)"
  shows "\<exists>es1 i es2 u. es = es1 @ ETake i # es2 \<and> length (filter takes_request es1) = p \<and>
    exec_trace (es1 @ [ETake i]) s = Some u \<and> workers u ! i = Working (jobQueue (mgr s) ! p)"
  using assms by (rule served_in_turn)

theorem pending_request_served_witness:
  "\<exists>s t. exec_trace [EProcess ''a'', EProcess ''b''] (init_sys 2) = Some s \<and>
     exec_trace [ETake 1, EProcess ''a'', EProcess ''c'', ETake 0, EFinish 0 None] s = Some t \<and>
     (\<exists>es1 i es2 u. [ETake 1, EProcess ''a'', EProcess ''c'', ETake 0, EFinish 0 None] = es1 @ ETake i # es2 \<and>
        length (filter takes_request es1) = 1 \<and>
        exec_trace (es1 @ [ETake i]) s = Some u \<and> workers u ! i = Working ''b'')"
proof -
  let ?es = "[ETake 1, EProcess ''a'', EProcess ''c'', ETake 0, EFinish 0 None]"
  obtain s where s: "exec_trace [EProcess ''a'', EProcess ''b''] (init_sys 2) = Some s"
    and q: "jobQueue (mgr s) = [''a'', ''b'']"
    by (simp add: run_eval)
  have ok: "trace_ok no_remove ?es s" and ex: "\<exists>t. exec_trace ?es s = Some t"
    using s by (auto simp: run_eval)
  obtain t where t: "exec_trace ?es s = Some t" using ex by blast
  have "1 < length (jobQueue (mgr s))" "1 < length (filter takes_request ?es)" by (simp_all add: q)
  from pending_request_served [OF ok t this] s t q show ?thesis by simp
qed

text \<open>
  C7. The manager implements the abstract life of a request: along every run without deletions and
  without requests in the requeue window, the phase and the stored result of each Cleaner are those of
  the five-phase machine run on the events that concern it.
\<close>

theorem pool_implements_phases:
  assumes "reach no_requeue_race n s" and "trace_ok no_requeue_race es s"
    and "exec_trace es s = Some t"
  shows "view_of key t = fold phase_step (key_trace key es s) (view_of key s)"
  using reach_exclusive_inv [OF assms(1)] assms(2,3) by (rule trace_refines_phases)

theorem pool_implements_phases_witness:
  "\<exists>t. exec_trace [EProcess ''a'', ETake 0, EProcess ''a'', EFinish 0 None] (init_sys 1) = Some t \<and>
     view_of ''a'' t = (Requeued, None)"
proof -
  let ?es = "[EProcess ''a'', ETake 0, EProcess ''a'', EFinish 0 None]"
  obtain t where t: "exec_trace ?es (init_sys 1) = Some t" by (simp add: run_eval)
  have ok: "trace_ok no_requeue_race ?es (init_sys 1)" by (simp add: run_eval)
  have "view_of ''a'' t = fold phase_step (key_trace ''a'' ?es (init_sys 1))
      (view_of ''a'' (init_sys 1))"
    using pool_implements_phases [OF reach.init ok t] .
  also have "\<dots> = (Requeued, None)"
    by (simp add: run_eval view_of_def phase_of_def)
  finally show ?thesis using t by blast
qed

text \<open>
  The result of a run is reported once: when a worker finishes a Cleaner no new request came for,
  the next \<open>GetResult\<close> returns the error of that run (\<open>Processed\<close> for none,
  \<open>Failed\<close> otherwise) and forgets it, so the one after reports the request unavailable.
\<close>

theorem result_reported_once:
  assumes "reach no_requeue_race n s"
    and "i < length (workers s)" "workers s ! i = Working key"
    and "key \<notin> set (dirty (mgr s))" and "exec_event (EFinish i err) s = Some t"
  shows "fst (GetResult key (mgr t)) =
      \<lparr>Status = (if err = None then Processed else Failed), Message = [], Err = err\<rparr> \<and>
    fst (GetResult key (snd (GetResult key (mgr t)))) =
      \<lparr>Status = Unavailable, Message = [], Err = None\<rparr>"
proof -
  have "view_of key t = phase_step (event_for key s (EFinish i err)) (view_of key s)"
    using assms(5) reach_exclusive_inv [OF assms(1)]
    by (intro pool_refines_phases) (simp_all add: sys_step_exec del: exec_event.simps)
  moreover have "key \<in> set (inProgress (mgr s))"
    using reach_exclusive_inv [OF assms(1)] pool_inv_inProgress assms(2,3)
    unfolding exclusive_inv_def by blast
  ultimately have "phase_of key (mgr t) = Idle" "results (mgr t) key = Some err"
    using assms(3,4) by (simp_all add: view_of_def phase_of_def [of key "mgr s"])
  then show ?thesis
    by (auto simp: phase_of_def GetResult_def getRequestStatus_def split: if_splits option.splits)
qed

theorem result_reported_once_witness:
  "\<exists>s t. exec_trace [EProcess ''a'', ETake 0] (init_sys 1) = Some s \<and>
     exec_event (EFinish 0 (Some (PlainError ''x''))) s = Some t \<and>
     Status (fst (GetResult ''a'' (mgr t))) = Failed"
proof -
  obtain s t where s: "exec_trace [EProcess ''a'', ETake 0] (init_sys 1) = Some s"
    and t: "exec_event (EFinish 0 (Some (PlainError ''x''))) s = Some t"
    and w: "length (workers s) = 1" "workers s ! 0 = Working ''a''" "''a'' \<notin> set (dirty (mgr s))"
    by (simp add: run_eval)
  have r: "reach no_requeue_race 1 s" using s by (rule reach_trace) (simp add: run_eval)
  show ?thesis using result_reported_once [OF r _ w(2,3) t] w(1) s t by auto
qed

section \<open>Deletion\<close>

text \<open>
  C40. What \<open>RemoveEntries\<close> does to the queue, exactly: nothing when the Cleaner is not in it or
  is its last entry; otherwise the entry is overwritten with a second copy of the last one.  The queue
  never becomes shorter.
\<close>

theorem removal_overwrites_with_last:
  "(key \<notin> set q \<longrightarrow> jobQueue (RemoveEntries key (m\<lparr>jobQueue := q\<rparr>)) = q \<and>
      jobQueue (RemoveEntries key (m\<lparr>jobQueue := q @ [key]\<rparr>)) = q @ [key] \<and>
      jobQueue (RemoveEntries key (m\<lparr>jobQueue := q @ key # r @ [l]\<rparr>)) = q @ l # r @ [l]) \<and>
   length (jobQueue (RemoveEntries key m)) = length (jobQueue m)"
proof -
  have idx: "first_index key (q @ key # xs) = Some (length q)" if "key \<notin> set q" for xs
    using that by (induction q) auto
  have "length (jobQueue (RemoveEntries key m)) = length (jobQueue m)"
    by (simp add: RemoveEntries_fields)
  then show ?thesis
    using idx [of "[]"] idx [of "r @ [l]"]
    by (simp add: RemoveEntries_fields overwriteKey_def removeFromSlice_def Let_def nth_append
        list_update_append)
qed

theorem removal_overwrites_with_last_witness:
  "jobQueue (RemoveEntries ''a'' (startWorkloadWorkers\<lparr>jobQueue := [''c'', ''a'', ''b'']\<rparr>)) =
     [''c'', ''b'', ''b'']"
  using removal_overwrites_with_last [of "''a''" "[''c'']" startWorkloadWorkers "[]" "''b''"] by simp

text \<open>
  Deleting a Cleaner while two workers run leaks the other one's entry in the in-progress
  collection: both finish, both workers are idle again, and the entry is still there.
\<close>

theorem deletion_leaks_in_progress:
  assumes "a \<noteq> b"
  shows "\<exists>s. exec_trace [EProcess a, EProcess b, ETake 0, ETake 1, ERemove a,
      EFinish 0 None, EFinish 1 None] (init_sys 2) = Some s \<and>
    workers s = [AtSelect, AtSelect] \<and> inProgress (mgr s) = [b] \<and> jobQueue (mgr s) = []"
  using leak_run_result [OF assms] unfolding leak_run_def by blast

theorem deletion_leaks_in_progress_witness:
  "\<exists>s. exec_trace [EProcess ''a'', EProcess ''b'', ETake 0, ETake 1, ERemove ''a'',
      EFinish 0 None, EFinish 1 None] (init_sys 2) = Some s \<and> inProgress (mgr s) = [''b'']"
proof -
  have "''a'' \<noteq> ''b''" by simp
  from deletion_leaks_in_progress [OF this] show ?thesis by blast
qed



end
