(* ===== verification/Api_Types.thy ===== *)
theory Api_Types
  imports Prelude Complex_Main "HOL-Library.Word" "HOL-Library.Log_Nat"
begin

text \<open>
  The data of the program: the values a Kubernetes object holds once decoded into Go, the objects
  themselves as the accessors of the client library show them, and the structs of
  \<open>api/v1alpha1\<close> (\<open>Cleaner\<close> with its spec and status, \<open>Report\<close>).  A Go string is a
  list of bytes.  An \<open>int64\<close> is a 64-bit word read as signed.  A pointer is an option.  A string
  type with declared constants is a datatype with one constructor per constant and one for any other
  string.
\<close>

section \<open>Numbers\<close>

type_synonym int64 = "64 word"

text \<open>An instant, in nanoseconds since the epoch; the zero \<open>time.Time\<close> is long before it.\<close>

type_synonym time = int

abbreviation second :: int where
  "second \<equiv> 1000000000"

text \<open>A \<open>float64\<close>: the value of a finite one, an infinity with its sign, or not a number.\<close>

datatype float64 = Finite rat | Infinity bool | NotANumber

text \<open>
  The conversion of an integer of at most 64 bits to \<open>float64\<close>: 53 bits of precision, rounding to
  nearest and ties to even.
\<close>

definition round_shift :: "int \<Rightarrow> nat \<Rightarrow> int" where
  "round_shift a e =
     (let q = a div 2 ^ e; r = a mod 2 ^ e
      in if 2 * r > 2 ^ e \<or> (2 * r = 2 ^ e \<and> odd q) then q + 1 else q)"

definition float64_of_int :: "int \<Rightarrow> int" where
  "float64_of_int n =
     (if \<bar>n\<bar> \<le> 2 ^ 53 then n
      else let e = nat (bitlen \<bar>n\<bar> - 53) in sgn n * (round_shift \<bar>n\<bar> e * 2 ^ e))"

definition float64_of_int64 :: "int64 \<Rightarrow> float64" where
  "float64_of_int64 w = Finite (of_int (float64_of_int (sint w)))"

section \<open>Decoded values and Kubernetes objects\<close>

text \<open>
  What an \<open>interface\<close> value of a decoded object can hold.  A map is the list of its entries in
  the order a \<open>range\<close> loop visits them.
\<close>

datatype govalue =
    GNil
  | GFloat float64
  | GInt64 int64
  | GString string
  | GBool bool
  | GBytes string
  | GMap "(string \<times> govalue) list"
  | GTime int64
  | GMapSlice "(string \<times> govalue) list list"
  | GSlice "govalue list"
  | GOther string

type_synonym gomap = "(string \<times> govalue) list"

text \<open>
  A resource: what \<open>GetAPIVersion\<close>, \<open>GetKind\<close>, \<open>GetNamespace\<close>, \<open>GetName\<close>,
  \<open>GetDeletionTimestamp\<close> and \<open>GetResourceVersion\<close> return, and the content map.
\<close>

record unstructured =
  u_apiVersion :: string
  u_kind :: string
  u_namespace :: string
  u_name :: string
  u_deletionTimestamp :: "time option"
  u_resourceVersion :: string
  u_content :: gomap

text \<open>The \<open>ResourceResult\<close> of \<open>worker.go\<close>.\<close>

record ResourceResult =
  rr_Resource :: unstructured
  rr_Message :: string

record GroupVersionKind =
  gvk_Group :: string
  gvk_Version :: string
  gvk_Kind :: string

record GroupVersionResource =
  gvr_Group :: string
  gvr_Version :: string
  gvr_Resource :: string

record ObjectReference =
  or_Kind :: string
  or_Namespace :: string
  or_Name :: string
  or_APIVersion :: string

section \<open>The Cleaner resource\<close>

datatype Action = ActionDelete | ActionTransform | ActionScan | OtherAction string

definition CleanerFinalizer :: string where
  "CleanerFinalizer = ''projectsveltos.io/cleaner-finalizer''"

record DeleteOptions =
  GracePeriodSeconds :: "int64 option"
  PropagationPolicy :: "string option"

datatype LabelOperation =
    OperationEqual
  | OperationDifferent
  | OperationHas
  | OperationDoesNotHave
  | OtherOperation string

record LabelFilter =
  lf_Key :: string
  lf_Operation :: LabelOperation
  lf_Value :: string

record ResourceSelector =
  rs_Namespace :: string
  rs_NamespaceSelector :: string
  rs_Group :: string
  rs_Version :: string
  rs_Kind :: string
  rs_LabelFilters :: "LabelFilter list"
  rs_Evaluate :: string
  rs_ExcludeDeleted :: bool

record ResourcePolicySet =
  ResourceSelectors :: "ResourceSelector list"
  AggregatedSelection :: string

datatype NotificationType =
    NotificationTypeCleanerReport
  | NotificationTypeSlack
  | NotificationTypeWebex
  | NotificationTypeDiscord
  | NotificationTypeTeams
  | NotificationTypeSMTP
  | NotificationTypeTelegram
  | NotificationTypeEvent
  | OtherNotificationType string

record Notification =
  nt_Name :: string
  nt_Type :: NotificationType
  nt_Ref :: "ObjectReference option"

record CleanerSpec =
  spec_ResourcePolicySet :: ResourcePolicySet
  spec_Action :: Action
  spec_DeleteOptions :: "DeleteOptions option"
  spec_Transform :: string
  spec_Schedule :: string
  spec_StartingDeadlineSeconds :: "int64 option"
  spec_Notifications :: "Notification list"
  spec_StoreResourcePath :: string

record CleanerStatus =
  NextScheduleTime :: "time option"
  LastRunTime :: "time option"
  FailureMessage :: "string option"

record Cleaner =
  cl_Name :: string
  cl_CreationTimestamp :: time
  cl_DeletionTimestamp :: "time option"
  cl_Finalizers :: "string list"
  cl_Spec :: CleanerSpec
  cl_Status :: CleanerStatus

text \<open>The zero value of the struct, which \<open>\<And>appsv1alpha1.Cleaner{}\<close> allocates.\<close>

definition zero_Cleaner :: "time \<Rightarrow> Cleaner" where
  "zero_Cleaner zero_time =
     \<lparr>cl_Name = [], cl_CreationTimestamp = zero_time, cl_DeletionTimestamp = None,
      cl_Finalizers = [],
      cl_Spec = \<lparr>spec_ResourcePolicySet = \<lparr>ResourceSelectors = [], AggregatedSelection = []\<rparr>,
        spec_Action = OtherAction [], spec_DeleteOptions = None, spec_Transform = [],
        spec_Schedule = [], spec_StartingDeadlineSeconds = None, spec_Notifications = [],
        spec_StoreResourcePath = []\<rparr>,
      cl_Status = \<lparr>NextScheduleTime = None, LastRunTime = None, FailureMessage = None\<rparr>\<rparr>"

section \<open>The Report resource\<close>

record ResourceInfo =
  ri_Resource :: ObjectReference
  ri_FullResource :: string
  ri_Message :: string

record ReportSpec =
  rep_ResourceInfo :: "ResourceInfo list"
  rep_Action :: Action

record Report =
  rep_Name :: string
  rep_Spec :: ReportSpec

section \<open>Precision of the conversion to float64\<close>

lemma float64_of_int_exact: "\<bar>n\<bar> \<le> 2 ^ 53 \<Longrightarrow> float64_of_int n = n"
  by (simp add: float64_of_int_def)

lemma round_shift_error:
  "\<bar>round_shift a e * 2 ^ e - a\<bar> * 2 \<le> 2 ^ e"
proof -
  define q r where "q = a div 2 ^ e" and "r = a mod 2 ^ e"
  have a: "a = q * 2 ^ e + r"
    unfolding q_def r_def by (simp only: div_mult_mod_eq)
  have r: "0 \<le> r" "r < 2 ^ e" by (simp_all add: r_def)
  have "round_shift a e = (if 2 * r > 2 ^ e \<or> (2 * r = 2 ^ e \<and> odd q) then q + 1 else q)"
    by (simp add: round_shift_def Let_def q_def r_def)
  then show ?thesis
    using r by (auto simp: a algebra_simps)
qed

text \<open>The relative error of the conversion is at most \<open>2^-53\<close>.\<close>

lemma float64_of_int_error: "\<bar>float64_of_int n - n\<bar> * 2 ^ 53 \<le> \<bar>n\<bar>"
proof (cases "\<bar>n\<bar> \<le> 2 ^ 53")
  case True
  then show ?thesis by (simp add: float64_of_int_exact)
next
  case False
  define e where "e = nat (bitlen \<bar>n\<bar> - 53)"
  have pos: "0 < \<bar>n\<bar>" using False by (cases "n = 0") auto
  then have lo: "2 ^ nat (bitlen \<bar>n\<bar> - 1) \<le> \<bar>n\<bar>" using bitlen_bounds by blast
  have "2 ^ 53 \<le> \<bar>n\<bar>" using False by linarith
  then have "54 \<le> bitlen \<bar>n\<bar>" using bitlen_ge_iff_power [of 54 "\<bar>n\<bar>"] by simp
  then have "nat (bitlen \<bar>n\<bar> - 1) = e + 52" by (simp add: e_def)
  with lo have e: "2 ^ e * 2 ^ 52 \<le> \<bar>n\<bar>" by (simp add: power_add)
  have "float64_of_int n = sgn n * (round_shift \<bar>n\<bar> e * 2 ^ e)"
    using False by (simp add: float64_of_int_def e_def Let_def)
  then have "\<bar>float64_of_int n - n\<bar> = \<bar>round_shift \<bar>n\<bar> e * 2 ^ e - \<bar>n\<bar>\<bar>"
    using pos by (cases "0 < n") (auto simp: sgn_if)
  then have "\<bar>float64_of_int n - n\<bar> * 2 \<le> 2 ^ e" using round_shift_error by simp
  with e show ?thesis by simp
qed

end
