(* ===== verification/Json.thy ===== *)
theory Json
  imports Api_Types "HOL-Library.List_Lexorder" "HOL-Library.Char_ord" "HOL-Library.AList"
begin

text \<open>
  What the program uses of \<open>encoding/json\<close>: the value \<open>toGoValue\<close> builds is marshalled to
  JSON text and unmarshalled into a struct.  A JSON text is represented by its tree; object keys come
  sorted, as \<open>Marshal\<close> writes them.  Strings are taken to be valid UTF-8, which the encoder
  leaves unchanged.
\<close>

section \<open>Marshal\<close>

datatype jvalue =
    JNull
  | JBool bool
  | JNumber rat
  | JString string
  | JArray "jvalue list"
  | JObject "(string \<times> jvalue) list"

text \<open>The \<open>interface\<close> values \<open>toGoValue\<close> returns.\<close>

datatype goresult =
    RNil
  | RBool bool
  | RString string
  | RFloat float64
  | RMap "(string \<times> goresult) list"
  | RSlice "goresult list"
  | ROther string

text \<open>
  The encoder fails on a float that is not finite.  What it does with a value of another library's
  type is a parameter.
\<close>

fun marshal :: "(string \<Rightarrow> jvalue outcome) \<Rightarrow> goresult \<Rightarrow> jvalue outcome" where
  "marshal other RNil = Ok JNull"
| "marshal other (RBool b) = Ok (JBool b)"
| "marshal other (RString s) = Ok (JString s)"
| "marshal other (RFloat x) =
     (case x of Finite r \<Rightarrow> Ok (JNumber r)
      | _ \<Rightarrow> Fail (PlainError ''json: unsupported value''))"
| "marshal other (RMap m) =
     bind_outcome
       (traverse (\<lambda>(k, v). bind_outcome (marshal other v) (\<lambda>j. Ok (k, j))) (sort_key fst m))
       (\<lambda>kvs. Ok (JObject kvs))"
| "marshal other (RSlice vs) =
     bind_outcome (traverse (marshal other) vs) (\<lambda>js. Ok (JArray js))"
| "marshal other (ROther s) = other s"

section \<open>Unmarshal\<close>

text \<open>
  A key of an object selects the struct field whose name is equal to it up to case; the folding also
  equates the long s and the Kelvin sign with their ASCII letters.
\<close>

definition ascii_upper :: "char \<Rightarrow> char" where
  "ascii_upper c =
     (let n = (of_char c :: nat) in if 97 \<le> n \<and> n \<le> 122 then char_of (n - 32) else c)"

fun fold_name :: "string \<Rightarrow> string" where
  "fold_name [] = []"
| "fold_name (c # cs) =
     (if c = CHR 0xC5 \<and> take 1 cs = [CHR 0xBF] then CHR ''S'' # fold_name (drop 1 cs)
      else if c = CHR 0xE2 \<and> take 2 cs = [CHR 0x84, CHR 0xAA]
           then CHR ''K'' # fold_name (drop 2 cs)
      else ascii_upper c # fold_name cs)"

definition type_error :: go_error where
  "type_error = PlainError ''json: cannot unmarshal value into Go struct field''"

text \<open>
  A value of the wrong type leaves the field as it was and is reported at the end, the first one if
  there are several; an error of a custom decoder ends the decoding.
\<close>

fun decode_fields ::
  "(string \<Rightarrow> jvalue \<Rightarrow> 's \<Rightarrow> ('s \<times> go_err) outcome) \<Rightarrow> (string \<times> jvalue) list \<Rightarrow>
   's \<times> go_err \<Rightarrow> ('s \<times> go_err) outcome" where
  "decode_fields f [] acc = Ok acc"
| "decode_fields f ((k, v) # kvs) (s, e) =
     bind_outcome (f (fold_name k) v s)
       (\<lambda>(s', e'). decode_fields f kvs (s', case e of None \<Rightarrow> e' | Some _ \<Rightarrow> e))"

fun decode_struct ::
  "(string \<Rightarrow> jvalue \<Rightarrow> 's \<Rightarrow> ('s \<times> go_err) outcome) \<Rightarrow> 's \<Rightarrow> jvalue \<Rightarrow>
   ('s \<times> go_err) outcome" where
  "decode_struct f s (JObject kvs) = decode_fields f kvs (s, None)"
| "decode_struct f s JNull = Ok (s, None)"
| "decode_struct f s _ = Ok (s, Some type_error)"

fun decode_bool :: "jvalue \<Rightarrow> bool \<Rightarrow> bool \<times> go_err" where
  "decode_bool (JBool b) old = (b, None)"
| "decode_bool JNull old = (old, None)"
| "decode_bool _ old = (old, Some type_error)"

fun decode_string :: "jvalue \<Rightarrow> string \<Rightarrow> string \<times> go_err" where
  "decode_string (JString s) old = (s, None)"
| "decode_string JNull old = (old, None)"
| "decode_string _ old = (old, Some type_error)"

definition finish_decode :: "('s \<times> go_err) outcome \<Rightarrow> 's outcome" where
  "finish_decode r =
     bind_outcome r (\<lambda>(s, e). case e of None \<Rightarrow> Ok s | Some err \<Rightarrow> Fail err)"

section \<open>The structs the executor decodes\<close>

record evaluateStatus =
  es_Matching :: bool
  es_Message :: string

record transformStatus =
  ts_Resource :: "unstructured option"
  ts_Message :: string

record aggregatedStatus =
  ag_Resources :: "transformStatus list"

fun evaluate_field ::
  "string \<Rightarrow> jvalue \<Rightarrow> evaluateStatus \<Rightarrow> (evaluateStatus \<times> go_err) outcome" where
  "evaluate_field k v s =
     (if k = ''MATCHING''
      then (let (b, e) = decode_bool v (es_Matching s) in Ok (s\<lparr>es_Matching := b\<rparr>, e))
      else if k = ''MESSAGE''
      then (let (m, e) = decode_string v (es_Message s) in Ok (s\<lparr>es_Message := m\<rparr>, e))
      else Ok (s, None))"

definition unmarshal_evaluate :: "jvalue \<Rightarrow> evaluateStatus outcome" where
  "unmarshal_evaluate j =
     finish_decode (decode_struct evaluate_field \<lparr>es_Matching = False, es_Message = []\<rparr> j)"

text \<open>
  A resource field is a pointer to \<open>unstructured.Unstructured\<close>, whose own decoder is a
  parameter; null makes it nil.
\<close>

fun resource_field ::
  "(jvalue \<Rightarrow> unstructured outcome) \<Rightarrow> string \<Rightarrow> jvalue \<Rightarrow> transformStatus \<Rightarrow>
   (transformStatus \<times> go_err) outcome" where
  "resource_field dec k v s =
     (if k = ''RESOURCE''
      then (if v = JNull then Ok (s\<lparr>ts_Resource := None\<rparr>, None)
            else bind_outcome (dec v) (\<lambda>u. Ok (s\<lparr>ts_Resource := Some u\<rparr>, None)))
      else if k = ''MESSAGE''
      then (let (m, e) = decode_string v (ts_Message s) in Ok (s\<lparr>ts_Message := m\<rparr>, e))
      else Ok (s, None))"

abbreviation zero_transformStatus :: transformStatus where
  "zero_transformStatus \<equiv> \<lparr>ts_Resource = None, ts_Message = []\<rparr>"

definition unmarshal_transform ::
  "(jvalue \<Rightarrow> unstructured outcome) \<Rightarrow> jvalue \<Rightarrow> transformStatus outcome" where
  "unmarshal_transform dec j =
     finish_decode (decode_struct (resource_field dec) zero_transformStatus j)"

text \<open>
  The \<open>resources\<close> field of \<open>aggregatedStatus\<close>: a list of structs, each decoded from its
  zero value.  An object where the list is expected is a type error.
\<close>

fun first_error :: "go_err list \<Rightarrow> go_err" where
  "first_error [] = None"
| "first_error (e # es) = (case e of None \<Rightarrow> first_error es | Some _ \<Rightarrow> e)"

fun decode_resources ::
  "(jvalue \<Rightarrow> unstructured outcome) \<Rightarrow> jvalue \<Rightarrow> transformStatus list \<Rightarrow>
   (transformStatus list \<times> go_err) outcome" where
  "decode_resources dec (JArray js) old =
     bind_outcome (traverse (decode_struct (resource_field dec) zero_transformStatus) js)
       (\<lambda>rs. Ok (map fst rs, first_error (map snd rs)))"
| "decode_resources dec JNull old = Ok ([], None)"
| "decode_resources dec _ old = Ok (old, Some type_error)"

fun resources_field ::
  "(jvalue \<Rightarrow> unstructured outcome) \<Rightarrow> string \<Rightarrow> jvalue \<Rightarrow> aggregatedStatus \<Rightarrow>
   (aggregatedStatus \<times> go_err) outcome" where
  "resources_field dec k v s =
     (if k = ''RESOURCES''
      then bind_outcome (decode_resources dec v (ag_Resources s))
             (\<lambda>(rs, e). Ok (s\<lparr>ag_Resources := rs\<rparr>, e))
      else Ok (s, None))"

definition unmarshal_aggregated ::
  "(jvalue \<Rightarrow> unstructured outcome) \<Rightarrow> jvalue \<Rightarrow> aggregatedStatus outcome" where
  "unmarshal_aggregated dec j =
     finish_decode (decode_struct (resources_field dec) \<lparr>ag_Resources = []\<rparr> j)"

section \<open>Sorting by key\<close>

text \<open>The order of the entries before sorting does not matter when the keys are distinct.\<close>

lemma sort_key_fst_unique:
  fixes xs ys :: "(string \<times> 'a) list"
  assumes "mset xs = mset ys" and "distinct (map fst xs)"
  shows "sort_key fst xs = sort_key fst ys"
proof (rule map_sorted_distinct_set_unique [where f = fst])
  have d: "distinct (map fst ys)"
    using assms by (metis mset_map mset_eq_imp_distinct_iff)
  have s: "set xs = set ys" using assms(1) by (rule mset_eq_setD)
  show "inj_on fst (set (sort_key fst xs) \<union> set (sort_key fst ys))"
    using assms(2) s by (simp add: distinct_map)
  show "sorted (map fst (sort_key fst xs))" "sorted (map fst (sort_key fst ys))" by simp_all
  show "distinct (map fst (sort_key fst xs))" "distinct (map fst (sort_key fst ys))"
    using assms(2) d by (simp_all add: distinct_map)
  show "set (sort_key fst xs) = set (sort_key fst ys)" using s by simp
qed

lemma sort_key_map_snd:
  "sort_key fst (map (\<lambda>(k, v). (k, f v)) xs) = map (\<lambda>(k, v). (k, f v)) (sort_key fst xs)"
  for xs :: "(string \<times> 'a) list"
proof -
  have ins: "insort_key fst (k, f v) (map (\<lambda>(k, v). (k, f v)) zs) =
      map (\<lambda>(k, v). (k, f v)) (insort_key fst (k, v) zs)" for k v and zs :: "(string \<times> 'a) list"
    by (induction zs) auto
  show ?thesis
    by (induction xs) (auto simp: ins)
qed

end
