(* ===== verification/Lua_Convert.thy ===== *)
theory Lua_Convert
  imports Json
begin

text \<open>
  The conversions between Go values and Lua values of \<open>worker.go\<close>: \<open>mapToTable\<close> builds
  the table a script sees, \<open>toGoValue\<close> reads back what the script returned.  The tables are those
  of the gopher-lua library: the operations the code calls on them are a record of functions, and
  \<open>lua_table_laws\<close> states what the library documents about the two kinds of tables
  \<open>mapToTable\<close> builds, those filled only with string keys and those filled only by appending.
\<close>

section \<open>Lua values and the table operations\<close>

datatype 't lvalue =
    LNil
  | LBool bool
  | LNumber float64
  | LString string
  | LTable 't
  | LOther string

record 't lua_tables =
  lt_new :: 't
  lt_set_string :: "'t \<Rightarrow> string \<Rightarrow> 't lvalue \<Rightarrow> 't"
  lt_append :: "'t \<Rightarrow> 't lvalue \<Rightarrow> 't"
  lt_maxn :: "'t \<Rightarrow> nat"
  lt_foreach :: "'t \<Rightarrow> ('t lvalue \<times> 't lvalue) list"
  lt_get_int :: "'t \<Rightarrow> nat \<Rightarrow> 't lvalue"
  fmt_sprint :: "goresult \<Rightarrow> string"

section \<open>From Go to Lua\<close>

text \<open>
  The loop of \<open>mapToTable\<close> over the entries of the map, its switch on the type of an element,
  and the two loops that fill a slice table.  An element of a type the switch does not list is left
  out; the inner switch, for the elements of a slice of \<open>interface\<close>, lists four types only.
\<close>

fun mapToTable_loop :: "'t lua_tables \<Rightarrow> 't \<Rightarrow> gomap \<Rightarrow> 't"
  and element_value :: "'t lua_tables \<Rightarrow> govalue \<Rightarrow> 't lvalue option"
  and append_tables :: "'t lua_tables \<Rightarrow> 't \<Rightarrow> gomap list \<Rightarrow> 't"
  and append_elements :: "'t lua_tables \<Rightarrow> 't \<Rightarrow> govalue list \<Rightarrow> 't" where
  "mapToTable_loop ops t [] = t"
| "mapToTable_loop ops t ((key, element) # m) =
     mapToTable_loop ops
       (case element_value ops element of
          None \<Rightarrow> t
        | Some v \<Rightarrow> lt_set_string ops t key v) m"
| "element_value ops (GFloat x) = Some (LNumber x)"
| "element_value ops (GInt64 n) = Some (LNumber (float64_of_int64 n))"
| "element_value ops (GString s) = Some (LString s)"
| "element_value ops (GBool b) = Some (LBool b)"
| "element_value ops (GBytes s) = Some (LString s)"
| "element_value ops (GMap m) = Some (LTable (mapToTable_loop ops (lt_new ops) m))"
| "element_value ops (GTime unix) = Some (LNumber (float64_of_int64 unix))"
| "element_value ops (GMapSlice ms) = Some (LTable (append_tables ops (lt_new ops) ms))"
| "element_value ops (GSlice vs) = Some (LTable (append_elements ops (lt_new ops) vs))"
| "element_value ops GNil = None"
| "element_value ops (GOther _) = None"
| "append_tables ops t [] = t"
| "append_tables ops t (s # ms) =
     append_tables ops (lt_append ops t (LTable (mapToTable_loop ops (lt_new ops) s))) ms"
| "append_elements ops t [] = t"
| "append_elements ops t (s # vs) =
     append_elements ops
       (case s of
          GMap m \<Rightarrow> lt_append ops t (LTable (mapToTable_loop ops (lt_new ops) m))
        | GFloat x \<Rightarrow> lt_append ops t (LNumber x)
        | GString x \<Rightarrow> lt_append ops t (LString x)
        | GBool b \<Rightarrow> lt_append ops t (LBool b)
        | _ \<Rightarrow> t) vs"

definition mapToTable :: "'t lua_tables \<Rightarrow> gomap \<Rightarrow> 't" where
  "mapToTable ops m = mapToTable_loop ops (lt_new ops) m"

section \<open>From Lua to Go\<close>

text \<open>
  \<open>fmt.Sprint\<close> of a key: a string is itself, the format of the other values is a parameter.
\<close>

definition sprint :: "'t lua_tables \<Rightarrow> goresult \<Rightarrow> string" where
  "sprint ops r = (case r of RString s \<Rightarrow> s | _ \<Rightarrow> fmt_sprint ops r)"

fun foreach_entries ::
  "(goresult \<Rightarrow> string) \<Rightarrow> ('l \<Rightarrow> goresult outcome) \<Rightarrow> ('l \<times> 'l) list \<Rightarrow>
   (string \<times> goresult) list \<Rightarrow> (string \<times> goresult) list outcome" where
  "foreach_entries pr f [] ret = Ok ret"
| "foreach_entries pr f ((key, v) # kvs) ret =
     bind_outcome (f key) (\<lambda>k. bind_outcome (f v) (\<lambda>g.
       foreach_entries pr f kvs (AList.update (pr k) g ret)))"

text \<open>
  The recursion follows the tables, which a script may make cyclic.  The first argument is the depth
  the goroutine's stack allows; a recursion that needs more overflows the stack and ends the process.
\<close>

fun toGoValue :: "nat \<Rightarrow> 't lua_tables \<Rightarrow> 't lvalue \<Rightarrow> goresult outcome" where
  "toGoValue 0 ops v = Panic"
| "toGoValue (Suc n) ops v =
     (case v of
        LNil \<Rightarrow> Ok RNil
      | LBool b \<Rightarrow> Ok (RBool b)
      | LString s \<Rightarrow> Ok (RString s)
      | LNumber x \<Rightarrow> Ok (RFloat x)
      | LTable t \<Rightarrow>
          (let maxn = lt_maxn ops t
           in if maxn = 0
              then bind_outcome
                     (foreach_entries (sprint ops) (toGoValue n ops) (lt_foreach ops t) [])
                     (\<lambda>ret. Ok (RMap ret))
              else bind_outcome
                     (traverse (\<lambda>i. toGoValue n ops (lt_get_int ops t i)) [1..<maxn + 1])
                     (\<lambda>ret. Ok (RSlice ret)))
      | LOther s \<Rightarrow> Ok (ROther s))"

section \<open>What the library documents about the tables built here\<close>

definition string_table :: "'t lua_tables \<Rightarrow> (string \<times> 't lvalue) list \<Rightarrow> 't" where
  "string_table ops kvs = foldl (\<lambda>t (k, v). lt_set_string ops t k v) (lt_new ops) kvs"

definition list_table :: "'t lua_tables \<Rightarrow> 't lvalue list \<Rightarrow> 't" where
  "list_table ops vs = foldl (lt_append ops) (lt_new ops) vs"

text \<open>
  A table with string keys only has no array part, and \<open>ForEach\<close> visits each entry once, in some
  order.  A table filled by appending values other than nil has them at 1, 2 and so on.
\<close>

definition lua_table_laws :: "'t lua_tables \<Rightarrow> bool" where
  "lua_table_laws ops \<longleftrightarrow>
     (\<forall>kvs. distinct (map fst kvs) \<and> LNil \<notin> set (map snd kvs) \<longrightarrow>
        lt_maxn ops (string_table ops kvs) = 0 \<and>
        mset (lt_foreach ops (string_table ops kvs)) = mset (map (\<lambda>(k, v). (LString k, v)) kvs)) \<and>
     (\<forall>vs. LNil \<notin> set vs \<longrightarrow>
        lt_maxn ops (list_table ops vs) = length vs \<and>
        (\<forall>i < length vs. lt_get_int ops (list_table ops vs) (Suc i) = vs ! i))"

section \<open>What a script that returns its argument gives back\<close>

text \<open>
  The JSON tree of a value after \<open>mapToTable\<close>, \<open>toGoValue\<close> and \<open>Marshal\<close>: an element
  whose type \<open>mapToTable\<close> does not list is absent, an integer is rounded to a float, and a slice
  of which no element is left becomes an object.
\<close>

fun array_json :: "jvalue list \<Rightarrow> jvalue" where
  "array_json [] = JObject []"
| "array_json (j # js) = JArray (j # js)"

fun number_json :: "float64 \<Rightarrow> jvalue" where
  "number_json (Finite r) = JNumber r"
| "number_json _ = JNull"

fun slice_kind :: "govalue \<Rightarrow> bool" where
  "slice_kind (GMap m) = True"
| "slice_kind (GFloat x) = True"
| "slice_kind (GString s) = True"
| "slice_kind (GBool b) = True"
| "slice_kind _ = False"

definition object_json :: "(string \<times> jvalue option) list \<Rightarrow> jvalue" where
  "object_json kvs =
     JObject (sort_key fst (keep_some (\<lambda>(k, v). map_option (Pair k) v) kvs))"

fun through_lua :: "govalue \<Rightarrow> jvalue option" where
  "through_lua (GFloat x) = Some (number_json x)"
| "through_lua (GInt64 n) = Some (number_json (float64_of_int64 n))"
| "through_lua (GString s) = Some (JString s)"
| "through_lua (GBool b) = Some (JBool b)"
| "through_lua (GBytes s) = Some (JString s)"
| "through_lua (GMap m) = Some (object_json (map (\<lambda>(k, v). (k, through_lua v)) m))"
| "through_lua (GTime unix) = Some (number_json (float64_of_int64 unix))"
| "through_lua (GMapSlice ms) =
     Some (array_json (map (\<lambda>m. object_json (map (\<lambda>(k, v). (k, through_lua v)) m)) ms))"
| "through_lua (GSlice vs) =
     Some (array_json (keep_some (\<lambda>v. if slice_kind v then through_lua v else None) vs))"
| "through_lua GNil = None"
| "through_lua (GOther _) = None"

section \<open>The loops as folds\<close>

fun slice_value :: "'t lua_tables \<Rightarrow> govalue \<Rightarrow> 't lvalue option" where
  "slice_value ops v = (if slice_kind v then element_value ops v else None)"

lemma mapToTable_loop_fold:
  "mapToTable_loop ops t m =
   foldl (\<lambda>t (k, v). lt_set_string ops t k v) t
     (keep_some (\<lambda>(k, e). map_option (Pair k) (element_value ops e)) m)"
  by (induction m arbitrary: t) (auto split: option.splits)

lemma mapToTable_loop_table:
  "mapToTable_loop ops (lt_new ops) m =
   string_table ops (keep_some (\<lambda>(k, e). map_option (Pair k) (element_value ops e)) m)"
  by (simp add: mapToTable_loop_fold string_table_def)

lemma append_tables_table:
  "append_tables ops (lt_new ops) ms =
   list_table ops (map (\<lambda>m. LTable (mapToTable_loop ops (lt_new ops) m)) ms)"
proof -
  have "append_tables ops t ms =
      foldl (lt_append ops) t (map (\<lambda>m. LTable (mapToTable_loop ops (lt_new ops) m)) ms)" for t
    by (induction ms arbitrary: t) auto
  then show ?thesis by (simp add: list_table_def)
qed

lemma append_elements_table:
  "append_elements ops (lt_new ops) vs = list_table ops (keep_some (slice_value ops) vs)"
proof -
  have "append_elements ops t vs = foldl (lt_append ops) t (keep_some (slice_value ops) vs)" for t
  proof (induction vs arbitrary: t)
    case (Cons v vs)
    then show ?case by (cases v) auto
  qed simp
  then show ?thesis by (simp add: list_table_def)
qed

lemma element_value_not_nil: "element_value ops e \<noteq> Some LNil"
  by (cases e) auto

section \<open>Well-formed values\<close>

text \<open>
  The keys of a Go map are distinct, at every level; a finite value has no infinite number in it; the
  depth bounds the recursion of \<open>toGoValue\<close> on the table built from it.
\<close>

fun wf_govalue :: "govalue \<Rightarrow> bool" where
  "wf_govalue (GMap m) = (distinct (map fst m) \<and> (\<forall>kv \<in> set m. wf_govalue (snd kv)))"
| "wf_govalue (GMapSlice ms) =
     (\<forall>m \<in> set ms. distinct (map fst m) \<and> (\<forall>kv \<in> set m. wf_govalue (snd kv)))"
| "wf_govalue (GSlice vs) = (\<forall>v \<in> set vs. wf_govalue v)"
| "wf_govalue (GFloat x) = (\<exists>r. x = Finite r)"
| "wf_govalue _ = True"

fun depth :: "govalue \<Rightarrow> nat" where
  "depth (GMap m) = Suc (Max (insert 1 (set (map (\<lambda>kv. depth (snd kv)) m))))"
| "depth (GMapSlice ms) =
     Suc (Suc (Max (insert 1 (set (map (\<lambda>m. Max (insert 1 (set (map (\<lambda>kv. depth (snd kv)) m)))) ms)))))"
| "depth (GSlice vs) = Suc (Max (insert 1 (set (map depth vs))))"
| "depth _ = 1"

end
