(* ===== verification/Lua_Roundtrip.thy ===== *)
theory Lua_Roundtrip
  imports Lua_Convert
begin

text \<open>
  What comes back from Lua: \<open>toGoValue\<close> on a table built by \<open>mapToTable\<close> returns a value
  whose JSON is \<open>through_lua\<close> of the original, for every table implementation that satisfies
  \<open>lua_table_laws\<close>, whenever the recursion depth allowed is at least the depth of the value.
\<close>

section \<open>From a table to its JSON\<close>

definition json_of ::
  "'t lua_tables \<Rightarrow> (string \<Rightarrow> jvalue outcome) \<Rightarrow> nat \<Rightarrow> 't lvalue \<Rightarrow> jvalue outcome" where
  "json_of ops other n lv = bind_outcome (toGoValue n ops lv) (marshal other)"

lemma mset_eq_map_ex:
  "mset ys = mset (map h xs) \<Longrightarrow> \<exists>zs. mset zs = mset xs \<and> ys = map h zs"
proof (induction ys arbitrary: xs)
  case Nil
  then show ?case by simp
next
  case (Cons y ys)
  then have "y \<in> h ` set xs" by (metis list.set_intros(1) mset_eq_setD set_map)
  then obtain x where x: "x \<in> set xs" "y = h x" by blast
  then have e: "mset xs = add_mset x (mset (remove1 x xs))" by simp
  have "mset (map h xs) = add_mset y (mset (map h (remove1 x xs)))"
    unfolding mset_map x(2) e image_mset_add_mset ..
  with Cons.prems have "mset ys = mset (map h (remove1 x xs))" by simp
  then obtain zs where "mset zs = mset (remove1 x xs)" "ys = map h zs" using Cons.IH by blast
  then show ?case using x(2) e by (intro exI [of _ "x # zs"]) (simp only: mset.simps list.map)
qed

lemma sprint_RString [simp]: "sprint ops (RString s) = s"
  by (simp add: sprint_def)

lemma update_fresh: "k \<notin> set (map fst m) \<Longrightarrow> AList.update k v m = m @ [(k, v)]"
  by (induction m) auto

lemma foreach_entries_strings:
  assumes "\<And>k v. (k, v) \<in> set kvs \<Longrightarrow> f (LString k) = Ok (RString k) \<and> f v = Ok (g v)"
    and "distinct (map fst ret @ map fst kvs)"
  shows "foreach_entries (sprint ops) f (map (\<lambda>(k, v). (LString k, v)) kvs) ret =
    Ok (ret @ map (\<lambda>(k, v). (k, g v)) kvs)"
  using assms
proof (induction kvs arbitrary: ret)
  case Nil
  then show ?case by simp
next
  case (Cons kv kvs)
  obtain k v where kv: "kv = (k, v)" by (cases kv)
  have "f (LString k) = Ok (RString k)" "f v = Ok (g v)"
    using Cons.prems(1) [of k v] by (auto simp: kv)
  moreover have "AList.update k (g v) ret = ret @ [(k, g v)]"
    using Cons.prems(2) by (simp add: kv update_fresh)
  moreover have "foreach_entries (sprint ops) f (map (\<lambda>(k, v). (LString k, v)) kvs)
      (ret @ [(k, g v)]) = Ok ((ret @ [(k, g v)]) @ map (\<lambda>(k, v). (k, g v)) kvs)"
    using Cons.prems by (intro Cons.IH) (auto simp: kv)
  ultimately show ?case by (simp add: kv)
qed

lemma traverse_map_Ok:
  "(\<And>x. x \<in> set xs \<Longrightarrow> f x = Ok (g x)) \<Longrightarrow> traverse f xs = Ok (map g xs)"
  by (induction xs) auto

lemma string_table_json:
  assumes laws: "lua_table_laws ops" and d: "distinct (map fst kvs)"
    and nn: "LNil \<notin> set (map snd kvs)" and n: "0 < n"
    and js: "\<And>k v. (k, v) \<in> set kvs \<Longrightarrow> json_of ops other n v = Ok (g v)"
  shows "json_of ops other (Suc n) (LTable (string_table ops kvs)) =
    Ok (JObject (sort_key fst (map (\<lambda>(k, v). (k, g v)) kvs)))"
proof -
  let ?t = "string_table ops kvs"
  have maxn: "lt_maxn ops ?t = 0"
    and fe: "mset (lt_foreach ops ?t) = mset (map (\<lambda>(k, v). (LString k, v)) kvs)"
    using laws d nn unfolding lua_table_laws_def by blast+
  obtain zs where zs: "mset zs = mset kvs"
    and fz: "lt_foreach ops ?t = map (\<lambda>(k, v). (LString k, v)) zs"
    using mset_eq_map_ex [OF fe] by blast
  have dz: "distinct (map fst zs)" using d zs by (metis mset_map mset_eq_imp_distinct_iff)
  have sz: "set zs = set kvs" using zs by (rule mset_eq_setD)
  define r where "r v = (case toGoValue n ops v of Ok x \<Rightarrow> x | _ \<Rightarrow> RNil)" for v
  have rv: "toGoValue n ops v = Ok (r v)" "marshal other (r v) = Ok (g v)"
    if "(k, v) \<in> set kvs" for k v
    using js [OF that] by (auto simp: json_of_def r_def)
  have "toGoValue n ops (LString k) = Ok (RString k)" for k using n by (cases n) auto
  then have "foreach_entries (sprint ops) (toGoValue n ops) (lt_foreach ops ?t) [] =
      Ok (map (\<lambda>(k, v). (k, r v)) zs)"
    using foreach_entries_strings [of zs "toGoValue n ops" r "[]" ops] rv dz sz
    by (simp add: fz)
  then have "toGoValue (Suc n) ops (LTable ?t) = Ok (RMap (map (\<lambda>(k, v). (k, r v)) zs))"
    by (simp add: maxn Let_def)
  moreover have "traverse (\<lambda>(k, v). bind_outcome (marshal other v) (\<lambda>j. Ok (k, j)))
      (sort_key fst (map (\<lambda>(k, v). (k, r v)) zs)) =
      Ok (map (\<lambda>(k, v). (k, the_ok (marshal other v))) (sort_key fst (map (\<lambda>(k, v). (k, r v)) zs)))"
    using rv sz by (intro traverse_map_Ok) auto
  moreover have "map (\<lambda>(k, v). (k, the_ok (marshal other v)))
      (sort_key fst (map (\<lambda>(k, v). (k, r v)) zs)) =
      sort_key fst (map (\<lambda>(k, v). (k, g v)) zs)"
    using rv sz by (auto simp: sort_key_map_snd intro!: map_cong)
  moreover have "sort_key fst (map (\<lambda>(k, v). (k, g v)) zs) =
      sort_key fst (map (\<lambda>(k, v). (k, g v)) kvs)"
  proof (rule sort_key_fst_unique)
    show "mset (map (\<lambda>(k, v). (k, g v)) zs) = mset (map (\<lambda>(k, v). (k, g v)) kvs)"
      using zs by simp
    show "distinct (map fst (map (\<lambda>(k, v). (k, g v)) zs))"
      using dz by (simp add: comp_def case_prod_unfold)
  qed
  ultimately show ?thesis by (simp add: json_of_def)
qed

lemma list_table_json:
  assumes laws: "lua_table_laws ops" and nn: "LNil \<notin> set vs" and n: "0 < n"
    and js: "\<And>v. v \<in> set vs \<Longrightarrow> json_of ops other n v = Ok (g v)"
  shows "json_of ops other (Suc n) (LTable (list_table ops vs)) = Ok (array_json (map g vs))"
proof (cases "vs = []")
  case True
  then show ?thesis
    using string_table_json [OF laws _ _ n, of "[]" other g]
    by (simp add: list_table_def string_table_def)
next
  case False
  let ?t = "list_table ops vs"
  have maxn: "lt_maxn ops ?t = length vs"
    and get: "\<And>i. i < length vs \<Longrightarrow> lt_get_int ops ?t (Suc i) = vs ! i"
    using laws nn unfolding lua_table_laws_def by blast+
  define r where "r v = (case toGoValue n ops v of Ok x \<Rightarrow> x | _ \<Rightarrow> RNil)" for v
  have rv: "toGoValue n ops v = Ok (r v)" "marshal other (r v) = Ok (g v)" if "v \<in> set vs" for v
    using js [OF that] by (auto simp: json_of_def r_def)
  have idx: "map (lt_get_int ops ?t) [1..<length vs + 1] = vs"
    by (rule nth_equalityI) (auto simp: get simp del: upt_Suc)
  have "traverse (\<lambda>i. toGoValue n ops (lt_get_int ops ?t i)) [1..<length vs + 1] =
      Ok (map (\<lambda>i. r (lt_get_int ops ?t i)) [1..<length vs + 1])"
  proof (rule traverse_map_Ok)
    fix i assume "i \<in> set [1..<length vs + 1]"
    then have "lt_get_int ops ?t i \<in> set vs"
      using idx by (metis image_eqI set_map)
    then show "toGoValue n ops (lt_get_int ops ?t i) = Ok (r (lt_get_int ops ?t i))" by (rule rv)
  qed
  also have "map (\<lambda>i. r (lt_get_int ops ?t i)) [1..<length vs + 1] = map r vs"
    using arg_cong [OF idx, of "map r"] by (simp add: comp_def)
  finally have "toGoValue (Suc n) ops (LTable ?t) = Ok (RSlice (map r vs))"
    using False by (simp add: maxn Let_def)
  moreover have "traverse (marshal other) (map r vs) = Ok (map g vs)"
    using rv traverse_map_Ok [of vs "marshal other \<circ> r" g]
    by (simp add: traverse_Ok_iff list_all2_map1 comp_def)
  moreover have "array_json (map g vs) = JArray (map g vs)"
    using False by (cases vs) auto
  ultimately show ?thesis by (simp add: json_of_def)
qed

section \<open>The value that comes back\<close>

lemma depth_pos [simp]: "0 < depth v"
  by (cases v) auto

lemma Max_insert_ge:
  "Max (insert 1 (set (map f xs))) \<le> (n::nat) \<Longrightarrow> 0 < n \<and> (\<forall>x \<in> set xs. f x \<le> n)"
  by simp

text \<open>The invariant of the induction: an element is absent from both, or is carried over.\<close>

definition carried ::
  "'t lua_tables \<Rightarrow> (string \<Rightarrow> jvalue outcome) \<Rightarrow> nat \<Rightarrow> govalue \<Rightarrow> bool" where
  "carried ops other n e \<longleftrightarrow>
     (case element_value ops e of
        None \<Rightarrow> through_lua e = None
      | Some lv \<Rightarrow> \<exists>j. through_lua e = Some j \<and> json_of ops other n lv = Ok j)"

lemma map_carried:
  assumes laws: "lua_table_laws ops" and n: "0 < n" and d: "distinct (map fst m)"
    and c: "\<And>kv. kv \<in> set m \<Longrightarrow> carried ops other n (snd kv)"
  shows "json_of ops other (Suc n) (LTable (mapToTable_loop ops (lt_new ops) m)) =
    Ok (object_json (map (\<lambda>(k, v). (k, through_lua v)) m))"
proof -
  define kvs where "kvs = keep_some (\<lambda>(k, e). map_option (Pair k) (element_value ops e)) m"
  define g where "g lv = the_ok (json_of ops other n lv)" for lv
  have "map fst kvs = map fst (filter (\<lambda>(k, e). element_value ops e \<noteq> None) m)"
    unfolding kvs_def by (induction m) (auto split: option.split)
  then have "distinct (map fst kvs)" using d by (simp add: distinct_map_filter)
  moreover have "LNil \<notin> set (map snd kvs)"
    using element_value_not_nil by (force simp: kvs_def in_keep_some)
  moreover have "json_of ops other n v = Ok (g v)" if "(k, v) \<in> set kvs" for k v
    using that c by (fastforce simp: kvs_def in_keep_some carried_def g_def)
  ultimately have "json_of ops other (Suc n) (LTable (string_table ops kvs)) =
      Ok (JObject (sort_key fst (map (\<lambda>(k, v). (k, g v)) kvs)))"
    using laws n by (intro string_table_json) auto
  moreover have "map (\<lambda>(k, v). (k, g v)) kvs =
      keep_some (\<lambda>(k, v). map_option (Pair k) v) (map (\<lambda>(k, v). (k, through_lua v)) m)"
    unfolding kvs_def using c
  proof (induction m)
    case (Cons kv m)
    obtain k e where kv: "kv = (k, e)" by (cases kv)
    have "carried ops other n e" using Cons.prems [of kv] by (simp add: kv)
    then show ?case
      using Cons by (auto simp: kv carried_def g_def split: option.splits)
  qed simp
  ultimately show ?thesis by (simp add: mapToTable_loop_table kvs_def object_json_def)
qed

lemma map_slice_carried:
  assumes laws: "lua_table_laws ops"
    and c: "\<And>m. m \<in> set ms \<Longrightarrow> json_of ops other (Suc n) (LTable (mapToTable_loop ops (lt_new ops) m)) =
      Ok (object_json (map (\<lambda>(k, v). (k, through_lua v)) m))"
  shows "json_of ops other (Suc (Suc n)) (LTable (append_tables ops (lt_new ops) ms)) =
    Ok (array_json (map (\<lambda>m. object_json (map (\<lambda>(k, v). (k, through_lua v)) m)) ms))"
proof -
  let ?lvs = "map (\<lambda>m. LTable (mapToTable_loop ops (lt_new ops) m)) ms"
  have "json_of ops other (Suc (Suc n)) (LTable (list_table ops ?lvs)) =
      Ok (array_json (map (\<lambda>lv. the_ok (json_of ops other (Suc n) lv)) ?lvs))"
    by (intro list_table_json [OF laws]) (auto simp: c)
  moreover have "map (\<lambda>lv. the_ok (json_of ops other (Suc n) lv)) ?lvs =
      map (\<lambda>m. object_json (map (\<lambda>(k, v). (k, through_lua v)) m)) ms"
    by (simp add: c)
  ultimately show ?thesis by (simp only: append_tables_table)
qed

lemma slice_values_carried:
  assumes "\<And>v. v \<in> set vs \<Longrightarrow> slice_kind v \<Longrightarrow> carried ops other n v"
  shows "map (\<lambda>lv. the_ok (json_of ops other n lv)) (keep_some (slice_value ops) vs) =
    keep_some (\<lambda>v. if slice_kind v then through_lua v else None) vs"
  using assms
proof (induction vs)
  case Nil
  then show ?case by simp
next
  case (Cons v vs)
  have ih: "map (\<lambda>lv. the_ok (json_of ops other n lv)) (keep_some (slice_value ops) vs) =
      keep_some (\<lambda>v. if slice_kind v then through_lua v else None) vs"
    using Cons.prems by (intro Cons.IH) simp
  show ?case
  proof (cases "slice_kind v")
    case True
    then have c: "carried ops other n v" using Cons.prems by simp
    have sv: "slice_value ops v = element_value ops v" using True by simp
    show ?thesis
    proof (cases "element_value ops v")
      case None
      with c have "through_lua v = None" by (simp add: carried_def)
      with None ih True sv show ?thesis by (simp del: slice_value.simps)
    next
      case (Some lv)
      with c have "through_lua v = Some (the_ok (json_of ops other n lv))" by (auto simp: carried_def)
      with Some ih True sv show ?thesis by (simp del: slice_value.simps)
    qed
  qed (use ih in \<open>simp del: slice_value.simps, simp\<close>)
qed

lemma slice_carried:
  assumes laws: "lua_table_laws ops" and n: "0 < n"
    and c: "\<And>v. v \<in> set vs \<Longrightarrow> slice_kind v \<Longrightarrow> carried ops other n v"
  shows "json_of ops other (Suc n) (LTable (append_elements ops (lt_new ops) vs)) =
    Ok (array_json (keep_some (\<lambda>v. if slice_kind v then through_lua v else None) vs))"
proof -
  let ?lvs = "keep_some (slice_value ops) vs" and ?g = "\<lambda>lv. the_ok (json_of ops other n lv)"
  have "json_of ops other (Suc n) (LTable (list_table ops ?lvs)) = Ok (array_json (map ?g ?lvs))"
  proof (rule list_table_json [OF laws _ n])
    show "LNil \<notin> set ?lvs"
      using element_value_not_nil by (auto simp: in_keep_some split: if_splits)
    fix lv assume "lv \<in> set ?lvs"
    then obtain v where "v \<in> set vs" "slice_kind v" "element_value ops v = Some lv"
      by (auto simp: in_keep_some split: if_splits)
    then show "json_of ops other n lv = Ok (?g lv)"
      using c by (fastforce simp: carried_def)
  qed
  then show ?thesis by (simp only: append_elements_table slice_values_carried [OF c])
qed

lemma element_carried:
  assumes laws: "lua_table_laws ops"
  shows "wf_govalue e \<Longrightarrow> depth e \<le> n \<Longrightarrow> carried ops other n e"
proof (induction e arbitrary: n rule: through_lua.induct)
  case (6 m)
  then obtain n' where n: "n = Suc n'" by (cases n) auto
  have b: "0 < n'" "\<forall>kv \<in> set m. depth (snd kv) \<le> n'"
    using Max_insert_ge [of "\<lambda>kv. depth (snd kv)" m n'] "6.prems"(2) by (auto simp: n)
  have "carried ops other n' (snd kv)" if "kv \<in> set m" for kv
    using "6.IH" [of kv "fst kv" "snd kv" n'] "6.prems"(1) b(2) that by auto
  then show ?case
    using map_carried [OF laws b(1)] "6.prems"(1) by (simp add: carried_def n)
next
  case (8 ms)
  then obtain n' where n: "n = Suc (Suc n')"
    by (cases n; cases "n - 1") auto
  have b: "0 < n'" "\<forall>m \<in> set ms. Max (insert 1 (set (map (\<lambda>kv. depth (snd kv)) m))) \<le> n'"
    using Max_insert_ge [of "\<lambda>m. Max (insert 1 (set (map (\<lambda>kv. depth (snd kv)) m)))" ms n']
      "8.prems"(2) by (auto simp: n)
  have 1: "json_of ops other (Suc n') (LTable (mapToTable_loop ops (lt_new ops) m)) =
      Ok (object_json (map (\<lambda>(k, v). (k, through_lua v)) m))" if m: "m \<in> set ms" for m
  proof (rule map_carried [OF laws b(1)])
    show "distinct (map fst m)" using "8.prems"(1) m by simp
    fix kv assume kv: "kv \<in> set m"
    have "depth (snd kv) \<le> n'"
      using Max_insert_ge [of "\<lambda>kv. depth (snd kv)" m n'] b(2) m kv by auto
    then show "carried ops other n' (snd kv)"
      using "8.IH" [of m kv "fst kv" "snd kv" n'] "8.prems"(1) m kv by auto
  qed
  from map_slice_carried [OF laws 1] show ?case by (simp add: carried_def n)
next
  case (9 vs)
  then obtain n' where n: "n = Suc n'" by (cases n) auto
  have b: "0 < n'" "\<forall>v \<in> set vs. depth v \<le> n'"
    using Max_insert_ge [of depth vs n'] "9.prems"(2) by (auto simp: n)
  have c: "carried ops other n' v" if "v \<in> set vs" "slice_kind v" for v
    using "9.IH" [of v n'] "9.prems"(1) b(2) that by auto
  from slice_carried [OF laws b(1) c] show ?case by (simp add: carried_def n)
qed (auto simp: carried_def json_of_def float64_of_int64_def Suc_le_eq gr0_conv_Suc)

section \<open>Values that survive unchanged\<close>

text \<open>
  The JSON of a value itself, and the values for which the way through Lua changes nothing: integers
  of at most 53 bits and not inside a slice, slices that are not empty and whose elements are maps,
  floats, strings or booleans, and no nil.
\<close>

fun go_json :: "govalue \<Rightarrow> jvalue" where
  "go_json (GFloat x) = number_json x"
| "go_json (GInt64 n) = JNumber (of_int (sint n))"
| "go_json (GString s) = JString s"
| "go_json (GBool b) = JBool b"
| "go_json (GMap m) = JObject (sort_key fst (map (\<lambda>(k, v). (k, go_json v)) m))"
| "go_json (GSlice vs) = JArray (map go_json vs)"
| "go_json (GMapSlice ms) =
     JArray (map (\<lambda>m. JObject (sort_key fst (map (\<lambda>(k, v). (k, go_json v)) m))) ms)"
| "go_json _ = JNull"

fun lua_safe :: "govalue \<Rightarrow> bool" where
  "lua_safe (GFloat x) = True"
| "lua_safe (GInt64 n) = (\<bar>sint n\<bar> \<le> 2 ^ 53)"
| "lua_safe (GString s) = True"
| "lua_safe (GBool b) = True"
| "lua_safe (GMap m) = (\<forall>kv \<in> set m. lua_safe (snd kv))"
| "lua_safe (GSlice vs) = (vs \<noteq> [] \<and> (\<forall>v \<in> set vs. slice_kind v \<and> lua_safe v))"
| "lua_safe (GMapSlice ms) = (ms \<noteq> [] \<and> (\<forall>m \<in> set ms. \<forall>kv \<in> set m. lua_safe (snd kv)))"
| "lua_safe _ = False"

lemma object_json_all:
  assumes "\<And>kv. kv \<in> set m \<Longrightarrow> through_lua (snd kv) = Some (go_json (snd kv))"
  shows "object_json (map (\<lambda>(k, v). (k, through_lua v)) m) =
    JObject (sort_key fst (map (\<lambda>(k, v). (k, go_json v)) m))"
proof -
  have "keep_some (\<lambda>(k, v). map_option (Pair k) v) (map (\<lambda>(k, v). (k, through_lua v)) m) =
      map (\<lambda>(k, v). (k, go_json v)) m"
    using assms unfolding keep_some_map by (intro keep_some_all) auto
  then show ?thesis by (simp add: object_json_def)
qed

lemma array_json_nonempty: "js \<noteq> [] \<Longrightarrow> array_json js = JArray js"
  by (cases js) auto

lemma lua_safe_through_lua: "lua_safe v \<Longrightarrow> through_lua v = Some (go_json v)"
proof (induction v rule: through_lua.induct)
  case (6 m)
  have "through_lua (snd kv) = Some (go_json (snd kv))" if "kv \<in> set m" for kv
    using "6.IH" [of kv "fst kv" "snd kv"] "6.prems" that by auto
  then show ?case by (simp add: object_json_all)
next
  case (8 ms)
  have "object_json (map (\<lambda>(k, v). (k, through_lua v)) m) =
      JObject (sort_key fst (map (\<lambda>(k, v). (k, go_json v)) m))" if "m \<in> set ms" for m
  proof (rule object_json_all)
    fix kv assume "kv \<in> set m"
    then show "through_lua (snd kv) = Some (go_json (snd kv))"
      using "8.IH" [of m kv "fst kv" "snd kv"] "8.prems" that by auto
  qed
  then show ?case using "8.prems" by (simp add: array_json_nonempty)
next
  case (9 vs)
  have "keep_some (\<lambda>v. if slice_kind v then through_lua v else None) vs = map go_json vs"
    using "9.IH" "9.prems" by (intro keep_some_all) auto
  then show ?case using "9.prems" by (simp add: array_json_nonempty)
qed (auto simp: float64_of_int64_def float64_of_int_exact)

section \<open>A table implementation that satisfies the laws\<close>

text \<open>
  A table has an array part and a part with string keys.  \<open>SelfTable\<close> is the table \<open>t\<close> that a script makes
  with \<open>t.self = t\<close>; a table made from it by writing a field is a new one that still has the old one in it.
\<close>

datatype ref_table = RefTable "ref_table lvalue list" "(string \<times> ref_table lvalue) list" | SelfTable

fun array_part :: "ref_table \<Rightarrow> ref_table lvalue list" where
  "array_part (RefTable vs kvs) = vs"
| "array_part SelfTable = []"

fun string_part :: "ref_table \<Rightarrow> (string \<times> ref_table lvalue) list" where
  "string_part (RefTable vs kvs) = kvs"
| "string_part SelfTable = [(''self'', LTable SelfTable)]"

definition ref_tables :: "ref_table lua_tables" where
  "ref_tables =
     \<lparr>lt_new = RefTable [] [],
      lt_set_string = (\<lambda>t k v. RefTable (array_part t) (AList.update k v (string_part t))),
      lt_append = (\<lambda>t v. RefTable (array_part t @ [v]) (string_part t)),
      lt_maxn = (\<lambda>t. length (array_part t)),
      lt_foreach = (\<lambda>t. map (\<lambda>(k, v). (LString k, v)) (string_part t)),
      lt_get_int = (\<lambda>t i. if 0 < i \<and> i \<le> length (array_part t) then array_part t ! (i - 1) else LNil),
      fmt_sprint = (\<lambda>_. [])\<rparr>"

lemma ref_tables_laws: "lua_table_laws ref_tables"
proof -
  have s: "distinct (map fst (ps @ kvs)) \<Longrightarrow>
      foldl (\<lambda>t (k, v). lt_set_string ref_tables t k v) (RefTable [] ps) kvs =
      RefTable [] (ps @ kvs)" for kvs ps
    by (induction kvs arbitrary: ps) (auto simp: ref_tables_def update_fresh)
  have l: "foldl (lt_append ref_tables) (RefTable us []) vs = RefTable (us @ vs) []" for vs us
    by (induction vs arbitrary: us) (auto simp: ref_tables_def)
  have n: "lt_new ref_tables = RefTable [] []" by (simp add: ref_tables_def)
  show ?thesis
    using s [of "[]"] l [of "[]"]
    by (auto simp: lua_table_laws_def string_table_def list_table_def n)
      (simp_all add: ref_tables_def)
qed

section \<open>Properties\<close>

text \<open>
  C13. A resource whose content is within what \<open>mapToTable\<close> handles (\<open>lua_safe\<close>) comes back
  from a script that returns it unchanged: converting it to a Lua table, back to a Go value and to
  JSON gives the JSON of the resource, with enough depth for its nesting.
\<close>

theorem lua_roundtrip:
  assumes "lua_table_laws ops" and "wf_govalue (GMap m)" and "lua_safe (GMap m)"
    and "depth (GMap m) \<le> n"
  shows "bind_outcome (toGoValue n ops (LTable (mapToTable ops m))) (marshal other) =
    Ok (go_json (GMap m))"
  using element_carried [OF assms(1,2,4), of other] lua_safe_through_lua [OF assms(3)]
  by (simp add: carried_def json_of_def mapToTable_def)

theorem lua_roundtrip_witness:
  "bind_outcome (toGoValue 4 ref_tables (LTable (mapToTable ref_tables
       [(''spec'', GMap [(''replicas'', GInt64 3), (''names'', GSlice [GString ''x''])])])))
     (marshal (\<lambda>_. Ok JNull)) =
   Ok (go_json (GMap [(''spec'', GMap [(''replicas'', GInt64 3), (''names'', GSlice [GString ''x''])])]))"
  by (rule lua_roundtrip) (simp_all add: ref_tables_laws)

text \<open>
  C39. Integers in a list are lost: an object whose field is a list of \<open>int64\<close> values, as decoded objects
  hold, comes back from a script that returns it with an empty object in place of the list.
\<close>

theorem integer_lists_are_lost:
  assumes "lua_table_laws ops" and "3 \<le> n"
  shows "bind_outcome (toGoValue n ops (LTable (mapToTable ops [(k, GSlice (map GInt64 ns))])))
    (marshal other) = Ok (JObject [(k, JObject [])])"
proof -
  let ?m = "[(k, GSlice (map GInt64 ns))]"
  have "depth (GMap ?m) \<le> n"
  proof -
    have "set (map depth (map GInt64 ns)) \<subseteq> {1}" by auto
    then have "insert 1 (set (map depth (map GInt64 ns))) = {1}" by blast
    then have "depth (GSlice (map GInt64 ns)) = 2" by (simp only: depth.simps) simp
    then show ?thesis using assms(2) by simp
  qed
  then have "carried ops other n (GMap ?m)"
    using element_carried [OF assms(1), of "GMap ?m" n other] by auto
  moreover have "keep_some (\<lambda>v. if slice_kind v then through_lua v else None) (map GInt64 ns) = []"
    by (induction ns) auto
  ultimately show ?thesis
    by (simp add: carried_def json_of_def mapToTable_def object_json_def)
qed

theorem integer_lists_are_lost_witness:
  "bind_outcome (toGoValue 3 ref_tables (LTable (mapToTable ref_tables
       [(''supplementalGroups'', GSlice (map GInt64 [1000, 2000]))]))) (marshal (\<lambda>_. Ok JNull)) =
   Ok (JObject [(''supplementalGroups'', JObject [])])"
  by (rule integer_lists_are_lost) (simp_all add: ref_tables_laws)

section \<open>Cyclic tables\<close>











end
