(* ===== verification/Lua_Scripts.thy ===== *)
theory Lua_Scripts
  imports Lua_Roundtrip
begin

text \<open>
  The three places of \<open>worker.go\<close> that run a user's Lua script: \<open>isMatch\<close>, \<open>transform\<close> and
  \<open>aggregatedSelection\<close>.  The interpreter is a record of functions: load a script, set a global,
  call a function and read the value it left on the stack.  It also holds the decoder of
  \<open>unstructured.Unstructured\<close>, what the JSON encoder does with the values of the Lua library, and
  the recursion depth the stack allows.  Loading a script runs it, and so does calling a function of
  it; the code gives the interpreter neither a context nor a time limit, so that both may never come
  back: then they have no outcome at all, \<open>None\<close>.
\<close>

section \<open>The interpreter\<close>

record ('st, 't) lua_vm =
  vm_tables :: "'t lua_tables"
  vm_doString :: "string \<Rightarrow> 'st outcome option"
  vm_setGlobal :: "'st \<Rightarrow> string \<Rightarrow> 't \<Rightarrow> 'st"
  vm_call :: "'st \<Rightarrow> string \<Rightarrow> 't \<Rightarrow> 't lvalue outcome option"
  vm_depth :: nat
  vm_marshalOther :: "string \<Rightarrow> jvalue outcome"
  vm_decodeObject :: "jvalue \<Rightarrow> unstructured outcome"

definition luaTableError :: string where
  "luaTableError = ''lua script output is not a lua table''"

text \<open>A call that never comes back is for its caller like a panic: nothing happens after it.\<close>

definition returning :: "'a outcome option \<Rightarrow> 'a outcome" where
  "returning call = (case call of None \<Rightarrow> Panic | Some x \<Rightarrow> x)"

lemma returning_simps [simp]: "returning None = Panic" "returning (Some x) = x"
  by (simp_all add: returning_def)

text \<open>The run of a script with its argument does not come to an end.\<close>

definition never_returns :: "('st, 't) lua_vm \<Rightarrow> string \<Rightarrow> string \<Rightarrow> string \<Rightarrow> 't \<Rightarrow> bool" where
  "never_returns vm script global fn arg \<longleftrightarrow>
     (case vm_doString vm script of
        None \<Rightarrow> True
      | Some (Ok st) \<Rightarrow> vm_call vm (vm_setGlobal vm st global arg) fn arg = None
      | Some _ \<Rightarrow> False)"

text \<open>
  The steps the three functions share: load the script, bind the global, call the function with the
  same table as its argument, require a table as the result, convert it and marshal it.
\<close>

definition run_script ::
  "('st, 't) lua_vm \<Rightarrow> string \<Rightarrow> string \<Rightarrow> string \<Rightarrow> 't \<Rightarrow> jvalue outcome" where
  "run_script vm script global fn arg =
     bind_outcome (returning (vm_doString vm script)) (\<lambda>st.
     bind_outcome (returning (vm_call vm (vm_setGlobal vm st global arg) fn arg)) (\<lambda>lv.
       case lv of
         LTable t \<Rightarrow>
           bind_outcome (toGoValue (vm_depth vm) (vm_tables vm) lv) (marshal (vm_marshalOther vm))
       | _ \<Rightarrow> Fail (PlainError luaTableError)))"

lemma run_script_never_returns: "never_returns vm script global fn arg \<Longrightarrow> run_script vm script global fn arg = Panic"
  by (auto simp: never_returns_def run_script_def split: option.splits outcome.splits)

section \<open>The three uses\<close>

definition isMatch ::
  "('st, 't) lua_vm \<Rightarrow> unstructured \<Rightarrow> string \<Rightarrow> (bool \<times> string) outcome" where
  "isMatch vm resource script =
     (if script = [] then Ok (True, [])
      else
        bind_outcome
          (run_script vm script ''obj'' ''evaluate'' (mapToTable (vm_tables vm) (u_content resource)))
          (\<lambda>j. bind_outcome (unmarshal_evaluate j)
             (\<lambda>result. Ok (es_Matching result, es_Message result))))"

text \<open>The result is a pointer, nil when the script's table has no resource.\<close>

definition transform ::
  "('st, 't) lua_vm \<Rightarrow> unstructured \<Rightarrow> string \<Rightarrow> unstructured option outcome" where
  "transform vm resource script =
     (if script = [] then Ok (Some resource)
      else
        bind_outcome
          (run_script vm script ''obj'' ''transform'' (mapToTable (vm_tables vm) (u_content resource)))
          (\<lambda>j. bind_outcome (unmarshal_transform (vm_decodeObject vm) j)
             (\<lambda>result. Ok (ts_Resource result))))"

text \<open>
  The loop that logs the selected resources calls the accessors of each, which dereference it: an
  entry without a resource panics.
\<close>

fun selected_resources :: "transformStatus list \<Rightarrow> ResourceResult list outcome" where
  "selected_resources [] = Ok []"
| "selected_resources (r # rs) =
     (case ts_Resource r of
        None \<Rightarrow> Panic
      | Some u \<Rightarrow>
          bind_outcome (selected_resources rs)
            (\<lambda>us. Ok (\<lparr>rr_Resource = u, rr_Message = ts_Message r\<rparr> # us)))"

definition resources_table :: "'t lua_tables \<Rightarrow> ResourceResult list \<Rightarrow> 't" where
  "resources_table ops resources =
     foldl (\<lambda>t resource. lt_append ops t (LTable (mapToTable ops (u_content (rr_Resource resource)))))
       (lt_new ops) resources"

definition aggregatedSelection ::
  "('st, 't) lua_vm \<Rightarrow> string \<Rightarrow> ResourceResult list \<Rightarrow> ResourceResult list outcome" where
  "aggregatedSelection vm luaScript resources =
     (if luaScript = [] then Ok resources
      else
        let argTable = resources_table (vm_tables vm) resources
        in bind_outcome (run_script vm luaScript ''resources'' ''evaluate'' argTable)
             (\<lambda>j. bind_outcome (unmarshal_aggregated (vm_decodeObject vm) j)
                (\<lambda>result. selected_resources (ag_Resources result))))"

section \<open>Properties\<close>

text \<open>A script error, a result that is not a table and a decoding error all make the call fail.\<close>

lemma isMatch_Ok_cases:
  "isMatch vm u script = Ok (b, msg) \<Longrightarrow>
   (script = [] \<and> b \<and> msg = []) \<or>
   (\<exists>j es. run_script vm script ''obj'' ''evaluate''
       (mapToTable (vm_tables vm) (u_content u)) = Ok j \<and>
     unmarshal_evaluate j = Ok es \<and> b = es_Matching es \<and> msg = es_Message es)"
  by (auto simp: isMatch_def split: if_splits)

lemma unmarshal_evaluate_object:
  "unmarshal_evaluate (JObject [(''matching'', JBool b), (''message'', JString s)]) =
   Ok \<lparr>es_Matching = b, es_Message = s\<rparr>"
proof -
  have "fold_name ''matching'' = ''MATCHING''" "fold_name ''message'' = ''MESSAGE''"
    by (code_simp, code_simp)
  then show ?thesis by (simp add: unmarshal_evaluate_def finish_decode_def)
qed

text \<open>A status table without a \<open>matching\<close> field is no match.\<close>

lemma unmarshal_evaluate_empty:
  "unmarshal_evaluate (JObject []) = Ok \<lparr>es_Matching = False, es_Message = []\<rparr>"
  by (simp add: unmarshal_evaluate_def finish_decode_def)

lemma unmarshal_aggregated_empty_table:
  "unmarshal_aggregated dec (JObject [(''resources'', JObject kvs)]) = Fail type_error"
proof -
  have "fold_name ''resources'' = ''RESOURCES''" by code_simp
  then show ?thesis by (simp add: unmarshal_aggregated_def finish_decode_def)
qed

text \<open>
  An aggregated selection that selects nothing by returning an empty \<open>resources\<close> table fails:
  the empty table is read back as an object, which does not decode as a list.  Leaving the field out
  selects nothing without an error.
\<close>

theorem empty_selection_fails:
  assumes "script \<noteq> []"
    and "run_script vm script ''resources'' ''evaluate''
      (resources_table (vm_tables vm) resources) =
      Ok (JObject (if field_present then [(''resources'', array_json [])] else []))"
  shows "aggregatedSelection vm script resources =
    (if field_present then Fail type_error else Ok [])"
  using assms unmarshal_aggregated_empty_table [of "vm_decodeObject vm" "[]"]
  by (auto simp: aggregatedSelection_def Let_def unmarshal_aggregated_def finish_decode_def)

definition example_vm :: "(unit, ref_table) lua_vm" where
  "example_vm =
     \<lparr>vm_tables = ref_tables, vm_doString = (\<lambda>_. Some (Ok ())), vm_setGlobal = (\<lambda>st _ _. st),
      vm_call = (\<lambda>_ _ _. Some (Ok (LTable (RefTable [] [(''resources'', LTable (RefTable [] []))])))),
      vm_depth = 10, vm_marshalOther = (\<lambda>_. Ok JNull),
      vm_decodeObject = (\<lambda>_. Fail (PlainError ''no kind''))\<rparr>"

theorem empty_selection_fails_witness:
  "aggregatedSelection example_vm ''x'' [] = Fail type_error"
proof -
  have "run_script example_vm ''x'' ''resources'' ''evaluate'' (lt_new (vm_tables example_vm)) =
      Ok (JObject [(''resources'', array_json [])])"
    by (simp add: run_script_def example_vm_def ref_tables_def eval_nat_numeral Let_def sprint_def)
  then show ?thesis
    using empty_selection_fails [of "''x''" example_vm "[]" True] by (simp add: resources_table_def)
qed

end
