(* ===== verification/Selection.thy ===== *)
theory Selection
  imports Lua_Scripts
begin

text \<open>
  Which resources a \<open>ResourceSelector\<close> selects (\<open>worker.go\<close>): the label selector string, the
  namespaces, the listing calls, and the filter by deletion mark and Lua script.  The API server is a
  record of functions of the cluster's state \<open>'w\<close>.
\<close>

section \<open>What the cluster answers\<close>

record ListOptions =
  LabelSelector :: string
  FieldSelector :: string

record Namespace =
  ns_Name :: string
  ns_DeletionTimestamp :: "time option"
  ns_Labels :: "(string \<times> string) list"

datatype mapping_result = Mapping string | NoMatch | MappingError go_error

record 'w cluster_reader =
  api_discover :: "'w \<Rightarrow> (GroupVersionKind \<Rightarrow> mapping_result) outcome"
  api_listNamespaces :: "'w \<Rightarrow> Namespace list outcome"
  api_list :: "'w \<Rightarrow> GroupVersionResource \<Rightarrow> ListOptions \<Rightarrow> unstructured list outcome"
  labels_Parse :: "string \<Rightarrow> ((string \<times> string) list \<Rightarrow> bool) outcome"
  scheme_namespaceKinds :: "GroupVersionKind list outcome"
  scheme_objectKinds :: "unstructured \<Rightarrow> GroupVersionKind list outcome"

section \<open>The type information of an object\<close>

text \<open>
  \<open>addTypeInformationToObject\<close> (\<open>store.go\<close>) sets the first kind of the scheme that has a name
  and an external version, if there is one.
\<close>

fun first_external_kind :: "GroupVersionKind list \<Rightarrow> GroupVersionKind option" where
  "first_external_kind [] = None"
| "first_external_kind (gvk # gvks) =
     (if gvk_Kind gvk = [] then first_external_kind gvks
      else if gvk_Version gvk = [] \<or> gvk_Version gvk = ''__internal'' then first_external_kind gvks
      else Some gvk)"

definition gvk_apiVersion :: "GroupVersionKind \<Rightarrow> string" where
  "gvk_apiVersion gvk =
     (if gvk_Group gvk = [] then gvk_Version gvk else gvk_Group gvk @ ''/'' @ gvk_Version gvk)"

definition addTypeInformationToObject ::
  "GroupVersionKind list outcome \<Rightarrow> (GroupVersionKind \<Rightarrow> 'o \<Rightarrow> 'o) \<Rightarrow> 'o \<Rightarrow> 'o outcome" where
  "addTypeInformationToObject kinds setKind obj =
     bind_outcome kinds (\<lambda>gvks.
       case first_external_kind gvks of None \<Rightarrow> Ok obj | Some gvk \<Rightarrow> Ok (setKind gvk obj))"

section \<open>The label selector\<close>

fun render_filter :: "LabelFilter \<Rightarrow> string" where
  "render_filter f =
     (case lf_Operation f of
        OperationEqual \<Rightarrow> lf_Key f @ ''='' @ lf_Value f
      | OperationDifferent \<Rightarrow> lf_Key f @ ''!='' @ lf_Value f
      | OperationHas \<Rightarrow> lf_Key f
      | OperationDoesNotHave \<Rightarrow> ''!'' @ lf_Key f
      | OtherOperation _ \<Rightarrow> [])"

fun addLabelFilters_loop :: "string \<Rightarrow> LabelFilter list \<Rightarrow> string" where
  "addLabelFilters_loop labelFilter [] = labelFilter"
| "addLabelFilters_loop labelFilter (f # fs) =
     addLabelFilters_loop
       ((if labelFilter \<noteq> [] then labelFilter @ '','' else labelFilter) @ render_filter f) fs"

definition addLabelFilters :: "LabelFilter list \<Rightarrow> string" where
  "addLabelFilters labelFilters = addLabelFilters_loop [] labelFilters"

section \<open>The namespaces\<close>

text \<open>
  The loop over all namespaces: those being deleted are skipped, those whose labels match are kept.
\<close>

fun matching_namespaces ::
  "('w, 'x) cluster_reader_scheme \<Rightarrow> ((string \<times> string) list \<Rightarrow> bool) \<Rightarrow> Namespace list \<Rightarrow>
   string list outcome" where
  "matching_namespaces cl selector [] = Ok []"
| "matching_namespaces cl selector (ns # nss) =
     (if ns_DeletionTimestamp ns \<noteq> None then matching_namespaces cl selector nss
      else
        bind_outcome (addTypeInformationToObject (scheme_namespaceKinds cl) (\<lambda>_ n. n) ns) (\<lambda>ns'.
        bind_outcome (matching_namespaces cl selector nss) (\<lambda>names.
          Ok (if selector (ns_Labels ns') then ns_Name ns' # names else names))))"

definition getNamespaces ::
  "('w, 'x) cluster_reader_scheme \<Rightarrow> 'w \<Rightarrow> ResourceSelector \<Rightarrow> string list outcome" where
  "getNamespaces cl w sel =
     bind_outcome
       (if rs_NamespaceSelector sel \<noteq> []
        then bind_outcome (labels_Parse cl (rs_NamespaceSelector sel)) (\<lambda>parsedSelector.
             bind_outcome (api_listNamespaces cl w) (matching_namespaces cl parsedSelector))
        else Ok [])
       (\<lambda>matchingNamespaces.
          Ok (if rs_Namespace sel \<noteq> [] \<and> rs_Namespace sel \<notin> set matchingNamespaces
              then matchingNamespaces @ [rs_Namespace sel] else matchingNamespaces))"

section \<open>Listing\<close>

definition collectWithOptions ::
  "('w, 'x) cluster_reader_scheme \<Rightarrow> 'w \<Rightarrow> GroupVersionResource \<Rightarrow> ListOptions \<Rightarrow>
   unstructured list outcome" where
  "collectWithOptions cl w resourceId options =
     bind_outcome (api_list cl w resourceId options) (\<lambda>items. Ok items)"

definition collectFromNamespaces ::
  "('w, 'x) cluster_reader_scheme \<Rightarrow> 'w \<Rightarrow> string list \<Rightarrow> GroupVersionResource \<Rightarrow> ListOptions \<Rightarrow>
   unstructured list outcome" where
  "collectFromNamespaces cl w namespaces resourceId options =
     collect_all (\<lambda>ns. collectWithOptions cl w resourceId
       (options\<lparr>FieldSelector := FieldSelector options @ ''metadata.namespace='' @ ns\<rparr>)) namespaces"

text \<open>A kind the cluster does not know gives nil, which \<open>getMatchingResources\<close> tells apart.\<close>

definition fetchResources ::
  "('w, 'x) cluster_reader_scheme \<Rightarrow> 'w \<Rightarrow> ResourceSelector \<Rightarrow> unstructured list option outcome"
  where
  "fetchResources cl w sel =
     (let gvk = \<lparr>gvk_Group = rs_Group sel, gvk_Version = rs_Version sel, gvk_Kind = rs_Kind sel\<rparr>
      in bind_outcome (api_discover cl w) (\<lambda>mapper.
         case mapper gvk of
           NoMatch \<Rightarrow> Ok None
         | MappingError e \<Rightarrow> Fail e
         | Mapping resource \<Rightarrow>
             let resourceId = \<lparr>gvr_Group = gvk_Group gvk, gvr_Version = gvk_Version gvk,
                   gvr_Resource = resource\<rparr>;
                 options = \<lparr>LabelSelector = (if rs_LabelFilters sel \<noteq> []
                     then addLabelFilters (rs_LabelFilters sel) else []), FieldSelector = []\<rparr>
             in bind_outcome (getNamespaces cl w sel) (\<lambda>namespaces.
                bind_outcome
                  (if namespaces \<noteq> [] then collectFromNamespaces cl w namespaces resourceId options
                   else collectWithOptions cl w resourceId options)
                  (\<lambda>result. Ok (Some result)))))"

definition match_resource ::
  "('st, 't) lua_vm \<Rightarrow> ResourceSelector \<Rightarrow> unstructured \<Rightarrow> ResourceResult list outcome" where
  "match_resource vm sr resource =
     (if rs_ExcludeDeleted sr \<and> u_deletionTimestamp resource \<noteq> None then Ok []
      else
        bind_outcome (isMatch vm resource (rs_Evaluate sr)) (\<lambda>(matching, message).
          Ok (if matching then [\<lparr>rr_Resource = resource, rr_Message = message\<rparr>] else [])))"

definition getMatchingResources ::
  "('w, 'x) cluster_reader_scheme \<Rightarrow> ('st, 't) lua_vm \<Rightarrow> 'w \<Rightarrow> ResourceSelector \<Rightarrow>
   ResourceResult list outcome" where
  "getMatchingResources cl vm w sr =
     bind_outcome (fetchResources cl w sr) (\<lambda>r.
       case r of None \<Rightarrow> Ok [] | Some resources \<Rightarrow> collect_all (match_resource vm sr) resources)"

end
