(* ===== verification/Actions.thy ===== *)
theory Actions
  imports Selection "HOL-Library.Sublist"
begin

text \<open>
  What is done with the selected resources: \<open>deleteMatchingResources\<close>,
  \<open>updateMatchingResources\<close> and \<open>printMatchingResources\<close> of \<open>worker.go\<close>, with the
  Prometheus counters of \<open>metrics.go\<close> they increment.  The three loops share a contract, stated
  as the locale \<open>batch\<close>: every resource is attempted once, in order, and an error does not stop
  the loop.
\<close>

section \<open>The counters\<close>

type_synonym metric_labels = "string \<times> string \<times> string"

record metrics =
  deletedResourceCounter :: "metric_labels \<Rightarrow> nat"
  updatedResourceCounter :: "metric_labels \<Rightarrow> nat"
  scanResourceCounter :: "metric_labels \<Rightarrow> nat"
  errorResourceCounter :: "metric_labels \<Rightarrow> nat"

text \<open>A counter vector of the registry, and \<open>WithLabelValues(...).Inc()\<close> on it.\<close>

datatype counter_vec = DeletedVec | UpdatedVec | ScanVec | ErrorVec

fun inc :: "counter_vec \<Rightarrow> metric_labels \<Rightarrow> metrics \<Rightarrow> metrics" where
  "inc DeletedVec l m = m\<lparr>deletedResourceCounter := (deletedResourceCounter m)(l := deletedResourceCounter m l + 1)\<rparr>"
| "inc UpdatedVec l m = m\<lparr>updatedResourceCounter := (updatedResourceCounter m)(l := updatedResourceCounter m l + 1)\<rparr>"
| "inc ScanVec l m = m\<lparr>scanResourceCounter := (scanResourceCounter m)(l := scanResourceCounter m l + 1)\<rparr>"
| "inc ErrorVec l m = m\<lparr>errorResourceCounter := (errorResourceCounter m)(l := errorResourceCounter m l + 1)\<rparr>"

definition getDeletedResourcesCounterVec :: counter_vec where
  "getDeletedResourcesCounterVec = DeletedVec"

text \<open>The getter of the updated resources returns the counter of the deleted ones.\<close>

definition getUpdatedResourcesCounterVec :: counter_vec where
  "getUpdatedResourcesCounterVec = DeletedVec"

definition getScanResourcesCounterVec :: counter_vec where
  "getScanResourcesCounterVec = ScanVec"

definition getErrorResourcesCounterVec :: counter_vec where
  "getErrorResourcesCounterVec = ErrorVec"

definition reportDeletionEvent :: "string \<Rightarrow> string \<Rightarrow> string \<Rightarrow> metrics \<Rightarrow> metrics" where
  "reportDeletionEvent cleanerName resourceAPIVersion resourceKind =
     inc getDeletedResourcesCounterVec (cleanerName, resourceAPIVersion, resourceKind)"

definition reportUpdateEvent :: "string \<Rightarrow> string \<Rightarrow> string \<Rightarrow> metrics \<Rightarrow> metrics" where
  "reportUpdateEvent cleanerName resourceAPIVersion resourceKind =
     inc getUpdatedResourcesCounterVec (cleanerName, resourceAPIVersion, resourceKind)"

definition reportScanEvent :: "string \<Rightarrow> string \<Rightarrow> string \<Rightarrow> metrics \<Rightarrow> metrics" where
  "reportScanEvent cleanerName resourceAPIVersion resourceKind =
     inc getScanResourcesCounterVec (cleanerName, resourceAPIVersion, resourceKind)"

definition reportErrorEvent :: "string \<Rightarrow> string \<Rightarrow> string \<Rightarrow> metrics \<Rightarrow> metrics" where
  "reportErrorEvent cleanerName resourceAPIVersion resourceKind =
     inc getErrorResourcesCounterVec (cleanerName, resourceAPIVersion, resourceKind)"

lemmas report_defs [go_step] =
  reportDeletionEvent_def reportUpdateEvent_def reportScanEvent_def reportErrorEvent_def
  getDeletedResourcesCounterVec_def getUpdatedResourcesCounterVec_def
  getScanResourcesCounterVec_def getErrorResourcesCounterVec_def

section \<open>The state the actions change\<close>

text \<open>
  The calls that write: a delete with its options; an update, which also writes the server's
  answer into the object passed, and may panic on a nil object (None).
\<close>

record 'w cluster = "'w cluster_reader" +
  api_delete :: "'w \<Rightarrow> unstructured \<Rightarrow> DeleteOptions \<Rightarrow> go_err \<times> 'w"
  api_update :: "'w \<Rightarrow> unstructured option \<Rightarrow> (go_err \<times> unstructured \<times> 'w) option"

record 'w exec =
  world :: 'w
  counters :: metrics

definition count_event ::
  "(string \<Rightarrow> string \<Rightarrow> string \<Rightarrow> metrics \<Rightarrow> metrics) \<Rightarrow> string \<Rightarrow> ResourceResult \<Rightarrow> 'w exec \<Rightarrow> 'w exec"
  where
  "count_event report cleanerName r s =
     s\<lparr>counters := report cleanerName (u_apiVersion (rr_Resource r)) (u_kind (rr_Resource r))
         (counters s)\<rparr>"

text \<open>The options of the delete call: empty unless the Cleaner gives some.\<close>

definition delete_options :: "DeleteOptions option \<Rightarrow> DeleteOptions" where
  "delete_options opts =
     (case opts of
        None \<Rightarrow> \<lparr>GracePeriodSeconds = None, PropagationPolicy = None\<rparr>
      | Some o' \<Rightarrow>
          \<lparr>GracePeriodSeconds = GracePeriodSeconds o', PropagationPolicy = PropagationPolicy o'\<rparr>)"

definition join_errors :: "go_error list \<Rightarrow> go_err" where
  "join_errors failedActions = (if failedActions = [] then None else Some (JoinedError failedActions))"

section \<open>The loops\<close>

fun delete_loop ::
  "('w, 'x) cluster_scheme \<Rightarrow> string \<Rightarrow> DeleteOptions option \<Rightarrow> ResourceResult list \<Rightarrow> 'w exec \<Rightarrow>
   ResourceResult list \<times> go_error list \<times> 'w exec" where
  "delete_loop cl cleanerName deleteOptions [] s = ([], [], s)"
| "delete_loop cl cleanerName deleteOptions (resource # rs) s =
     (let (err, w') = api_delete cl (world s) (rr_Resource resource) (delete_options deleteOptions);
          s' = s\<lparr>world := w'\<rparr>
      in case err of
           Some e \<Rightarrow>
             if isNotFound e then delete_loop cl cleanerName deleteOptions rs s'
             else
               let (processedResources, failedActions, t) =
                     delete_loop cl cleanerName deleteOptions rs
                       (count_event reportErrorEvent cleanerName resource s')
               in (processedResources, e # failedActions, t)
         | None \<Rightarrow>
             let (processedResources, failedActions, t) =
                   delete_loop cl cleanerName deleteOptions rs
                     (count_event reportDeletionEvent cleanerName resource s')
             in (resource # processedResources, failedActions, t))"

definition deleteMatchingResources ::
  "('w, 'x) cluster_scheme \<Rightarrow> string \<Rightarrow> ResourceResult list \<Rightarrow> DeleteOptions option \<Rightarrow> 'w exec \<Rightarrow>
   ResourceResult list \<times> go_err \<times> 'w exec" where
  "deleteMatchingResources cl cleanerName resources deleteOptions s =
     (let (processedResources, failedActions, t) =
            delete_loop cl cleanerName deleteOptions resources s
      in (processedResources, join_errors failedActions, t))"

text \<open>
  Without a script \<open>transform\<close> returns the pointer it was given, so the update writes the
  server's answer into the very resource that is then reported as processed.
\<close>

fun update_loop ::
  "('w, 'x) cluster_scheme \<Rightarrow> ('st, 't) lua_vm \<Rightarrow> string \<Rightarrow> string \<Rightarrow> ResourceResult list \<Rightarrow> 'w exec \<Rightarrow>
   (ResourceResult list \<times> go_error list \<times> 'w exec) outcome" where
  "update_loop cl vm cleanerName transformFunction [] s = Ok ([], [], s)"
| "update_loop cl vm cleanerName transformFunction (resource # rs) s =
     (case transform vm (rr_Resource resource) transformFunction of
        Panic \<Rightarrow> Panic
      | Fail e \<Rightarrow>
          bind_outcome
            (update_loop cl vm cleanerName transformFunction rs
              (count_event reportErrorEvent cleanerName resource s))
            (\<lambda>(processedResources, failedActions, t). Ok (processedResources, e # failedActions, t))
      | Ok newResource \<Rightarrow>
          (case api_update cl (world s) newResource of
             None \<Rightarrow> Panic
           | Some (Some e, _, w') \<Rightarrow>
               bind_outcome
                 (update_loop cl vm cleanerName transformFunction rs
                   (count_event reportErrorEvent cleanerName resource (s\<lparr>world := w'\<rparr>)))
                 (\<lambda>(processedResources, failedActions, t).
                    Ok (processedResources, e # failedActions, t))
           | Some (None, answer, w') \<Rightarrow>
               let resource' = (if transformFunction = [] then resource\<lparr>rr_Resource := answer\<rparr>
                                else resource)
               in bind_outcome
                    (update_loop cl vm cleanerName transformFunction rs
                      (count_event reportUpdateEvent cleanerName resource' (s\<lparr>world := w'\<rparr>)))
                    (\<lambda>(processedResources, failedActions, t).
                       Ok (resource' # processedResources, failedActions, t))))"

definition updateMatchingResources ::
  "('w, 'x) cluster_scheme \<Rightarrow> ('st, 't) lua_vm \<Rightarrow> string \<Rightarrow> ResourceResult list \<Rightarrow> string \<Rightarrow> 'w exec \<Rightarrow>
   (ResourceResult list \<times> go_err \<times> 'w exec) outcome" where
  "updateMatchingResources cl vm cleanerName resources transformFunction s =
     bind_outcome (update_loop cl vm cleanerName transformFunction resources s)
       (\<lambda>(processedResources, failedActions, t).
          Ok (processedResources, join_errors failedActions, t))"

fun printMatchingResources :: "string \<Rightarrow> ResourceResult list \<Rightarrow> 'w exec \<Rightarrow> 'w exec" where
  "printMatchingResources cleanerName [] s = s"
| "printMatchingResources cleanerName (resource # rs) s =
     printMatchingResources cleanerName rs (count_event reportScanEvent cleanerName resource s)"

end
