(* ===== verification/Notifications.thy ===== *)
theory Notifications
  imports Api_Types
begin

text \<open>
  The notifications a Cleaner sends after its action (\<open>notifications.go\<close>): the report, the
  messaging services with the secrets that hold their credentials, and the events.  The services are
  a record of functions of the outside state \<open>'n\<close>; every handler is a sequence of such calls
  with Go's early returns.
\<close>

section \<open>The services\<close>

record 'n notifier =
  api_getSecret :: "string \<Rightarrow> string \<Rightarrow> 'n \<Rightarrow> go_error + (string \<rightharpoonup> string) option"
  api_getReport :: "string \<Rightarrow> 'n \<Rightarrow> go_error + Report"
  api_createReport :: "Report \<Rightarrow> 'n \<Rightarrow> go_err \<times> 'n"
  api_updateReport :: "Report \<Rightarrow> 'n \<Rightarrow> go_err \<times> 'n"
  json_marshalReport :: "ReportSpec \<Rightarrow> go_error + string"
  slack_PostMessage :: "string \<Rightarrow> string \<Rightarrow> string \<Rightarrow> string \<Rightarrow> 'n \<Rightarrow> go_err \<times> 'n"
  teams_ValidateWebhook :: "string \<Rightarrow> go_err"
  teams_NewSimpleMessage :: "string \<Rightarrow> string \<Rightarrow> go_error + string"
  teams_Send :: "string \<Rightarrow> string \<Rightarrow> 'n \<Rightarrow> go_err \<times> 'n"
  discord_New :: "string \<Rightarrow> go_err"
  discord_Send :: "string \<Rightarrow> string \<Rightarrow> string \<Rightarrow> string \<Rightarrow> 'n \<Rightarrow> go_err \<times> 'n"
  telegram_NewBotAPI :: "string \<Rightarrow> 'n \<Rightarrow> go_err \<times> 'n"
  telegram_SendDocument :: "string \<Rightarrow> int64 \<Rightarrow> string \<Rightarrow> 'n \<Rightarrow> go_err \<times> 'n"
  webex_NewClient :: bool
  webex_CreateMessage :: "string \<Rightarrow> string \<Rightarrow> string \<Rightarrow> string \<Rightarrow> string \<Rightarrow> 'n \<Rightarrow> go_err \<times> 'n"
  smtp_NewMailer :: "ObjectReference option \<Rightarrow> 'n \<Rightarrow> go_err \<times> 'n"
  smtp_SendMail :: "ObjectReference option \<Rightarrow> string \<Rightarrow> string \<Rightarrow> 'n \<Rightarrow> go_err \<times> 'n"
  os_CreateTemp :: "string \<Rightarrow> 'n \<Rightarrow> (go_error + string) \<times> 'n"
  os_Write :: "string \<Rightarrow> string \<Rightarrow> 'n \<Rightarrow> go_err \<times> 'n"
  os_Open :: "string \<Rightarrow> 'n \<Rightarrow> (go_error + string) \<times> 'n"
  os_Remove :: "string \<Rightarrow> 'n \<Rightarrow> 'n"
  event_Eventf :: "unstructured \<Rightarrow> string \<Rightarrow> 'n \<Rightarrow> 'n"
  SlackToken :: string
  SlackChannelID :: string
  WebexToken :: string
  WebexRoomID :: string
  DiscordToken :: string
  DiscordChannelID :: string
  TeamsWebhookURL :: string
  TelegramToken :: string
  TelegramChatID :: string

section \<open>Credentials\<close>

record slackInfo =
  slack_token :: string
  slack_channelID :: string

record webexInfo =
  webex_token :: string
  webex_room :: string

record discordInfo =
  discord_token :: string
  discord_serverID :: string

record teamsInfo =
  teams_webhookUrl :: string

record telegramInfo =
  telegram_token :: string
  telegram_chatID :: int64

definition secret_error :: go_error where
  "secret_error =
     PlainError ''notification must reference secret containing slack token/channel id''"

definition getSecret :: "('n, 'x) notifier_scheme \<Rightarrow> Notification \<Rightarrow> 'n \<Rightarrow> go_error + (string \<rightharpoonup> string)" where
  "getSecret nf notification st =
     (case nt_Ref notification of
        None \<Rightarrow> Inl secret_error
      | Some ref \<Rightarrow>
          if or_Kind ref \<noteq> ''Secret'' then Inl secret_error
          else if or_APIVersion ref \<noteq> ''v1'' then Inl secret_error
          else
            case api_getSecret nf (or_Namespace ref) (or_Name ref) st of
              Inl e \<Rightarrow> Inl e
            | Inr None \<Rightarrow> Inl secret_error
            | Inr (Some data) \<Rightarrow> Inr data)"

definition getSlackInfo :: "('n, 'x) notifier_scheme \<Rightarrow> Notification \<Rightarrow> 'n \<Rightarrow> go_error + slackInfo" where
  "getSlackInfo nf notification st =
     (case getSecret nf notification st of
        Inl e \<Rightarrow> Inl e
      | Inr data \<Rightarrow>
          (case data (SlackToken nf) of
             None \<Rightarrow> Inl (PlainError ''secret does not contain slack token'')
           | Some authToken \<Rightarrow>
               (case data (SlackChannelID nf) of
                  None \<Rightarrow> Inl (PlainError ''secret does not contain slack channelID'')
                | Some channelID \<Rightarrow>
                    Inr \<lparr>slack_token = authToken, slack_channelID = channelID\<rparr>)))"

definition getTeamsInfo :: "('n, 'x) notifier_scheme \<Rightarrow> Notification \<Rightarrow> 'n \<Rightarrow> go_error + teamsInfo" where
  "getTeamsInfo nf notification st =
     (case getSecret nf notification st of
        Inl e \<Rightarrow> Inl e
      | Inr data \<Rightarrow>
          (case data (TeamsWebhookURL nf) of
             None \<Rightarrow> Inl (PlainError ''secret does not contain webhook URL'')
           | Some webhookUrl \<Rightarrow> Inr \<lparr>teams_webhookUrl = webhookUrl\<rparr>))"

definition getDiscordInfo ::
  "('n, 'x) notifier_scheme \<Rightarrow> Notification \<Rightarrow> 'n \<Rightarrow> go_error + discordInfo" where
  "getDiscordInfo nf notification st =
     (case getSecret nf notification st of
        Inl e \<Rightarrow> Inl e
      | Inr data \<Rightarrow>
          (case data (DiscordToken nf) of
             None \<Rightarrow> Inl (PlainError ''secret does not contain discord token'')
           | Some authToken \<Rightarrow>
               (case data (DiscordChannelID nf) of
                  None \<Rightarrow> Inl (PlainError ''secret does not contain discord channel id'')
                | Some serverID \<Rightarrow>
                    Inr \<lparr>discord_token = authToken, discord_serverID = serverID\<rparr>)))"

definition getWebexInfo :: "('n, 'x) notifier_scheme \<Rightarrow> Notification \<Rightarrow> 'n \<Rightarrow> go_error + webexInfo" where
  "getWebexInfo nf notification st =
     (case getSecret nf notification st of
        Inl e \<Rightarrow> Inl e
      | Inr data \<Rightarrow>
          (case data (WebexToken nf) of
             None \<Rightarrow> Inl (PlainError ''secret does not contain webex token'')
           | Some authToken \<Rightarrow>
               (case data (WebexRoomID nf) of
                  None \<Rightarrow> Inl (PlainError ''secret does not contain webex room'')
                | Some room \<Rightarrow> Inr \<lparr>webex_token = authToken, webex_room = room\<rparr>)))"

text \<open>
  \<open>strconv.ParseInt(s, 10, 64)\<close>: an optional sign and at least one digit, and a value of 64
  bits; anything else is an error.
\<close>

definition digit_value :: "char \<Rightarrow> nat option" where
  "digit_value c =
     (let n = of_char c :: nat in if 48 \<le> n \<and> n \<le> 57 then Some (n - 48) else None)"

fun parse_digits :: "nat \<Rightarrow> string \<Rightarrow> nat option" where
  "parse_digits acc [] = Some acc"
| "parse_digits acc (c # cs) =
     (case digit_value c of None \<Rightarrow> None | Some d \<Rightarrow> parse_digits (acc * 10 + d) cs)"

definition ParseInt :: "string \<Rightarrow> int64 option" where
  "ParseInt s =
     (let neg = (take 1 s = ''-'');
          ds = (if take 1 s = ''-'' \<or> take 1 s = ''+'' then drop 1 s else s)
      in if ds = [] then None
         else
           case parse_digits 0 ds of
             None \<Rightarrow> None
           | Some n \<Rightarrow>
               if \<not> neg \<and> 2 ^ 63 \<le> n then None
               else if neg \<and> 2 ^ 63 < n then None
               else Some (word_of_int (if neg then - int n else int n)))"

definition getTelegramInfo ::
  "('n, 'x) notifier_scheme \<Rightarrow> Notification \<Rightarrow> 'n \<Rightarrow> go_error + telegramInfo" where
  "getTelegramInfo nf notification st =
     (case getSecret nf notification st of
        Inl e \<Rightarrow> Inl e
      | Inr data \<Rightarrow>
          (case data (TelegramToken nf) of
             None \<Rightarrow> Inl (PlainError ''secret does not contain telegram token'')
           | Some authToken \<Rightarrow>
               (case data (TelegramChatID nf) of
                  None \<Rightarrow> Inl (PlainError ''secret does not contain telegram chatID'')
                | Some chatIDData \<Rightarrow>
                    (case ParseInt chatIDData of
                       None \<Rightarrow> Inl (PlainError ''failed to get chatID'')
                     | Some chatID \<Rightarrow>
                         Inr \<lparr>telegram_token = authToken, telegram_chatID = chatID\<rparr>))))"

section \<open>The report\<close>

definition resource_info :: "string \<Rightarrow> ResourceResult \<Rightarrow> ResourceInfo" where
  "resource_info message r =
     \<lparr>ri_Resource = \<lparr>or_Kind = u_kind (rr_Resource r), or_Namespace = u_namespace (rr_Resource r),
        or_Name = u_name (rr_Resource r), or_APIVersion = u_apiVersion (rr_Resource r)\<rparr>,
      ri_FullResource = [],
      ri_Message = rr_Message r @ message\<rparr>"

text \<open>The current time, formatted, is an argument.\<close>

definition generateReportSpec :: "string \<Rightarrow> ResourceResult list \<Rightarrow> Cleaner \<Rightarrow> ReportSpec" where
  "generateReportSpec now resources cleaner =
     \<lparr>rep_ResourceInfo = map (resource_info (''. time: '' @ now)) resources,
      rep_Action = spec_Action (cl_Spec cleaner)\<rparr>"

definition createReportInstance ::
  "('n, 'x) notifier_scheme \<Rightarrow> Cleaner \<Rightarrow> ReportSpec \<Rightarrow> ('n, unit) act" where
  "createReportInstance nf cleaner reportSpec st =
     (case api_getReport nf (cl_Name cleaner) st of
        Inl err \<Rightarrow>
          if isNotFound err
          then act_check (api_createReport nf \<lparr>rep_Name = cl_Name cleaner, rep_Spec = reportSpec\<rparr>) st
          else (Inl err, st)
      | Inr report \<Rightarrow> act_check (api_updateReport nf (report\<lparr>rep_Spec := reportSpec\<rparr>)) st)"

section \<open>The messaging services\<close>

definition sendSlackNotification ::
  "('n, 'x) notifier_scheme \<Rightarrow> ReportSpec \<Rightarrow> string \<Rightarrow> Notification \<Rightarrow> ('n, unit) act" where
  "sendSlackNotification nf reportSpec message notification =
     act_bind (\<lambda>st. (getSlackInfo nf notification st, st)) (\<lambda>info.
     act_bind (act_lift (json_marshalReport nf reportSpec)) (\<lambda>resourceSpecString.
       act_check (slack_PostMessage nf (slack_token info) (slack_channelID info) message
         resourceSpecString)))"

text \<open>
  When the webhook is not valid the code returns \<open>err\<close>, which is nil there: the validation
  error was not assigned to it.
\<close>

definition sendTeamsNotification ::
  "('n, 'x) notifier_scheme \<Rightarrow> ReportSpec \<Rightarrow> string \<Rightarrow> Notification \<Rightarrow> ('n, unit) act" where
  "sendTeamsNotification nf reportSpec message notification =
     act_bind (\<lambda>st. (getTeamsInfo nf notification st, st)) (\<lambda>info.
       if teams_ValidateWebhook nf (teams_webhookUrl info) \<noteq> None then act_return ()
       else
         act_bind (act_lift (json_marshalReport nf reportSpec)) (\<lambda>resourceSpecData.
         act_bind (act_lift (teams_NewSimpleMessage nf resourceSpecData message)) (\<lambda>teamsMessage.
           act_check (teams_Send nf (teams_webhookUrl info) teamsMessage))))"

text \<open>
  Discord, Webex and Telegram send the report as a file: a temporary one is created and written,
  and removed when the function returns.
\<close>

definition with_temp_file ::
  "('n, 'x) notifier_scheme \<Rightarrow> string \<Rightarrow> (string \<Rightarrow> ('n, unit) act) \<Rightarrow> ('n, unit) act" where
  "with_temp_file nf content body =
     act_bind (os_CreateTemp nf ''k8s-cleaner-webex'') (\<lambda>tmpFile.
       act_finally
         (act_bind (act_check (os_Write nf tmpFile content)) (\<lambda>_. body tmpFile))
         (os_Remove nf tmpFile))"

text \<open>\<open>withFileReader\<close> wraps the error of opening the file.\<close>

definition withFileReader :: "('n, 'x) notifier_scheme \<Rightarrow> string \<Rightarrow> ('n, string) act" where
  "withFileReader nf tmpFile st =
     (case os_Open nf tmpFile st of
        (Inl e, st') \<Rightarrow> (Inl (WrappedError ''error opening file'' e), st')
      | (Inr reader, st') \<Rightarrow> (Inr reader, st'))"

definition sendDiscordNotification ::
  "('n, 'x) notifier_scheme \<Rightarrow> ReportSpec \<Rightarrow> string \<Rightarrow> Notification \<Rightarrow> ('n, unit) act" where
  "sendDiscordNotification nf reportSpec message notification =
     act_bind (\<lambda>st. (getDiscordInfo nf notification st, st)) (\<lambda>info.
     act_bind (act_check (\<lambda>st. (discord_New nf (''Bot '' @ discord_token info), st))) (\<lambda>_.
     act_bind (act_lift (json_marshalReport nf reportSpec)) (\<lambda>resourceSpecData.
       with_temp_file nf resourceSpecData (\<lambda>tmpFile.
         act_bind (withFileReader nf tmpFile) (\<lambda>fileReader.
           act_check (discord_Send nf (''Bot '' @ discord_token info) (discord_serverID info)
             message fileReader))))))"

definition sendTelegramNotification ::
  "('n, 'x) notifier_scheme \<Rightarrow> ReportSpec \<Rightarrow> string \<Rightarrow> Notification \<Rightarrow> ('n, unit) act" where
  "sendTelegramNotification nf reportSpec message notification =
     act_bind (\<lambda>st. (getTelegramInfo nf notification st, st)) (\<lambda>info.
     act_bind (act_check (telegram_NewBotAPI nf (telegram_token info))) (\<lambda>_.
     act_bind (act_lift (json_marshalReport nf reportSpec)) (\<lambda>resourceSpecData.
       with_temp_file nf resourceSpecData (\<lambda>tmpFile.
         act_check (telegram_SendDocument nf (telegram_token info) (telegram_chatID info) tmpFile)))))"

definition sendWebexNotification ::
  "('n, 'x) notifier_scheme \<Rightarrow> ReportSpec \<Rightarrow> string \<Rightarrow> Notification \<Rightarrow> ('n, unit) act" where
  "sendWebexNotification nf reportSpec message notification =
     act_bind (\<lambda>st. (getWebexInfo nf notification st, st)) (\<lambda>info.
       if \<not> webex_NewClient nf
       then act_lift (Inl (PlainError ''failed to get webexClient client''))
       else
         act_bind (act_lift (json_marshalReport nf reportSpec)) (\<lambda>resourceSpecData.
           with_temp_file nf resourceSpecData (\<lambda>tmpFile.
             act_bind (withFileReader nf tmpFile) (\<lambda>fileReader.
               act_check (webex_CreateMessage nf (webex_token info) (webex_room info) message
                 tmpFile fileReader)))))"

text \<open>A report that cannot be marshalled is logged and the mail is sent without it.\<close>

definition sendSmtpNotification ::
  "('n, 'x) notifier_scheme \<Rightarrow> ReportSpec \<Rightarrow> string \<Rightarrow> Notification \<Rightarrow> ('n, unit) act" where
  "sendSmtpNotification nf reportSpec message notification =
     act_bind (act_check (smtp_NewMailer nf (nt_Ref notification))) (\<lambda>_.
       act_check (smtp_SendMail nf (nt_Ref notification) message
         (case json_marshalReport nf reportSpec of Inl _ \<Rightarrow> [] | Inr resourceSpecData \<Rightarrow> resourceSpecData)))"

section \<open>Events\<close>

definition event_message :: "Cleaner \<Rightarrow> string" where
  "event_message cleaner =
     (case spec_Action (cl_Spec cleaner) of
        ActionDelete \<Rightarrow> ''resource deleted by Cleaner instance '' @ cl_Name cleaner
      | ActionTransform \<Rightarrow> ''resource modified by Cleaner instance '' @ cl_Name cleaner
      | ActionScan \<Rightarrow>
          ''resource matching Cleaner instance '' @ cl_Name cleaner @ '' (current action Scan)''
      | OtherAction _ \<Rightarrow> [])"

fun sendKubernetesEventNotification ::
  "('n, 'x) notifier_scheme \<Rightarrow> Cleaner \<Rightarrow> ResourceResult list \<Rightarrow> 'n \<Rightarrow> 'n" where
  "sendKubernetesEventNotification nf cleaner [] st = st"
| "sendKubernetesEventNotification nf cleaner (r # rs) st =
     sendKubernetesEventNotification nf cleaner rs
       (event_Eventf nf (rr_Resource r)
         (if u_namespace (rr_Resource r) \<noteq> []
          then ''[ns:'' @ u_namespace (rr_Resource r) @ ''] '' @ event_message cleaner
          else event_message cleaner) st)"

section \<open>Delivery\<close>

text \<open>
  The switch on the type of a notification: a service is only called when there are resources, a
  type without a handler panics.
\<close>

definition deliver ::
  "('n, 'x) notifier_scheme \<Rightarrow> Cleaner \<Rightarrow> ResourceResult list \<Rightarrow> ReportSpec \<Rightarrow> string \<Rightarrow>
   Notification \<Rightarrow> ('n, unit) act option" where
  "deliver nf cleaner resources reportSpec message notification =
     (let when_any = (\<lambda>send. if resources \<noteq> [] then send else act_return ()) in
      case nt_Type notification of
        NotificationTypeCleanerReport \<Rightarrow> Some (createReportInstance nf cleaner reportSpec)
      | NotificationTypeSlack \<Rightarrow>
          Some (when_any (sendSlackNotification nf reportSpec message notification))
      | NotificationTypeWebex \<Rightarrow>
          Some (when_any (sendWebexNotification nf reportSpec message notification))
      | NotificationTypeDiscord \<Rightarrow>
          Some (when_any (sendDiscordNotification nf reportSpec message notification))
      | NotificationTypeTeams \<Rightarrow>
          Some (when_any (sendTeamsNotification nf reportSpec message notification))
      | NotificationTypeTelegram \<Rightarrow>
          Some (when_any (sendTelegramNotification nf reportSpec message notification))
      | NotificationTypeSMTP \<Rightarrow>
          Some (when_any (sendSmtpNotification nf reportSpec message notification))
      | NotificationTypeEvent \<Rightarrow>
          Some (when_any (\<lambda>st. (Inr (), sendKubernetesEventNotification nf cleaner resources st)))
      | OtherNotificationType _ \<Rightarrow> None)"

fun send_loop ::
  "(Notification \<Rightarrow> ('n, unit) act option) \<Rightarrow> Notification list \<Rightarrow> 'n \<Rightarrow> (go_err \<times> 'n) outcome" where
  "send_loop handler [] st = Ok (None, st)"
| "send_loop handler (notification # ns) st =
     (case handler notification of
        None \<Rightarrow> Panic
      | Some send \<Rightarrow>
          (case send st of
             (Inl err, st') \<Rightarrow> Ok (Some err, st')
           | (Inr _, st') \<Rightarrow> send_loop handler ns st'))"

definition notification_message :: "Cleaner \<Rightarrow> string" where
  "notification_message cleaner =
     ''This report has been generated by k8s-cleaner for instance: '' @ cl_Name cleaner"

definition sendNotifications ::
  "('n, 'x) notifier_scheme \<Rightarrow> string \<Rightarrow> ResourceResult list \<Rightarrow> Cleaner \<Rightarrow> 'n \<Rightarrow>
   (go_err \<times> 'n) outcome" where
  "sendNotifications nf now resources cleaner st =
     (let reportSpec =
            (if spec_Notifications (cl_Spec cleaner) \<noteq> [] then generateReportSpec now resources cleaner
             else \<lparr>rep_ResourceInfo = [], rep_Action = OtherAction []\<rparr>)
      in send_loop
           (deliver nf cleaner resources reportSpec (notification_message cleaner))
           (spec_Notifications (cl_Spec cleaner)) st)"

end
