(* ===== verification/Store.thy ===== *)
theory Store
  imports Selection
begin

text \<open>
  Dumping the processed resources to files (\<open>store.go\<close>): the path functions of Go's standard
  library the code uses, the folder of a Cleaner, and the loop that writes one YAML file per
  resource and goes on when one cannot be written.
\<close>

section \<open>Paths\<close>

text \<open>
  \<open>path.Clean\<close> works on the elements between slashes: empty ones and dots are dropped, and a
  double dot removes the element before it, unless there is none to remove.  The stack holds the
  elements kept so far, the last one first.
\<close>

fun clean_elements :: "bool \<Rightarrow> string list \<Rightarrow> string list \<Rightarrow> string list" where
  "clean_elements rooted stack [] = rev stack"
| "clean_elements rooted stack (e # es) =
     (if e = [] \<or> e = ''.'' then clean_elements rooted stack es
      else if e = ''..'' then
        (case stack of
           [] \<Rightarrow> clean_elements rooted (if rooted then [] else [''..'']) es
         | d # ds \<Rightarrow>
             if d = ''..'' then clean_elements rooted (''..'' # stack) es
             else clean_elements rooted ds es)
      else clean_elements rooted (e # stack) es)"

definition render_path :: "bool \<Rightarrow> string list \<Rightarrow> string" where
  "render_path rooted es =
     (if rooted then ''/'' @ intercalate ''/'' es
      else if es = [] then ''.'' else intercalate ''/'' es)"

definition path_Clean :: "string \<Rightarrow> string" where
  "path_Clean p =
     (let rooted = (take 1 p = ''/'')
      in render_path rooted (clean_elements rooted [] (split_at CHR ''/'' p)))"

definition path_Join :: "string list \<Rightarrow> string" where
  "path_Join elems =
     (let es = filter (\<lambda>e. e \<noteq> []) elems
      in if es = [] then [] else path_Clean (intercalate ''/'' es))"

text \<open>\<open>filepath.Dir\<close>: what comes before the last slash, cleaned.\<close>

definition path_Dir :: "string \<Rightarrow> string" where
  "path_Dir p = path_Clean (rev (dropWhile (\<lambda>c. c \<noteq> CHR ''/'') (rev p)))"

section \<open>The file system and the encoder\<close>

text \<open>
  The calls to the operating system on its state \<open>'f\<close>, each with the error it returns, and
  what the code uses of the Kubernetes and YAML libraries.  \<open>fs_statNotExist\<close> gives the error
  of \<open>os.Stat\<close> when \<open>os.IsNotExist\<close> holds of it, the only one the code looks at.
\<close>

record 'f filesystem =
  fs_statNotExist :: "'f \<Rightarrow> string \<Rightarrow> go_err"
  fs_mkdirAll :: "string \<Rightarrow> 'f \<Rightarrow> go_err \<times> 'f"
  fs_openAppend :: "string \<Rightarrow> 'f \<Rightarrow> go_err \<times> 'f"
  fs_writeFile :: "string \<Rightarrow> string \<Rightarrow> 'f \<Rightarrow> go_err \<times> 'f"
  yaml_Marshal :: "gomap \<Rightarrow> go_error + string"
  meta_Accessor :: "unstructured \<Rightarrow> go_err"
  u_SetResourceVersion :: "string \<Rightarrow> unstructured \<Rightarrow> unstructured"
  u_SetGroupVersionKind :: "GroupVersionKind \<Rightarrow> unstructured \<Rightarrow> unstructured"

section \<open>Storing\<close>

definition getFolder ::
  "('f, 'y) filesystem_scheme \<Rightarrow> 'f \<Rightarrow> string \<Rightarrow> string \<Rightarrow> go_error + string" where
  "getFolder fs st storage cleanerName =
     (case fs_statNotExist fs st storage of
        Some err \<Rightarrow> Inl err
      | None \<Rightarrow> Inr (path_Join [storage, cleanerName]))"

definition resourceFilePath :: "string \<Rightarrow> unstructured \<Rightarrow> string" where
  "resourceFilePath logPath u =
     path_Join [logPath, u_namespace u, u_kind u, u_name u @ ''.yaml'']"

text \<open>
  The file is first opened for appending, which creates it, and then written as a whole under its
  name.
\<close>

definition dumpObject ::
  "('f, 'y) filesystem_scheme \<Rightarrow> (unstructured \<Rightarrow> GroupVersionKind list outcome) \<Rightarrow> unstructured \<Rightarrow>
   string \<Rightarrow> 'f \<Rightarrow> (go_err \<times> 'f) outcome" where
  "dumpObject fs objectKinds resource logPath st =
     (let resource1 = u_SetResourceVersion fs [] resource
      in case addTypeInformationToObject (objectKinds resource1) (u_SetGroupVersionKind fs) resource1 of
           Panic \<Rightarrow> Panic
         | Fail e \<Rightarrow> Ok (Some e, st)
         | Ok resource2 \<Rightarrow>
             (case yaml_Marshal fs (u_content resource2) of
                Inl e \<Rightarrow> Ok (Some e, st)
              | Inr resourceYAML \<Rightarrow>
                  if meta_Accessor fs resource2 \<noteq> None then Ok (meta_Accessor fs resource2, st)
                  else
                    let p = resourceFilePath logPath resource2;
                        (err1, st1) = fs_mkdirAll fs (path_Dir p) st
                    in if err1 \<noteq> None then Ok (err1, st1)
                       else
                         let (err2, st2) = fs_openAppend fs p st1
                         in if err2 \<noteq> None then Ok (err2, st2)
                            else Ok (fs_writeFile fs p resourceYAML st2)))"

fun dump_all ::
  "('f, 'y) filesystem_scheme \<Rightarrow> (unstructured \<Rightarrow> GroupVersionKind list outcome) \<Rightarrow>
   ResourceResult list \<Rightarrow> string \<Rightarrow> 'f \<Rightarrow> 'f outcome" where
  "dump_all fs objectKinds [] folder st = Ok st"
| "dump_all fs objectKinds (r # rs) folder st =
     bind_outcome (dumpObject fs objectKinds (rr_Resource r) folder st)
       (\<lambda>(err, st'). dump_all fs objectKinds rs folder st')"

definition storeResources ::
  "('f, 'y) filesystem_scheme \<Rightarrow> (unstructured \<Rightarrow> GroupVersionKind list outcome) \<Rightarrow>
   ResourceResult list \<Rightarrow> Cleaner \<Rightarrow> 'f \<Rightarrow> (go_err \<times> 'f) outcome" where
  "storeResources fs objectKinds processedResources cleaner st =
     (if spec_StoreResourcePath (cl_Spec cleaner) = [] then Ok (None, st)
      else
        case getFolder fs st (spec_StoreResourcePath (cl_Spec cleaner)) (cl_Name cleaner) of
          Inl err \<Rightarrow> Ok (Some err, st)
        | Inr folder \<Rightarrow>
            bind_outcome (dump_all fs objectKinds processedResources folder st)
              (\<lambda>st'. Ok (None, st')))"

end
