(* ===== verification/Executor.thy ===== *)
theory Executor
  imports Actions Notifications Store
begin

text \<open>
  One run of a Cleaner (\<open>processCleanerInstance\<close> of \<open>worker.go\<close>): select, filter, act,
  notify, store.  The API server, the messaging services and the disk are one outside state
  \<open>'w\<close>, so that what an action changes is what the later steps find.
\<close>

record ('w, 'st, 't) deps =
  d_cluster :: "'w cluster"
  d_vm :: "('st, 't) lua_vm"
  d_notifier :: "'w notifier"
  d_disk :: "'w filesystem"
  d_getCleaner :: "string \<Rightarrow> 'w \<Rightarrow> go_error + Cleaner"
  d_now :: "'w \<Rightarrow> string"
  d_zeroTime :: time

text \<open>
  A Cleaner that is not found is no error: the object is then the zero one that was allocated for
  the answer.
\<close>

definition getCleanerInstance ::
  "('w, 'st, 't) deps \<Rightarrow> string \<Rightarrow> 'w \<Rightarrow> Cleaner \<times> go_err" where
  "getCleanerInstance d cleanerName w =
     (case d_getCleaner d cleanerName w of
        Inr cleaner \<Rightarrow> (cleaner, None)
      | Inl e \<Rightarrow> (zero_Cleaner (d_zeroTime d), if isNotFound e then None else Some e))"

definition select_resources ::
  "('w, 'st, 't) deps \<Rightarrow> Cleaner \<Rightarrow> 'w \<Rightarrow> ResourceResult list outcome" where
  "select_resources d cleaner w =
     (let policy = spec_ResourcePolicySet (cl_Spec cleaner) in
      bind_outcome
        (collect_all (getMatchingResources (d_cluster d) (d_vm d) w) (ResourceSelectors policy))
        (\<lambda>resources.
           if AggregatedSelection policy \<noteq> []
           then aggregatedSelection (d_vm d) (AggregatedSelection policy) resources
           else Ok resources))"

definition run_action ::
  "('w, 'st, 't) deps \<Rightarrow> string \<Rightarrow> Cleaner \<Rightarrow> ResourceResult list \<Rightarrow> 'w exec \<Rightarrow>
   (ResourceResult list \<times> go_err \<times> 'w exec) outcome" where
  "run_action d cleanerName cleaner resources s =
     (case spec_Action (cl_Spec cleaner) of
        ActionDelete \<Rightarrow>
          Ok (deleteMatchingResources (d_cluster d) cleanerName resources
            (spec_DeleteOptions (cl_Spec cleaner)) s)
      | ActionTransform \<Rightarrow>
          updateMatchingResources (d_cluster d) (d_vm d) cleanerName resources
            (spec_Transform (cl_Spec cleaner)) s
      | ActionScan \<Rightarrow> Ok (resources, None, printMatchingResources cleanerName resources s)
      | OtherAction _ \<Rightarrow> Ok ([], None, s))"

text \<open>The notifications and the dump, whose errors go before the one of the action.\<close>

definition finish_run ::
  "('w, 'st, 't) deps \<Rightarrow> Cleaner \<Rightarrow> ResourceResult list \<times> go_err \<times> 'w exec \<Rightarrow>
   (go_err \<times> 'w exec) outcome" where
  "finish_run d cleaner = (\<lambda>(processedResources, err, t).
     bind_outcome
       (sendNotifications (d_notifier d) (d_now d (world t)) processedResources cleaner (world t))
       (\<lambda>(sendErr, w1).
          if sendErr \<noteq> None then Ok (sendErr, t\<lparr>world := w1\<rparr>)
          else
            bind_outcome
              (storeResources (d_disk d) (scheme_objectKinds (d_cluster d)) processedResources
                cleaner w1)
              (\<lambda>(storeErr, w2).
                 if storeErr \<noteq> None then Ok (storeErr, t\<lparr>world := w2\<rparr>)
                 else Ok (err, t\<lparr>world := w2\<rparr>))))"

definition processCleanerInstance ::
  "('w, 'st, 't) deps \<Rightarrow> string \<Rightarrow> 'w exec \<Rightarrow> (go_err \<times> 'w exec) outcome" where
  "processCleanerInstance d cleanerName s =
     (case getCleanerInstance d cleanerName (world s) of
        (_, Some err) \<Rightarrow> Ok (Some err, s)
      | (cleaner, None) \<Rightarrow>
          (case select_resources d cleaner (world s) of
             Panic \<Rightarrow> Panic
           | Fail err \<Rightarrow> Ok (Some err, s)
           | Ok resources \<Rightarrow>
               bind_outcome (run_action d cleanerName cleaner resources s)
                 (finish_run d cleaner)))"

end
