(* ===== verification/Batch.thy ===== *)
theory Batch
  imports Actions
begin

text \<open>
  The contract of the three action loops as the locale \<open>batch\<close>: one attempt per resource, in
  order, whose outcome is collected without stopping the loop.  Its lemmas give the shape of the
  result, invariants, counters and totality; it is interpreted on the loops of \<open>Actions\<close>.
\<close>

section \<open>Attempts\<close>

datatype 'r attempt = Done 'r | Gone | Errored go_error

fun done_of :: "'r attempt \<Rightarrow> 'r list" where
  "done_of (Done r) = [r]"
| "done_of _ = []"

fun error_of :: "'r attempt \<Rightarrow> go_error list" where
  "error_of (Errored e) = [e]"
| "error_of _ = []"

inductive attempts ::
  "('r \<Rightarrow> 's \<Rightarrow> ('r attempt \<times> 's) outcome) \<Rightarrow> 'r list \<Rightarrow> 's \<Rightarrow> 'r attempt list \<Rightarrow> 's \<Rightarrow> bool"
  for step where
  attempts_Nil: "attempts step [] s [] s"
| attempts_Cons: "step r s = Ok (a, s') \<Longrightarrow> attempts step rs s' as t \<Longrightarrow>
    attempts step (r # rs) s (a # as) t"

inductive_simps attempts_Nil_iff [simp]: "attempts step [] s as t"
inductive_simps attempts_Cons_iff: "attempts step (r # rs) s as t"

lemma attempts_length: "attempts step rs s as t \<Longrightarrow> length as = length rs"
  by (induction rule: attempts.induct) simp_all

lemma attempts_invariant:
  assumes "attempts step rs s as t" and "I s"
    and "\<And>r s a s'. step r s = Ok (a, s') \<Longrightarrow> I s \<Longrightarrow> I s'"
  shows "I t"
  using assms by (induction rule: attempts.induct) auto

lemma attempts_count:
  fixes f :: "'s \<Rightarrow> nat"
  assumes "attempts step rs s as t"
    and "\<And>r s a s'. step r s = Ok (a, s') \<Longrightarrow> f s' = f s + g r a"
  shows "f t = f s + sum_list (map2 g rs as)"
  using assms by (induction rule: attempts.induct) simp_all

text \<open>The resources an attempt list reports done, when an attempt reports its own resource.\<close>

lemma attempts_done_subseq:
  assumes "attempts step rs s as t"
    and "\<And>r s a s'. step r s = Ok (a, s') \<Longrightarrow> done_of a \<in> {[], [r]}"
  shows "subseq (concat (map done_of as)) rs"
  using assms
proof (induction rule: attempts.induct)
  case (attempts_Nil s)
  then show ?case by simp
next
  case (attempts_Cons r s a s' rs as t)
  then have "done_of a = [] \<or> done_of a = [r]" by blast
  moreover have "subseq (concat (map done_of as)) rs" using attempts_Cons by blast
  ultimately show ?case by auto
qed

text \<open>The resources whose attempt ended in an error.\<close>

definition failed_of :: "'r list \<Rightarrow> 'r attempt list \<Rightarrow> 'r list" where
  "failed_of rs as = map fst (filter (\<lambda>(r, a). error_of a \<noteq> []) (zip rs as))"

lemma failed_of_simps [simp]:
  "failed_of [] as = []"
  "failed_of (r # rs) (a # as) = (if error_of a \<noteq> [] then [r] else []) @ failed_of rs as"
  by (simp_all add: failed_of_def)

lemma failed_of_subseq: "length as = length rs \<Longrightarrow> subseq (failed_of rs as) rs"
  by (induction rs as rule: list_induct2') (auto simp: failed_of_def)

lemma length_failed_of:
  "length as = length rs \<Longrightarrow> length (failed_of rs as) = length (concat (map error_of as))"
proof (induction rs as rule: list_induct2')
  case (4 r rs a as)
  then show ?case by (cases a) simp_all
qed simp_all

section \<open>The contract\<close>

locale batch =
  fixes step :: "'r \<Rightarrow> 's \<Rightarrow> ('r attempt \<times> 's) outcome"
    and loop :: "'r list \<Rightarrow> 's \<Rightarrow> ('r list \<times> go_error list \<times> 's) outcome"
  assumes loop_Nil: "loop [] s = Ok ([], [], s)"
    and loop_Cons: "loop (r # rs) s =
      bind_outcome (step r s) (\<lambda>(a, s').
      bind_outcome (loop rs s') (\<lambda>(ps, es, t). Ok (done_of a @ ps, error_of a @ es, t)))"
begin

lemma loop_iff_attempts:
  "loop rs s = Ok (ps, es, t) \<longleftrightarrow>
   (\<exists>as. attempts step rs s as t \<and> ps = concat (map done_of as) \<and> es = concat (map error_of as))"
proof (induction rs arbitrary: s ps es)
  case Nil
  then show ?case by (auto simp: loop_Nil)
next
  case (Cons r rs)
  show ?case
  proof
    assume "loop (r # rs) s = Ok (ps, es, t)"
    then obtain a s' ps' es' where 1: "step r s = Ok (a, s')" "loop rs s' = Ok (ps', es', t)"
      "ps = done_of a @ ps'" "es = error_of a @ es'"
      by (auto simp: loop_Cons)
    then obtain as where "attempts step rs s' as t" "ps' = concat (map done_of as)"
      "es' = concat (map error_of as)" using Cons.IH by blast
    with 1 show "\<exists>as. attempts step (r # rs) s as t \<and> ps = concat (map done_of as) \<and>
        es = concat (map error_of as)"
      by (intro exI [of _ "a # as"]) (simp add: attempts_Cons)
  next
    assume "\<exists>as. attempts step (r # rs) s as t \<and> ps = concat (map done_of as) \<and>
        es = concat (map error_of as)"
    then obtain a s' as where "step r s = Ok (a, s')" "attempts step rs s' as t"
      "ps = done_of a @ concat (map done_of as)" "es = error_of a @ concat (map error_of as)"
      by (auto simp: attempts_Cons_iff)
    moreover from this have "loop rs s' =
        Ok (concat (map done_of as), concat (map error_of as), t)" using Cons.IH by blast
    ultimately show "loop (r # rs) s = Ok (ps, es, t)" by (simp add: loop_Cons)
  qed
qed

lemma loop_attempts:
  assumes "loop rs s = Ok (ps, es, t)"
  obtains as where "attempts step rs s as t" "length as = length rs"
    "ps = concat (map done_of as)" "es = concat (map error_of as)"
  using assms loop_iff_attempts attempts_length by metis

text \<open>A batch returns when every attempt does.\<close>

lemma loop_returns:
  assumes "\<And>r s. r \<in> set rs \<Longrightarrow> \<exists>a s'. step r s = Ok (a, s')"
  shows "\<exists>ps es t. loop rs s = Ok (ps, es, t)"
  using assms
proof (induction rs arbitrary: s)
  case Nil
  then show ?case by (simp add: loop_Nil)
next
  case (Cons r rs)
  obtain a s' where a: "step r s = Ok (a, s')" using Cons.prems [of r s] by auto
  obtain ps es t where "loop rs s' = Ok (ps, es, t)" using Cons by fastforce
  with a show ?case by (simp add: loop_Cons)
qed

lemma loop_append:
  "loop (rs @ qs) s =
   bind_outcome (loop rs s) (\<lambda>(ps, es, s').
   bind_outcome (loop qs s') (\<lambda>(ps', es', t). Ok (ps @ ps', es @ es', t)))"
proof (induction rs arbitrary: s)
  case Nil
  then show ?case by (cases "loop qs s") (auto simp: loop_Nil)
next
  case (Cons r rs)
  show ?case
  proof (cases "step r s")
    case (Ok x)
    obtain a s' where [simp]: "x = (a, s')" by (cases x)
    show ?thesis
    proof (cases "loop rs s'")
      case (Ok y)
      obtain ps es s'' where [simp]: "y = (ps, es, s'')" by (cases y)
      show ?thesis using \<open>step r s = Ok x\<close> Ok Cons.IH [of s']
        by (cases "loop qs s''") (auto simp: loop_Cons)
    qed (use \<open>step r s = Ok x\<close> Cons.IH [of s'] in \<open>simp_all add: loop_Cons\<close>)
  qed (simp_all add: loop_Cons)
qed

end

section \<open>The three loops are batches\<close>

definition delete_step ::
  "('w, 'x) cluster_scheme \<Rightarrow> string \<Rightarrow> DeleteOptions option \<Rightarrow> ResourceResult \<Rightarrow> 'w exec \<Rightarrow>
   (ResourceResult attempt \<times> 'w exec) outcome" where
  "delete_step cl cleanerName deleteOptions resource s =
     (case api_delete cl (world s) (rr_Resource resource) (delete_options deleteOptions) of
        (None, w') \<Rightarrow>
          Ok (Done resource, count_event reportDeletionEvent cleanerName resource (s\<lparr>world := w'\<rparr>))
      | (Some e, w') \<Rightarrow>
          if isNotFound e then Ok (Gone, s\<lparr>world := w'\<rparr>)
          else Ok (Errored e,
                 count_event reportErrorEvent cleanerName resource (s\<lparr>world := w'\<rparr>)))"

definition update_step ::
  "('w, 'x) cluster_scheme \<Rightarrow> ('st, 't) lua_vm \<Rightarrow> string \<Rightarrow> string \<Rightarrow> ResourceResult \<Rightarrow> 'w exec \<Rightarrow>
   (ResourceResult attempt \<times> 'w exec) outcome" where
  "update_step cl vm cleanerName script resource s =
     (case transform vm (rr_Resource resource) script of
        Panic \<Rightarrow> Panic
      | Fail e \<Rightarrow> Ok (Errored e, count_event reportErrorEvent cleanerName resource s)
      | Ok u \<Rightarrow>
          (case api_update cl (world s) u of
             None \<Rightarrow> Panic
           | Some (Some e, _, w') \<Rightarrow>
               Ok (Errored e,
                 count_event reportErrorEvent cleanerName resource (s\<lparr>world := w'\<rparr>))
           | Some (None, answer, w') \<Rightarrow>
               let r = (if script = [] then resource\<lparr>rr_Resource := answer\<rparr> else resource)
               in Ok (Done r, count_event reportUpdateEvent cleanerName r (s\<lparr>world := w'\<rparr>))))"

definition scan_step ::
  "string \<Rightarrow> ResourceResult \<Rightarrow> 'w exec \<Rightarrow> (ResourceResult attempt \<times> 'w exec) outcome" where
  "scan_step cleanerName resource s =
     Ok (Done resource, count_event reportScanEvent cleanerName resource s)"

interpretation deletes: batch "delete_step cl cleanerName opts"
    "\<lambda>rs s. Ok (delete_loop cl cleanerName opts rs s)"
  for cl :: "('w, 'x) cluster_scheme" and cleanerName opts
  by unfold_locales
    (auto simp: delete_step_def Let_def split: prod.splits option.splits)

interpretation updates: batch "update_step cl vm cleanerName script"
    "update_loop cl vm cleanerName script"
  for cl :: "('w, 'x) cluster_scheme" and vm :: "('st, 't) lua_vm" and cleanerName script
  by unfold_locales
    (auto simp: update_step_def Let_def split: outcome.split option.split prod.split)

interpretation scans: batch "scan_step cleanerName"
    "\<lambda>rs s. Ok (rs, [], printMatchingResources cleanerName rs s)"
  for cleanerName
  by unfold_locales (simp_all add: scan_step_def)

end
