(* ===== verification/Selection_Properties.thy ===== *)
theory Selection_Properties
  imports Selection
begin

text \<open>
  What \<open>worker.go\<close> selects: the label selector string against a reader of the selector syntax,
  the namespaces a selector stands for, where the fetched resources come from, and the filter of
  \<open>getMatchingResources\<close>.  A small cluster, whose state is its namespaces and objects,
  shows that the assumptions on the API server can hold.
\<close>

section \<open>The label selector string\<close>

text \<open>A reader of the label selector syntax of Kubernetes, as far as the filters use it.\<close>

definition plain_char :: "char \<Rightarrow> bool" where
  "plain_char c \<longleftrightarrow> c \<noteq> CHR '','' \<and> c \<noteq> CHR ''!'' \<and> c \<noteq> CHR ''=''"

definition parse_requirement :: "string \<Rightarrow> LabelFilter" where
  "parse_requirement s =
     (if take 1 s = ''!'' then \<lparr>lf_Key = drop 1 s, lf_Operation = OperationDoesNotHave, lf_Value = []\<rparr>
      else
        let key = takeWhile plain_char s; rest = dropWhile plain_char s
        in if take 2 rest = ''!='' then
             \<lparr>lf_Key = key, lf_Operation = OperationDifferent, lf_Value = drop 2 rest\<rparr>
           else if take 1 rest = ''='' then
             \<lparr>lf_Key = key, lf_Operation = OperationEqual, lf_Value = drop 1 rest\<rparr>
           else \<lparr>lf_Key = key, lf_Operation = OperationHas, lf_Value = []\<rparr>)"

definition parse_selector :: "string \<Rightarrow> LabelFilter list" where
  "parse_selector s = (if s = [] then [] else map parse_requirement (split_at CHR '','' s))"

definition wf_filter :: "LabelFilter \<Rightarrow> bool" where
  "wf_filter f \<longleftrightarrow>
     lf_Key f \<noteq> [] \<and> list_all plain_char (lf_Key f) \<and> list_all plain_char (lf_Value f) \<and>
     lf_Operation f \<in> {OperationEqual, OperationDifferent, OperationHas, OperationDoesNotHave}"

text \<open>The value of a filter on the presence of a key is not used.\<close>

definition normal_filter :: "LabelFilter \<Rightarrow> LabelFilter" where
  "normal_filter f =
     (if lf_Operation f \<in> {OperationHas, OperationDoesNotHave} then f\<lparr>lf_Value := []\<rparr> else f)"

lemma takeWhile_plain:
  "list_all plain_char k \<Longrightarrow> takeWhile plain_char (k @ rest) = k @ takeWhile plain_char rest"
  "list_all plain_char k \<Longrightarrow> dropWhile plain_char (k @ rest) = dropWhile plain_char rest"
  by (auto simp: list_all_iff intro: takeWhile_append2 dropWhile_append2)

lemma plain_key_head: "list_all plain_char k \<Longrightarrow> k \<noteq> [] \<Longrightarrow> take 1 (k @ r) \<noteq> ''!''"
  by (cases k) (auto simp: plain_char_def)

declare render_filter.simps [simp del]

lemma parse_not_bang:
  assumes "list_all plain_char k" "k \<noteq> []"
  shows "parse_requirement k = \<lparr>lf_Key = k, lf_Operation = OperationHas, lf_Value = []\<rparr>"
    and "parse_requirement (k @ ''='' @ v) =
      \<lparr>lf_Key = k, lf_Operation = OperationEqual, lf_Value = v\<rparr>"
    and "parse_requirement (k @ ''!='' @ v) =
      \<lparr>lf_Key = k, lf_Operation = OperationDifferent, lf_Value = v\<rparr>"
proof -
  note head = plain_key_head [OF assms]
  note pre = takeWhile_plain [OF assms(1)]
  show "parse_requirement k = \<lparr>lf_Key = k, lf_Operation = OperationHas, lf_Value = []\<rparr>"
    using head [of "[]"] assms(1)
    by (simp add: parse_requirement_def Let_def list_all_iff takeWhile_eq_all_conv [THEN iffD2]
        dropWhile_eq_Nil_conv [THEN iffD2])
  show "parse_requirement (k @ ''='' @ v) =
      \<lparr>lf_Key = k, lf_Operation = OperationEqual, lf_Value = v\<rparr>"
    using head [of "''='' @ v"] pre [of "''='' @ v"]
    by (simp add: parse_requirement_def plain_char_def numeral_2_eq_2)
  show "parse_requirement (k @ ''!='' @ v) =
      \<lparr>lf_Key = k, lf_Operation = OperationDifferent, lf_Value = v\<rparr>"
    using head [of "''!='' @ v"] pre [of "''!='' @ v"]
    by (simp add: parse_requirement_def plain_char_def numeral_2_eq_2)
qed

lemma parse_render:
  assumes "wf_filter f"
  shows "parse_requirement (render_filter f) = normal_filter f"
proof -
  have key: "list_all plain_char (lf_Key f)" "lf_Key f \<noteq> []"
    using assms by (auto simp: wf_filter_def)
  note parse = parse_not_bang [OF key]
  show ?thesis
  proof (cases "lf_Operation f")
    case OperationDoesNotHave
    then show ?thesis
      by (cases f) (simp add: render_filter.simps normal_filter_def parse_requirement_def)
  next
    case (OtherOperation x)
    then show ?thesis using assms by (simp add: wf_filter_def)
  qed (cases f; use parse in \<open>simp add: render_filter.simps normal_filter_def\<close>)+
qed

lemma render_no_comma: "wf_filter f \<Longrightarrow> CHR '','' \<notin> set (render_filter f)"
  by (cases "lf_Operation f") (auto simp: render_filter.simps wf_filter_def plain_char_def list_all_iff)

lemma render_nonempty: "wf_filter f \<Longrightarrow> render_filter f \<noteq> []"
  by (cases "lf_Operation f") (auto simp: render_filter.simps wf_filter_def)

lemma addLabelFilters_loop_nonempty:
  "s \<noteq> [] \<Longrightarrow> addLabelFilters_loop s fs =
   s @ concat (map (\<lambda>f. '','' @ render_filter f) fs)"
  by (induction fs arbitrary: s) simp_all

lemma addLabelFilters_eq:
  "addLabelFilters fs = intercalate '','' (dropWhile (\<lambda>s. s = []) (map render_filter fs))"
proof -
  have "addLabelFilters_loop [] fs =
      intercalate '','' (dropWhile (\<lambda>s. s = []) (map render_filter fs))"
  proof (induction fs)
    case Nil
    then show ?case by simp
  next
    case (Cons f fs)
    then show ?case
      by (cases "render_filter f = []") (simp_all add: addLabelFilters_loop_nonempty intercalate_eq_concat comp_def)
  qed
  then show ?thesis by (simp add: addLabelFilters_def)
qed

text \<open>
  C22. The selector string built from well-formed label filters says exactly what the filters say:
  reading it gives the filters back, in order, for the four operations of the API.
\<close>

theorem label_selector_roundtrip:
  assumes "list_all wf_filter fs"
  shows "parse_selector (addLabelFilters fs) = map normal_filter fs"
proof (cases fs)
  case Nil
  then show ?thesis by (simp add: addLabelFilters_eq parse_selector_def)
next
  case (Cons f gs)
  let ?xs = "map render_filter fs"
  have wf: "\<forall>g \<in> set fs. wf_filter g" using assms by (simp add: list_all_iff)
  then have ne: "render_filter f \<noteq> []" using Cons render_nonempty by simp
  then have sel: "addLabelFilters fs = intercalate '','' ?xs"
    using Cons by (simp add: addLabelFilters_eq)
  have "split_at CHR '','' (intercalate '','' ?xs) = ?xs"
    using Cons wf render_no_comma by (intro split_at_intercalate) auto
  moreover have "intercalate '','' ?xs \<noteq> []"
    using Cons ne by (simp add: intercalate_eq_concat)
  moreover have "map parse_requirement ?xs = map normal_filter fs"
    using wf parse_render by simp
  ultimately show ?thesis by (simp add: parse_selector_def sel)
qed

definition example_filters :: "LabelFilter list" where
  "example_filters =
     [\<lparr>lf_Key = ''app'', lf_Operation = OperationEqual, lf_Value = ''web''\<rparr>,
      \<lparr>lf_Key = ''keep'', lf_Operation = OperationDoesNotHave, lf_Value = []\<rparr>,
      \<lparr>lf_Key = ''env'', lf_Operation = OperationDifferent, lf_Value = ''prod''\<rparr>]"

theorem label_selector_roundtrip_witness:
  "addLabelFilters example_filters = ''app=web,!keep,env!=prod'' \<and>
   parse_selector (addLabelFilters example_filters) = example_filters"
proof -
  have "list_all wf_filter example_filters" by code_simp
  moreover have "map normal_filter example_filters = example_filters" by code_simp
  moreover have "addLabelFilters example_filters = ''app=web,!keep,env!=prod''" by code_simp
  ultimately show ?thesis using label_selector_roundtrip [of example_filters] by simp
qed

section \<open>The namespaces\<close>

text \<open>The namespaces a selector may stand for, in the order the API server lists them.\<close>

definition live_matching :: "((string \<times> string) list \<Rightarrow> bool) \<Rightarrow> Namespace list \<Rightarrow> string list" where
  "live_matching sel nss =
     map ns_Name (filter (\<lambda>ns. ns_DeletionTimestamp ns = None \<and> sel (ns_Labels ns)) nss)"

lemma addTypeInformation_id [simp]:
  "addTypeInformationToObject kinds (\<lambda>_ n. n) obj =
   (case kinds of Ok _ \<Rightarrow> Ok obj | Fail e \<Rightarrow> Fail e | Panic \<Rightarrow> Panic)"
  by (cases kinds) (auto simp: addTypeInformationToObject_def split: option.split)

lemma matching_namespaces_Ok:
  "scheme_namespaceKinds cl = Ok gvks \<Longrightarrow>
   matching_namespaces cl sel nss = Ok (live_matching sel nss)"
  by (induction nss) (simp_all add: live_matching_def)

lemma getNamespaces_selector:
  assumes "rs_NamespaceSelector sr \<noteq> []"
    and "labels_Parse cl (rs_NamespaceSelector sr) = Ok sel"
    and "api_listNamespaces cl w = Ok nss"
    and "scheme_namespaceKinds cl = Ok gvks"
  shows "getNamespaces cl w sr =
    Ok (live_matching sel nss @
        (if rs_Namespace sr \<noteq> [] \<and> rs_Namespace sr \<notin> set (live_matching sel nss)
         then [rs_Namespace sr] else []))"
  using assms by (simp add: getNamespaces_def matching_namespaces_Ok)

lemma getNamespaces_plain:
  "rs_NamespaceSelector sr = [] \<Longrightarrow>
   getNamespaces cl w sr = Ok (if rs_Namespace sr \<noteq> [] then [rs_Namespace sr] else [])"
  by (simp add: getNamespaces_def)

section \<open>A cluster to evaluate the model on\<close>

record ref_world =
  w_namespaces :: "Namespace list"
  w_objects :: "unstructured list"

definition field_namespace :: "string \<Rightarrow> string" where
  "field_namespace s = drop (length ''metadata.namespace='') s"

definition ref_reader :: "'x ref_world_scheme cluster_reader" where
  "ref_reader =
     \<lparr>api_discover = (\<lambda>w. Ok (\<lambda>gvk. if gvk_Kind gvk = ''Pod'' then Mapping ''pods'' else NoMatch)),
      api_listNamespaces = (\<lambda>w. Ok (w_namespaces w)),
      api_list = (\<lambda>w gvr options. Ok (filter (\<lambda>u. u_kind u = ''Pod'' \<and>
        (FieldSelector options = [] \<or> u_namespace u = field_namespace (FieldSelector options)))
        (w_objects w))),
      labels_Parse = (\<lambda>s. Ok (\<lambda>ls. (''team'', s) \<in> set ls)),
      scheme_namespaceKinds = Ok [],
      scheme_objectKinds = (\<lambda>_. Ok [])\<rparr>"

definition example_pod :: "string \<Rightarrow> string \<Rightarrow> unstructured" where
  "example_pod ns name =
     \<lparr>u_apiVersion = ''v1'', u_kind = ''Pod'', u_namespace = ns, u_name = name,
      u_deletionTimestamp = None, u_resourceVersion = ''7'', u_content = []\<rparr>"

definition example_world :: ref_world where
  "example_world =
     \<lparr>w_namespaces =
        [\<lparr>ns_Name = ''a'', ns_DeletionTimestamp = None, ns_Labels = [(''team'', ''x'')]\<rparr>,
         \<lparr>ns_Name = ''b'', ns_DeletionTimestamp = Some 5, ns_Labels = [(''team'', ''x'')]\<rparr>,
         \<lparr>ns_Name = ''c'', ns_DeletionTimestamp = None, ns_Labels = [(''team'', ''y'')]\<rparr>],
      w_objects = [example_pod ''a'' ''p1'', example_pod ''b'' ''p2'', example_pod ''c'' ''p3'']\<rparr>"

definition example_selector :: ResourceSelector where
  "example_selector =
     \<lparr>rs_Namespace = [], rs_NamespaceSelector = ''x'', rs_Group = [], rs_Version = ''v1'',
      rs_Kind = ''Pod'', rs_LabelFilters = [], rs_Evaluate = [], rs_ExcludeDeleted = False\<rparr>"

text \<open>
  C23. A selector with a namespace selector stands for the live namespaces it matches and the
  namespace it names, each once: no namespace is considered twice, none that is being deleted is
  considered on its labels, and the named one is considered in any case.
\<close>

theorem namespaces_exact:
  assumes "labels_Parse cl (rs_NamespaceSelector sr) = Ok sel"
    and "api_listNamespaces cl w = Ok nss"
    and "scheme_namespaceKinds cl = Ok gvks"
    and "distinct (map ns_Name nss)"
  shows "\<exists>names. getNamespaces cl w sr = Ok names \<and> distinct names \<and>
    set names =
      (if rs_NamespaceSelector sr = [] then {}
       else ns_Name ` {ns \<in> set nss. ns_DeletionTimestamp ns = None \<and> sel (ns_Labels ns)})
      \<union> (if rs_Namespace sr = [] then {} else {rs_Namespace sr})"
proof (cases "rs_NamespaceSelector sr = []")
  case True
  then show ?thesis by (auto simp: getNamespaces_plain)
next
  case False
  have "distinct (live_matching sel nss)"
    using assms(4) by (simp add: live_matching_def distinct_map_filter)
  moreover have "set (live_matching sel nss) =
      ns_Name ` {ns \<in> set nss. ns_DeletionTimestamp ns = None \<and> sel (ns_Labels ns)}"
    by (simp add: live_matching_def)
  ultimately show ?thesis using getNamespaces_selector [OF False assms(1-3)] False by auto
qed

theorem namespaces_exact_witness:
  "\<exists>names. getNamespaces ref_reader example_world (example_selector\<lparr>rs_Namespace := ''d''\<rparr>) = Ok names \<and>
     distinct names \<and> set names = {''a'', ''d''}"
proof -
  let ?sr = "example_selector\<lparr>rs_Namespace := ''d''\<rparr>"
  have "labels_Parse ref_reader (rs_NamespaceSelector ?sr) = Ok (\<lambda>ls. (''team'', ''x'') \<in> set ls)"
    "api_listNamespaces ref_reader example_world = Ok (w_namespaces example_world)"
    "scheme_namespaceKinds ref_reader = Ok []"
    "distinct (map ns_Name (w_namespaces example_world))"
    by (simp_all add: ref_reader_def example_selector_def example_world_def)
  from namespaces_exact [OF this] show ?thesis
    by (simp only: set_filter [symmetric])
      (simp add: example_selector_def example_world_def insert_commute)
qed

section \<open>What is fetched\<close>

text \<open>
  What the code expects of a listing with a namespace in its field selector: the objects of that
  namespace among those the same listing returns without one.
\<close>

definition lists_by_namespace ::
  "('w, 'x) cluster_reader_scheme \<Rightarrow> 'w \<Rightarrow> GroupVersionResource \<Rightarrow> bool" where
  "lists_by_namespace cl w gvr \<longleftrightarrow>
     (\<forall>ls all ns. api_list cl w gvr \<lparr>LabelSelector = ls, FieldSelector = []\<rparr> = Ok all \<longrightarrow>
        api_list cl w gvr \<lparr>LabelSelector = ls, FieldSelector = ''metadata.namespace='' @ ns\<rparr> =
          Ok (filter (\<lambda>u. u_namespace u = ns) all))"

definition selector_gvk :: "ResourceSelector \<Rightarrow> GroupVersionKind" where
  "selector_gvk sr = \<lparr>gvk_Group = rs_Group sr, gvk_Version = rs_Version sr, gvk_Kind = rs_Kind sr\<rparr>"

definition selector_gvr :: "ResourceSelector \<Rightarrow> string \<Rightarrow> GroupVersionResource" where
  "selector_gvr sr r =
     \<lparr>gvr_Group = rs_Group sr, gvr_Version = rs_Version sr, gvr_Resource = r\<rparr>"

definition everywhere :: "ResourceSelector \<Rightarrow> ListOptions" where
  "everywhere sr = \<lparr>LabelSelector = addLabelFilters (rs_LabelFilters sr), FieldSelector = []\<rparr>"

lemma addLabelFilters_Nil [simp]: "addLabelFilters [] = []"
  by (simp add: addLabelFilters_def)

lemma fetchResources_mapped:
  assumes "api_discover cl w = Ok mapper" "mapper (selector_gvk sr) = Mapping r"
    and "getNamespaces cl w sr = Ok names"
  shows "fetchResources cl w sr =
    bind_outcome
      (if names = [] then api_list cl w (selector_gvr sr r) (everywhere sr)
       else collect_all (\<lambda>ns. api_list cl w (selector_gvr sr r)
              ((everywhere sr)\<lparr>FieldSelector := ''metadata.namespace='' @ ns\<rparr>)) names)
      (\<lambda>us. Ok (Some us))"
  using assms
  by (auto simp: fetchResources_def selector_gvk_def selector_gvr_def everywhere_def
      collectFromNamespaces_def collectWithOptions_def Let_def)

lemma mset_by_namespace:
  "distinct names \<Longrightarrow>
   mset (concat (map (\<lambda>ns. filter (\<lambda>u. f u = ns) all) names)) =
   filter_mset (\<lambda>u. f u \<in> set names) (mset all)"
proof (induction names)
  case Nil
  then show ?case by simp
next
  case (Cons n names)
  have "filter_mset (\<lambda>u. f u = n \<or> f u \<in> set names) (mset all) =
      filter_mset (\<lambda>u. f u = n) (mset all) + filter_mset (\<lambda>u. f u \<in> set names) (mset all)"
    using Cons.prems by (intro multiset_eqI) auto
  then show ?case using Cons by simp
qed

text \<open>
  C9. The resources fetched are, each once, those of the kind and labels of the selector that lie in
  the namespaces it stands for, and those of every namespace when it stands for none.
\<close>

theorem fetched_exactly:
  assumes "api_discover cl w = Ok mapper" and "mapper (selector_gvk sr) = Mapping r"
    and "lists_by_namespace cl w (selector_gvr sr r)"
    and "api_list cl w (selector_gvr sr r) (everywhere sr) = Ok all"
    and "getNamespaces cl w sr = Ok names" and "distinct names"
  shows "\<exists>us. fetchResources cl w sr = Ok (Some us) \<and>
    mset us = filter_mset (\<lambda>u. names = [] \<or> u_namespace u \<in> set names) (mset all)"
proof (cases "names = []")
  case True
  then show ?thesis using fetchResources_mapped [OF assms(1,2,5)] assms(4) by simp
next
  case False
  have "api_list cl w (selector_gvr sr r)
      ((everywhere sr)\<lparr>FieldSelector := ''metadata.namespace='' @ ns\<rparr>) =
      Ok (filter (\<lambda>u. u_namespace u = ns) all)" for ns
    using assms(3,4) by (simp add: lists_by_namespace_def everywhere_def)
  then have "collect_all (\<lambda>ns. api_list cl w (selector_gvr sr r)
      ((everywhere sr)\<lparr>FieldSelector := ''metadata.namespace='' @ ns\<rparr>)) names =
      Ok (concat (map (\<lambda>ns. filter (\<lambda>u. u_namespace u = ns) all) names))"
    by (intro collect_all_Ok_map) simp
  then show ?thesis
    using fetchResources_mapped [OF assms(1,2,5)] False mset_by_namespace [OF assms(6)] by simp
qed

lemma ref_reader_lists: "lists_by_namespace ref_reader w gvr"
  by (auto simp: lists_by_namespace_def ref_reader_def field_namespace_def
      intro!: filter_cong)

lemma ref_reader_mapping:
  "api_discover ref_reader w =
     Ok (\<lambda>gvk. if gvk_Kind gvk = ''Pod'' then Mapping ''pods'' else NoMatch)"
  by (simp add: ref_reader_def)

lemma example_selector_pods:
  "(\<lambda>gvk. if gvk_Kind gvk = ''Pod'' then Mapping ''pods'' else NoMatch)
     (selector_gvk (example_selector\<lparr>rs_NamespaceSelector := s\<rparr>)) = Mapping ''pods''"
  by (simp add: selector_gvk_def example_selector_def)

lemma example_pods:
  "api_list ref_reader example_world gvr (everywhere (example_selector\<lparr>rs_NamespaceSelector := s\<rparr>)) =
     Ok [example_pod ''a'' ''p1'', example_pod ''b'' ''p2'', example_pod ''c'' ''p3'']"
  by (simp add: ref_reader_def everywhere_def example_selector_def example_world_def
      example_pod_def)

lemma example_namespaces:
  "getNamespaces ref_reader example_world (example_selector\<lparr>rs_NamespaceSelector := ''x''\<rparr>) =
     Ok [''a'']"
  by (simp add: getNamespaces_def ref_reader_def example_selector_def example_world_def)

theorem fetched_exactly_witness:
  "\<exists>us. fetchResources ref_reader example_world (example_selector\<lparr>rs_NamespaceSelector := ''x''\<rparr>) =
     Ok (Some us) \<and> mset us = {#example_pod ''a'' ''p1''#}"
  using fetched_exactly [OF ref_reader_mapping example_selector_pods ref_reader_lists
      example_pods example_namespaces]
  by (simp add: example_pod_def)



section \<open>The filter\<close>

text \<open>What the code decides about one resource: excluded, or what its script says.\<close>

definition verdict ::
  "('st, 't) lua_vm \<Rightarrow> ResourceSelector \<Rightarrow> unstructured \<Rightarrow> (bool \<times> string) outcome" where
  "verdict vm sr u =
     (if rs_ExcludeDeleted sr \<and> u_deletionTimestamp u \<noteq> None then Ok (False, [])
      else isMatch vm u (rs_Evaluate sr))"

lemma match_resource_verdict:
  "match_resource vm sr u =
   bind_outcome (verdict vm sr u)
     (\<lambda>(b, msg). Ok (if b then [\<lparr>rr_Resource = u, rr_Message = msg\<rparr>] else []))"
  by (cases "rs_ExcludeDeleted sr \<and> u_deletionTimestamp u \<noteq> None")
    (simp_all only: match_resource_def verdict_def simp_thms if_True if_False
        bind_outcome.simps prod.case)

text \<open>
  C10. The call succeeds exactly when the script gives a verdict on every fetched resource that is
  not excluded, and then returns, in the order of the listing and with the script's message, the
  resources with a positive verdict; without a script that is every resource not excluded.
\<close>

theorem matching_is_filter:
  assumes "fetchResources cl w sr = Ok (Some us)"
  shows "getMatchingResources cl vm w sr = Ok rs \<longleftrightarrow>
    (\<forall>u \<in> set us. \<exists>v. verdict vm sr u = Ok v) \<and>
    rs = map (\<lambda>u. \<lparr>rr_Resource = u, rr_Message = snd (the_ok (verdict vm sr u))\<rparr>)
           (filter (\<lambda>u. fst (the_ok (verdict vm sr u))) us)"
proof -
  have all: "(\<exists>zs. match_resource vm sr u = Ok zs) \<longleftrightarrow> (\<exists>v. verdict vm sr u = Ok v)" for u
    by (cases "verdict vm sr u") (auto simp: match_resource_verdict split: prod.splits)
  have val: "the_ok (match_resource vm sr u) =
      (if fst (the_ok (verdict vm sr u))
       then [\<lparr>rr_Resource = u, rr_Message = snd (the_ok (verdict vm sr u))\<rparr>] else [])"
    if "\<exists>v. verdict vm sr u = Ok v" for u
    using that by (auto simp: match_resource_verdict split: prod.splits)
  have "concat (map (\<lambda>u. the_ok (match_resource vm sr u)) us) =
      map (\<lambda>u. \<lparr>rr_Resource = u, rr_Message = snd (the_ok (verdict vm sr u))\<rparr>)
        (filter (\<lambda>u. fst (the_ok (verdict vm sr u))) us)"
    if "\<forall>u \<in> set us. \<exists>v. verdict vm sr u = Ok v"
    using that by (induction us) (simp_all add: val)
  then show ?thesis
    using assms by (auto simp: getMatchingResources_def collect_all_Ok_value all)
qed

lemma verdict_no_script:
  "rs_Evaluate sr = [] \<Longrightarrow>
   verdict vm sr u = Ok (\<not> (rs_ExcludeDeleted sr \<and> u_deletionTimestamp u \<noteq> None), [])"
  by (simp add: verdict_def isMatch_def)

theorem matching_is_filter_witness:
  "getMatchingResources ref_reader example_vm example_world
     (example_selector\<lparr>rs_NamespaceSelector := ''x''\<rparr>) =
   Ok [\<lparr>rr_Resource = example_pod ''a'' ''p1'', rr_Message = []\<rparr>]"
proof -
  let ?sr = "example_selector\<lparr>rs_NamespaceSelector := ''x''\<rparr>"
  have "fetchResources ref_reader example_world ?sr = Ok (Some [example_pod ''a'' ''p1''])"
    using fetchResources_mapped [OF ref_reader_mapping example_selector_pods example_namespaces]
    by (simp add: ref_reader_def example_world_def field_namespace_def example_pod_def)
  moreover have "rs_Evaluate ?sr = []" by (simp add: example_selector_def)
  ultimately show ?thesis
    by (simp add: matching_is_filter verdict_no_script example_pod_def exI [of _ True])
qed

end
