(* ===== verification/Action_Properties.thy ===== *)
theory Action_Properties
  imports Batch Selection_Properties
begin

text \<open>
  What the delete, update and scan loops do to the cluster and to the counters, from the lemmas of
  the \<open>batch\<close> contract.
\<close>

section \<open>Counting attempts\<close>

definition metric_of :: "string \<Rightarrow> ResourceResult \<Rightarrow> metric_labels" where
  "metric_of cleanerName r = (cleanerName, u_apiVersion (rr_Resource r), u_kind (rr_Resource r))"

lemma count_done:
  "length as = length rs \<Longrightarrow>
   sum_list (map2 (\<lambda>r a. count_list (map f (done_of a)) l) rs as) =
   count_list (map f (concat (map done_of as))) l"
  by (induction rs as rule: list_induct2') auto

lemma count_failed:
  "length as = length rs \<Longrightarrow>
   sum_list (map2 (\<lambda>r a. count_list (map f (failed_of [r] [a])) l) rs as) =
   count_list (map f (failed_of rs as)) l"
  by (induction rs as rule: list_induct2') auto

lemma attempts_count_done:
  assumes "attempts step rs s as t"
    and "\<And>r s a s'. step r s = Ok (a, s') \<Longrightarrow> f s' = f s + count_list (map h (done_of a)) l"
  shows "f t = f s + count_list (map h (concat (map done_of as))) l"
proof -
  have "f t = f s + sum_list (map2 (\<lambda>r a. count_list (map h (done_of a)) l) rs as)"
    using assms(2) by (intro attempts_count [OF assms(1)])
  then show ?thesis by (simp only: count_done [OF attempts_length [OF assms(1)]])
qed

lemma attempts_count_failed:
  assumes "attempts step rs s as t"
    and "\<And>r s a s'. step r s = Ok (a, s') \<Longrightarrow>
      f s' = f s + count_list (map h (failed_of [r] [a])) l"
  shows "f t = f s + count_list (map h (failed_of rs as)) l"
proof -
  have "f t = f s + sum_list (map2 (\<lambda>r a. count_list (map h (failed_of [r] [a])) l) rs as)"
    using assms(2) by (intro attempts_count [OF assms(1)])
  then show ?thesis by (simp only: count_failed [OF attempts_length [OF assms(1)]])
qed

lemma count_event_simps [simp]:
  "world (count_event report n r s) = world s"
  "deletedResourceCounter (counters (count_event reportDeletionEvent n r s)) l =
     deletedResourceCounter (counters s) l + count_list [metric_of n r] l"
  "deletedResourceCounter (counters (count_event reportUpdateEvent n r s)) l =
     deletedResourceCounter (counters s) l + count_list [metric_of n r] l"
  "deletedResourceCounter (counters (count_event reportErrorEvent n r s)) =
     deletedResourceCounter (counters s)"
  "errorResourceCounter (counters (count_event reportErrorEvent n r s)) l =
     errorResourceCounter (counters s) l + count_list [metric_of n r] l"
  "errorResourceCounter (counters (count_event reportDeletionEvent n r s)) =
     errorResourceCounter (counters s)"
  "errorResourceCounter (counters (count_event reportUpdateEvent n r s)) =
     errorResourceCounter (counters s)"
  "updatedResourceCounter (counters (count_event reportDeletionEvent n r s)) =
     updatedResourceCounter (counters s)"
  "updatedResourceCounter (counters (count_event reportUpdateEvent n r s)) =
     updatedResourceCounter (counters s)"
  "updatedResourceCounter (counters (count_event reportErrorEvent n r s)) =
     updatedResourceCounter (counters s)"
  by (auto simp: count_event_def go_step metric_of_def)

lemma delete_step_counts:
  assumes "delete_step cl n opts r s = Ok (a, s')"
  shows "deletedResourceCounter (counters s') l =
      deletedResourceCounter (counters s) l + count_list (map (metric_of n) (done_of a)) l"
    and "errorResourceCounter (counters s') l =
      errorResourceCounter (counters s) l + count_list (map (metric_of n) (failed_of [r] [a])) l"
    and "done_of a \<in> {[], [r]}"
  using assms by (auto simp: delete_step_def split: prod.splits option.splits if_splits)

lemma update_step_counts:
  assumes "update_step cl vm n script r s = Ok (a, s')"
  shows "deletedResourceCounter (counters s') l =
      deletedResourceCounter (counters s) l + count_list (map (metric_of n) (done_of a)) l"
    and "errorResourceCounter (counters s') l =
      errorResourceCounter (counters s) l + count_list (map (metric_of n) (failed_of [r] [a])) l"
    and "updatedResourceCounter (counters s') = updatedResourceCounter (counters s)"
  using assms
  by (auto simp: update_step_def Let_def split: prod.splits option.splits outcome.splits if_splits)

section \<open>Deletion\<close>

text \<open>
  C24. The deletion counters tell the truth: the counter of deleted resources grows, per label, by
  the resources reported as processed, which are selected resources in their order, and the error
  counter by those whose deletion failed, one for each error joined into the result.
\<close>

theorem deletion_counted:
  "case deleteMatchingResources cl n rs opts s of (ps, err, t) \<Rightarrow>
     \<exists>failed es. subseq ps rs \<and> subseq failed rs \<and> err = join_errors es \<and> length es = length failed \<and>
       (\<forall>l. deletedResourceCounter (counters t) l =
          deletedResourceCounter (counters s) l + count_list (map (metric_of n) ps) l) \<and>
       (\<forall>l. errorResourceCounter (counters t) l =
          errorResourceCounter (counters s) l + count_list (map (metric_of n) failed) l)"
proof -
  obtain ps es t where loop: "delete_loop cl n opts rs s = (ps, es, t)" by (cases "delete_loop cl n opts rs s")
  then obtain as where as: "attempts (delete_step cl n opts) rs s as t" "length as = length rs"
    and ps: "ps = concat (map done_of as)" and es: "es = concat (map error_of as)"
    using deletes.loop_attempts by metis
  have "subseq ps rs"
    using attempts_done_subseq [OF as(1) delete_step_counts(3)] ps by simp
  moreover have "deletedResourceCounter (counters t) l =
      deletedResourceCounter (counters s) l + count_list (map (metric_of n) ps) l" for l
    unfolding ps
    by (rule attempts_count_done [where f = "\<lambda>s. deletedResourceCounter (counters s) l", OF as(1)])
      (rule delete_step_counts(1))
  moreover have "errorResourceCounter (counters t) l =
      errorResourceCounter (counters s) l + count_list (map (metric_of n) (failed_of rs as)) l" for l
    by (rule attempts_count_failed [where f = "\<lambda>s. errorResourceCounter (counters s) l", OF as(1)])
      (rule delete_step_counts(2))
  ultimately show ?thesis
    using failed_of_subseq [OF as(2)] length_failed_of [OF as(2)] es loop
    by (auto simp: deleteMatchingResources_def intro!: exI [of _ "failed_of rs as"] exI [of _ es])
qed

text \<open>
  What the API server documents of a delete call, for the objects that are there and not marked for
  deletion (\<open>live\<close>): success takes the object out of these, at once or by marking it when it has finalizers
  or a grace period; an error leaves it, and says NotFound only when the object is not there.
\<close>

definition obj_id :: "unstructured \<Rightarrow> string \<times> string \<times> string \<times> string" where
  "obj_id u = (u_apiVersion u, u_kind u, u_namespace u, u_name u)"

definition delete_removes ::
  "('w, 'x) cluster_scheme \<Rightarrow> ('w \<Rightarrow> (string \<times> string \<times> string \<times> string) set) \<Rightarrow> bool" where
  "delete_removes cl live \<longleftrightarrow>
     (\<forall>w u opts. case api_delete cl w u opts of
        (None, w') \<Rightarrow> live w' = live w - {obj_id u}
      | (Some e, w') \<Rightarrow> live w' = live w \<and> (isNotFound e \<longrightarrow> obj_id u \<notin> live w))"

definition res_id :: "ResourceResult \<Rightarrow> string \<times> string \<times> string \<times> string" where
  "res_id r = obj_id (rr_Resource r)"

lemma delete_step_live:
  assumes "delete_removes cl live" and "delete_step cl n opts r s = Ok (a, s')"
  shows "live (world s') = live (world s) - res_id ` set (done_of a)"
    and "error_of a = [] \<Longrightarrow> res_id r \<notin> live (world s')"
proof -
  have law: "case api_delete cl (world s) (rr_Resource r) (delete_options opts) of
      (None, w') \<Rightarrow> live w' = live (world s) - {res_id r}
    | (Some e, w') \<Rightarrow> live w' = live (world s) \<and> (isNotFound e \<longrightarrow> res_id r \<notin> live (world s))"
    using assms(1) [unfolded delete_removes_def, THEN spec, THEN spec, THEN spec]
    unfolding res_id_def .
  obtain err w' where api: "api_delete cl (world s) (rr_Resource r) (delete_options opts) = (err, w')"
    by (cases "api_delete cl (world s) (rr_Resource r) (delete_options opts)")
  have "live (world s') = live (world s) - res_id ` set (done_of a) \<and>
      (error_of a = [] \<longrightarrow> res_id r \<notin> live (world s'))"
  proof (cases err)
    case None
    then have "a = Done r" "world s' = w'" using assms(2) api by (auto simp: delete_step_def)
    then show ?thesis using law api None by simp
  next
    case (Some e)
    then have "world s' = w'" "a = (if isNotFound e then Gone else Errored e)"
      using assms(2) api by (auto simp: delete_step_def split: if_splits)
    then show ?thesis using law api Some by simp
  qed
  then show "live (world s') = live (world s) - res_id ` set (done_of a)"
    and "error_of a = [] \<Longrightarrow> res_id r \<notin> live (world s')" by blast+
qed

lemma delete_attempts_live:
  assumes "delete_removes cl live" and "attempts (delete_step cl n opts) rs s as t"
  shows "live (world t) = live (world s) - res_id ` set (concat (map done_of as)) \<and>
    (concat (map error_of as) = [] \<longrightarrow> live (world t) \<inter> res_id ` set rs = {})"
  using assms(2)
proof (induction rule: attempts.induct)
  case (attempts_Nil s)
  then show ?case by simp
next
  case (attempts_Cons r s a s' rs as t)
  note step = delete_step_live [OF assms(1) attempts_Cons.hyps(1)]
  have live: "live (world t) = live (world s') - res_id ` set (concat (map done_of as))"
    and none: "concat (map error_of as) = [] \<Longrightarrow> live (world t) \<inter> res_id ` set rs = {}"
    using attempts_Cons.IH by blast+
  have "live (world t) = live (world s) - res_id ` set (concat (map done_of (a # as)))"
    unfolding live step(1) by (simp add: image_Un Diff_Un Int_Diff) blast
  moreover have "live (world t) \<inter> res_id ` set (r # rs) = {}"
    if "concat (map error_of (a # as)) = []"
  proof -
    have "error_of a = []" "concat (map error_of as) = []" using that by simp_all
    then show ?thesis using none step(2) live by auto
  qed
  ultimately show ?case by blast
qed

lemma delete_effect:
  assumes "delete_removes cl live"
    and "deleteMatchingResources cl n rs opts s = (ps, err, t)"
  shows "subseq ps rs \<and> live (world t) = live (world s) - res_id ` set ps \<and>
    (err = None \<longrightarrow> live (world t) \<inter> res_id ` set rs = {})"
proof -
  obtain es where loop: "delete_loop cl n opts rs s = (ps, es, t)" and err: "err = join_errors es"
    using assms(2) by (auto simp: deleteMatchingResources_def split: prod.splits)
  obtain as where as: "attempts (delete_step cl n opts) rs s as t"
    and "ps = concat (map done_of as)" "es = concat (map error_of as)"
    using loop deletes.loop_attempts by metis
  moreover from this have "subseq ps rs"
    using attempts_done_subseq [OF as delete_step_counts(3)] by simp
  ultimately show ?thesis
    using delete_attempts_live [OF assms(1) as] err by (auto simp: join_errors_def split: if_splits)
qed

text \<open>
  Deleting takes exactly the processed resources out of the cluster, whatever fails on the way;
  and when no error is returned, none of the selected resources is left.
\<close>

theorem deletion_outcome:
  assumes "delete_removes cl live"
    and "deleteMatchingResources cl n rs opts s = (ps, err, t)"
  shows "live (world t) = live (world s) - res_id ` set ps \<and>
    (err = None \<longrightarrow> live (world t) \<inter> res_id ` set rs = {})"
  using delete_effect [OF assms] by blast

text \<open>The cluster of the selection examples, with a delete that refuses one object.\<close>

definition ref_cluster :: "'x ref_world_scheme cluster" where
  "ref_cluster = cluster_reader.extend ref_reader
     \<lparr>api_delete = (\<lambda>w u opts.
        if \<not> list_ex (\<lambda>v. obj_id v = obj_id u) (w_objects w) then (Some (NotFoundError ''gone''), w)
        else if u_name u = ''p2'' then (Some (PlainError ''forbidden''), w)
        else (None, w\<lparr>w_objects := filter (\<lambda>v. obj_id v \<noteq> obj_id u) (w_objects w)\<rparr>)),
      api_update = (\<lambda>w u. case u of None \<Rightarrow> None
        | Some u' \<Rightarrow>
            if u_name u' = ''p2'' then Some (Some (PlainError ''forbidden''), u', w)
            else Some (None, u'\<lparr>u_resourceVersion := ''8''\<rparr>,
              w\<lparr>w_objects := u'\<lparr>u_resourceVersion := ''8''\<rparr> #
                filter (\<lambda>v. obj_id v \<noteq> obj_id u') (w_objects w)\<rparr>))\<rparr>"

definition zero_metrics :: metrics where
  "zero_metrics =
     \<lparr>deletedResourceCounter = (\<lambda>_. 0), updatedResourceCounter = (\<lambda>_. 0),
      scanResourceCounter = (\<lambda>_. 0), errorResourceCounter = (\<lambda>_. 0)\<rparr>"

definition example_exec :: "ref_world exec" where
  "example_exec = \<lparr>world = example_world, counters = zero_metrics\<rparr>"

definition as_result :: "unstructured \<Rightarrow> ResourceResult" where
  "as_result u = \<lparr>rr_Resource = u, rr_Message = []\<rparr>"

lemma ref_cluster_deletes:
  "delete_removes ref_cluster (\<lambda>w. obj_id ` set (w_objects w))"
  by (auto simp: delete_removes_def ref_cluster_def cluster_reader.defs list_ex_iff)

theorem deletion_outcome_witness:
  "(let (ps, err, t) = deleteMatchingResources ref_cluster ''c''
          [as_result (example_pod ''a'' ''p1''), as_result (example_pod ''x'' ''p9'')] None example_exec
    in err = None \<and> obj_id (example_pod ''a'' ''p1'') \<notin> obj_id ` set (w_objects (world t)))"
proof -
  let ?rs = "[as_result (example_pod ''a'' ''p1''), as_result (example_pod ''x'' ''p9'')]"
  obtain ps err t where run: "deleteMatchingResources ref_cluster ''c'' ?rs None example_exec = (ps, err, t)"
    by (cases "deleteMatchingResources ref_cluster ''c'' ?rs None example_exec")
  have "fst (snd (deleteMatchingResources ref_cluster ''c'' ?rs None example_exec)) = None"
    by (simp add: deleteMatchingResources_def ref_cluster_def cluster_reader.defs example_exec_def
        example_world_def example_pod_def as_result_def obj_id_def count_event_def join_errors_def)
  then have "err = None" by (simp add: run)
  moreover have "obj_id (example_pod ''a'' ''p1'') \<in> res_id ` set ?rs"
    by (simp add: res_id_def as_result_def)
  ultimately have "err = None \<and> obj_id (example_pod ''a'' ''p1'') \<notin> obj_id ` set (w_objects (world t))"
    using deletion_outcome [OF ref_cluster_deletes run] by blast
  then show ?thesis by (simp only: run Let_def prod.case simp_thms)
qed

section \<open>Update\<close>

lemma update_run:
  assumes "updateMatchingResources cl vm n rs script s = Ok (ps, err, t)"
  obtains as where "attempts (update_step cl vm n script) rs s as t" "length as = length rs"
    "ps = concat (map done_of as)" "err = join_errors (concat (map error_of as))"
proof -
  obtain es where "update_loop cl vm n script rs s = Ok (ps, es, t)" "err = join_errors es"
    using assms by (auto simp: updateMatchingResources_def)
  then show ?thesis using that updates.loop_attempts by metis
qed

lemma update_counts:
  assumes "updateMatchingResources cl vm n rs script s = Ok (ps, err, t)"
  shows "updatedResourceCounter (counters t) = updatedResourceCounter (counters s)"
    and "deletedResourceCounter (counters t) l =
      deletedResourceCounter (counters s) l + count_list (map (metric_of n) ps) l"
    and "\<exists>failed. subseq failed rs \<and> length failed + length ps = length rs \<and>
      errorResourceCounter (counters t) l =
      errorResourceCounter (counters s) l + count_list (map (metric_of n) failed) l"
proof -
  obtain as where as: "attempts (update_step cl vm n script) rs s as t" "length as = length rs"
    and ps: "ps = concat (map done_of as)"
    using update_run [OF assms] by metis
  show "updatedResourceCounter (counters t) = updatedResourceCounter (counters s)"
    using attempts_invariant [OF as(1), where I = "\<lambda>t. updatedResourceCounter (counters t) =
        updatedResourceCounter (counters s)"] update_step_counts(3) by metis
  show "deletedResourceCounter (counters t) l =
      deletedResourceCounter (counters s) l + count_list (map (metric_of n) ps) l"
    unfolding ps
    by (rule attempts_count_done [where f = "\<lambda>s. deletedResourceCounter (counters s) l", OF as(1)])
      (rule update_step_counts(1))
  have "errorResourceCounter (counters t) l =
      errorResourceCounter (counters s) l + count_list (map (metric_of n) (failed_of rs as)) l"
    by (rule attempts_count_failed [where f = "\<lambda>s. errorResourceCounter (counters s) l", OF as(1)])
      (rule update_step_counts(2))
  moreover have "length (failed_of rs as) + length ps = length rs"
    unfolding ps using as(1)
  proof (induction rule: attempts.induct)
    case (attempts_Cons r s a s' rs as t)
    then have "a \<noteq> Gone"
      by (auto simp: update_step_def Let_def
          split: prod.splits option.splits outcome.splits if_splits)
    with attempts_Cons show ?case by (cases a) simp_all
  qed simp
  ultimately show "\<exists>failed. subseq failed rs \<and> length failed + length ps = length rs \<and>
      errorResourceCounter (counters t) l =
      errorResourceCounter (counters s) l + count_list (map (metric_of n) failed) l"
    using failed_of_subseq [OF as(2)] by blast
qed

text \<open>
  C38. The counter of updated resources never moves: each update is counted as a deletion, since the
  getter of the updated counter returns the one of deleted resources.  Errors are counted right.
\<close>

theorem updates_counted_as_deletions:
  assumes "updateMatchingResources cl vm n rs script s = Ok (ps, err, t)"
  shows "updatedResourceCounter (counters t) = updatedResourceCounter (counters s) \<and>
    deletedResourceCounter (counters t) l =
      deletedResourceCounter (counters s) l + count_list (map (metric_of n) ps) l \<and>
    (\<exists>failed. subseq failed rs \<and> length failed + length ps = length rs \<and>
      errorResourceCounter (counters t) l =
      errorResourceCounter (counters s) l + count_list (map (metric_of n) failed) l)"
  using update_counts [OF assms] by blast

definition after_update ::
  "(ResourceResult list \<times> go_err \<times> ref_world exec) outcome \<Rightarrow> nat \<times> nat" where
  "after_update r =
     (case the_ok r of (_, _, t) \<Rightarrow>
        (updatedResourceCounter (counters t) (''c'', ''v1'', ''Pod''),
         deletedResourceCounter (counters t) (''c'', ''v1'', ''Pod'')))"

theorem updates_counted_as_deletions_witness:
  "after_update (updateMatchingResources ref_cluster example_vm ''c''
     [as_result (example_pod ''a'' ''p1'')] [] example_exec) = (0, 1)"
proof -
  let ?r = "as_result (example_pod ''a'' ''p1'')"
  have "\<exists>ps err t. updateMatchingResources ref_cluster example_vm ''c'' [?r] [] example_exec =
      Ok (ps, err, t) \<and> map (metric_of ''c'') ps = [(''c'', ''v1'', ''Pod'')]"
    by (simp add: updateMatchingResources_def transform_def ref_cluster_def cluster_reader.defs
        as_result_def example_pod_def metric_of_def Let_def)
  then obtain ps err t where run: "updateMatchingResources ref_cluster example_vm ''c'' [?r] [] example_exec =
      Ok (ps, err, t)" and ps: "map (metric_of ''c'') ps = [(''c'', ''v1'', ''Pod'')]"
    by (elim exE conjE)
  have "updatedResourceCounter (counters t) (''c'', ''v1'', ''Pod'') = 0"
    "deletedResourceCounter (counters t) (''c'', ''v1'', ''Pod'') = 1"
    using updates_counted_as_deletions [OF run, of "(''c'', ''v1'', ''Pod'')"] ps
    by (simp_all add: example_exec_def zero_metrics_def)
  then show ?thesis by (simp add: after_update_def run)
qed

text \<open>
  What the API server documents of an update call: success stores the object of its answer under the
  identity of the submitted one; the answer keeps what is for the writer to decide (\<open>desired\<close>), while
  the resource version and other fields are the server's; an error leaves the cluster as it is, and a
  nil object panics.  An object that is marked for deletion may go away with the update that takes its last
  finalizer off, and so nothing is said of these.
\<close>

type_synonym store = "string \<times> string \<times> string \<times> string \<Rightarrow> unstructured option"

definition update_stores ::
  "('w, 'x) cluster_scheme \<Rightarrow> (unstructured \<Rightarrow> 'v) \<Rightarrow> ('w \<Rightarrow> store) \<Rightarrow> bool" where
  "update_stores cl desired stored \<longleftrightarrow>
     (\<forall>w u. case api_update cl w u of
        None \<Rightarrow> u = None
      | Some (None, answer, w') \<Rightarrow>
          (\<exists>u'. u = Some u' \<and> (u_deletionTimestamp u' = None \<longrightarrow>
             stored w' = (stored w)(obj_id u' \<mapsto> answer) \<and> desired answer = desired u'))
      | Some (Some _, _, w') \<Rightarrow> stored w' = stored w)"

text \<open>
  Nor does an update call take an object out of those that are there and not marked for deletion.
\<close>

definition updates_remove_nothing ::
  "('w, 'x) cluster_scheme \<Rightarrow> ('w \<Rightarrow> (string \<times> string \<times> string \<times> string) set) \<Rightarrow> bool" where
  "updates_remove_nothing cl live \<longleftrightarrow>
     (\<forall>w u. case api_update cl w u of None \<Rightarrow> True | Some (_, _, w') \<Rightarrow> live w \<subseteq> live w')"

lemma update_step_keeps:
  assumes "updates_remove_nothing cl live" and "update_step cl vm n script r s = Ok (a, s')"
  shows "live (world s) \<subseteq> live (world s')"
proof (cases "transform vm (rr_Resource r) script")
  case (Ok u)
  have law: "case api_update cl (world s) u of
      None \<Rightarrow> True | Some (_, _, w') \<Rightarrow> live (world s) \<subseteq> live w'"
    using assms(1) [unfolded updates_remove_nothing_def, THEN spec, THEN spec] .
  obtain err answer w' where api: "api_update cl (world s) u = Some (err, answer, w')"
    using assms(2) Ok by (auto simp: update_step_def split: option.splits)
  then have "world s' = w'"
    using assms(2) Ok by (cases err) (auto simp: update_step_def Let_def)
  then show ?thesis using law api by simp
qed (use assms(2) in \<open>auto simp: update_step_def\<close>)

text \<open>What is stored of each object that its writer decides, and what an update adds to it.\<close>

definition stored_as ::
  "(unstructured \<Rightarrow> 'v) \<Rightarrow> store \<Rightarrow> string \<times> string \<times> string \<times> string \<Rightarrow> 'v option" where
  "stored_as desired m i = map_option desired (m i)"

lemma stored_as_upd [simp]: "stored_as desired (m(i \<mapsto> u)) = (stored_as desired m)(i \<mapsto> desired u)"
  by (simp add: stored_as_def fun_eq_iff)

definition put_transformed ::
  "(unstructured \<Rightarrow> 'v) \<Rightarrow> ('st, 't) lua_vm \<Rightarrow> string \<Rightarrow>
   (string \<times> string \<times> string \<times> string \<Rightarrow> 'v option) \<Rightarrow> ResourceResult \<Rightarrow>
   string \<times> string \<times> string \<times> string \<Rightarrow> 'v option" where
  "put_transformed desired vm script m r =
     (case transform vm (rr_Resource r) script of
        Ok (Some u) \<Rightarrow> m(obj_id u \<mapsto> desired u)
      | _ \<Rightarrow> m)"

text \<open>The transformation of a resource does not give an object that is marked for deletion.\<close>

definition transforms_live :: "('st, 't) lua_vm \<Rightarrow> string \<Rightarrow> ResourceResult \<Rightarrow> bool" where
  "transforms_live vm script r \<longleftrightarrow>
     (case transform vm (rr_Resource r) script of Ok (Some u) \<Rightarrow> u_deletionTimestamp u = None | _ \<Rightarrow> True)"

lemma update_step_store:
  assumes "update_stores cl desired stored" and "script \<noteq> []"
    and "update_step cl vm n script r s = Ok (a, s')" and "transforms_live vm script r"
  shows "(a = Done r \<and> stored_as desired (stored (world s')) =
      put_transformed desired vm script (stored_as desired (stored (world s))) r) \<or>
    (\<exists>e. a = Errored e \<and> stored (world s') = stored (world s))"
proof (cases "transform vm (rr_Resource r) script")
  case (Ok u)
  have law: "case api_update cl (world s) u of
      None \<Rightarrow> u = None
    | Some (None, answer, w') \<Rightarrow>
        (\<exists>u'. u = Some u' \<and> (u_deletionTimestamp u' = None \<longrightarrow>
           stored w' = (stored (world s))(obj_id u' \<mapsto> answer) \<and> desired answer = desired u'))
    | Some (Some _, _, w') \<Rightarrow> stored w' = stored (world s)"
    using assms(1) [unfolded update_stores_def, THEN spec, THEN spec] .
  obtain err answer w' where api: "api_update cl (world s) u = Some (err, answer, w')"
    using assms(3) Ok by (auto simp: update_step_def split: option.splits)
  show ?thesis
  proof (cases err)
    case None
    then obtain u' where "u = Some u'" "stored w' = (stored (world s))(obj_id u' \<mapsto> answer)"
      "desired answer = desired u'"
      using law api assms(4) Ok by (auto simp: transforms_live_def)
    moreover have "a = Done r" "world s' = w'"
      using assms(2,3) Ok api None by (auto simp: update_step_def Let_def)
    ultimately show ?thesis using Ok by (simp add: put_transformed_def)
  next
    case (Some e)
    then show ?thesis using assms(3) Ok api law by (auto simp: update_step_def)
  qed
qed (use assms(3) in \<open>auto simp: update_step_def\<close>)

lemma update_attempts_store:
  assumes "update_stores cl desired stored" and "script \<noteq> []"
    and "attempts (update_step cl vm n script) rs s as t" and "\<forall>r \<in> set rs. transforms_live vm script r"
  shows "stored_as desired (stored (world t)) =
      foldl (put_transformed desired vm script) (stored_as desired (stored (world s))) (concat (map done_of as))
    \<and> (concat (map error_of as) = [] \<longrightarrow> concat (map done_of as) = rs)
    \<and> subseq (concat (map done_of as)) rs"
  using assms(3,4)
proof (induction rule: attempts.induct)
  case (attempts_Cons r s a s' rs as t)
  have "transforms_live vm script r" using attempts_Cons.prems by simp
  from update_step_store [OF assms(1,2) attempts_Cons.hyps(1) this] attempts_Cons.IH attempts_Cons.prems
  show ?case by auto
qed simp

text \<open>
  C26. Updating with a script that is not empty, which gives no object marked for deletion, changes the
  stored objects by the transformed processed resources and nothing else, one after the other: under the identity of each transformed resource is
  then what its script decided, whatever the server adds to it.  The processed resources are selected
  ones, in order, and all of them when no error is returned.
\<close>

theorem update_outcome:
  assumes "update_stores cl desired stored" and "script \<noteq> []"
    and "\<forall>r \<in> set rs. transforms_live vm script r"
    and "updateMatchingResources cl vm n rs script s = Ok (ps, err, t)"
  shows "stored_as desired (stored (world t)) =
      foldl (put_transformed desired vm script) (stored_as desired (stored (world s))) ps \<and>
    subseq ps rs \<and> (err = None \<longrightarrow> ps = rs)"
proof -
  obtain as where as: "attempts (update_step cl vm n script) rs s as t"
    and ps: "ps = concat (map done_of as)" and err: "err = join_errors (concat (map error_of as))"
    using update_run [OF assms(4)] by metis
  note effect = update_attempts_store [OF assms(1,2) as assms(3), folded ps]
  have "err = None \<longrightarrow> concat (map error_of as) = []" using err by (simp add: join_errors_def)
  then show ?thesis using effect by blast
qed

definition touched_pod :: unstructured where
  "touched_pod = (example_pod ''a'' ''p1'')\<lparr>u_content := [(''kind'', GString ''Pod'')]\<rparr>"

definition touch_vm :: "(unit, ref_table) lua_vm" where
  "touch_vm = example_vm
     \<lparr>vm_call := (\<lambda>_ _ _. Some (Ok (LTable (RefTable [] [(''resource'', LTable (RefTable [] []))])))),
      vm_decodeObject := (\<lambda>_. Ok touched_pod)\<rparr>"

lemma touch_vm_transform: "transform touch_vm u ''x'' = Ok (Some touched_pod)"
proof -
  have run: "run_script touch_vm ''x'' ''obj'' ''transform'' t =
      Ok (JObject [(''resource'', JObject [])])" for t
    by (simp add: run_script_def touch_vm_def example_vm_def ref_tables_def eval_nat_numeral
        Let_def sprint_def)
  have dec: "vm_decodeObject touch_vm = (\<lambda>_. Ok touched_pod)" by (simp add: touch_vm_def)
  have "fold_name ''resource'' = ''RESOURCE''" by code_simp
  then show ?thesis
    by (simp add: transform_def run unmarshal_transform_def finish_decode_def dec)
qed

definition by_id :: "unstructured list \<Rightarrow> store" where
  "by_id us i = find (\<lambda>u. obj_id u = i) us"

lemma by_id_put:
  "obj_id a = obj_id u \<Longrightarrow> by_id (a # filter (\<lambda>v. obj_id v \<noteq> obj_id u) us) = (by_id us)(obj_id u \<mapsto> a)"
proof
  fix i
  assume "obj_id a = obj_id u"
  then show "by_id (a # filter (\<lambda>v. obj_id v \<noteq> obj_id u) us) i = ((by_id us)(obj_id u \<mapsto> a)) i"
    by (induction us) (auto simp: by_id_def)
qed

text \<open>The writer decides everything but the resource version.\<close>

definition versionless :: "unstructured \<Rightarrow> unstructured" where
  "versionless u = u\<lparr>u_resourceVersion := []\<rparr>"

lemma obj_id_version [simp]: "obj_id (u\<lparr>u_resourceVersion := v\<rparr>) = obj_id u"
  by (simp add: obj_id_def)

lemma ref_cluster_updates: "update_stores ref_cluster versionless (\<lambda>w. by_id (w_objects w))"
  by (auto simp: update_stores_def ref_cluster_def cluster_reader.defs by_id_put versionless_def
      split: option.split)

lemma ref_cluster_updates_keep: "updates_remove_nothing ref_cluster (\<lambda>w. obj_id ` set (w_objects w))"
  by (auto simp: updates_remove_nothing_def ref_cluster_def cluster_reader.defs split: option.split)

theorem update_outcome_witness:
  "\<exists>ps t. updateMatchingResources ref_cluster touch_vm ''c'' [as_result (example_pod ''a'' ''p1'')] ''x''
       example_exec = Ok (ps, None, t) \<and>
     stored_as versionless (by_id (w_objects (world t))) (obj_id touched_pod) = Some (versionless touched_pod)"
proof -
  let ?r = "as_result (example_pod ''a'' ''p1'')"
  have "\<exists>ps t. updateMatchingResources ref_cluster touch_vm ''c'' [?r] ''x'' example_exec =
      Ok (ps, None, t)"
    by (simp add: updateMatchingResources_def touch_vm_transform ref_cluster_def
        cluster_reader.defs touched_pod_def example_pod_def Let_def join_errors_def)
  then obtain ps t where
    run: "updateMatchingResources ref_cluster touch_vm ''c'' [?r] ''x'' example_exec = Ok (ps, None, t)"
    by (elim exE)
  have "''x'' \<noteq> []" "\<forall>r \<in> set [?r]. transforms_live touch_vm ''x'' r"
    by (simp_all add: transforms_live_def touch_vm_transform touched_pod_def example_pod_def)
  from update_outcome [OF ref_cluster_updates this run]
  have "stored_as versionless (by_id (w_objects (world t))) (obj_id touched_pod) = Some (versionless touched_pod)"
    by (simp add: put_transformed_def touch_vm_transform)
  with run show ?thesis by (intro exI conjI)
qed

end
