(* ===== verification/Notification_Properties.thy ===== *)
theory Notification_Properties
  imports Notifications Selection_Properties
begin

text \<open>
  What a run's notifications do: where credentials come from (a locale over the five readers), the
  chat identifier, the order of delivery and its first failure, the report that is left behind, and
  the services that are not called.
\<close>

section \<open>Credentials\<close>

text \<open>A reader of credentials takes them from the data of the secret a notification refers to.\<close>

locale secret_reader =
  fixes secret :: "Notification \<Rightarrow> 'n \<Rightarrow> go_error + (string \<rightharpoonup> string)"
    and read :: "(string \<rightharpoonup> string) \<Rightarrow> go_error + 'i"
    and get :: "Notification \<Rightarrow> 'n \<Rightarrow> go_error + 'i"
  assumes get_reads: "get nt st = (case secret nt st of Inl e \<Rightarrow> Inl e | Inr d \<Rightarrow> read d)"
begin

lemma get_Inr_iff: "get nt st = Inr i \<longleftrightarrow> (\<exists>d. secret nt st = Inr d \<and> read d = Inr i)"
  by (auto simp: get_reads split: sum.split)

lemma get_needs_secret: "secret nt st = Inl e \<Longrightarrow> get nt st = Inl e"
  by (simp add: get_reads)

end

definition two_fields ::
  "string \<Rightarrow> go_error \<Rightarrow> string \<Rightarrow> go_error \<Rightarrow> (string \<Rightarrow> string \<Rightarrow> go_error + 'i) \<Rightarrow> (string \<rightharpoonup> string) \<Rightarrow>
   go_error + 'i" where
  "two_fields k1 e1 k2 e2 mk data =
     (case data k1 of None \<Rightarrow> Inl e1
      | Some a \<Rightarrow> (case data k2 of None \<Rightarrow> Inl e2 | Some b \<Rightarrow> mk a b))"

definition telegram_read :: "string \<Rightarrow> string \<Rightarrow> go_error + telegramInfo" where
  "telegram_read tok str =
     (case ParseInt str of
        None \<Rightarrow> Inl (PlainError ''failed to get chatID'')
      | Some chatID \<Rightarrow> Inr \<lparr>telegram_token = tok, telegram_chatID = chatID\<rparr>)"

interpretation slack: secret_reader "getSecret nf"
    "two_fields (SlackToken nf) (PlainError ''secret does not contain slack token'')
       (SlackChannelID nf) (PlainError ''secret does not contain slack channelID'')
       (\<lambda>a b. Inr \<lparr>slack_token = a, slack_channelID = b\<rparr>)"
    "getSlackInfo nf" for nf :: "('n, 'x) notifier_scheme"
  by unfold_locales (simp add: getSlackInfo_def two_fields_def split: sum.split)

interpretation discord: secret_reader "getSecret nf"
    "two_fields (DiscordToken nf) (PlainError ''secret does not contain discord token'')
       (DiscordChannelID nf) (PlainError ''secret does not contain discord channel id'')
       (\<lambda>a b. Inr \<lparr>discord_token = a, discord_serverID = b\<rparr>)"
    "getDiscordInfo nf" for nf :: "('n, 'x) notifier_scheme"
  by unfold_locales (simp add: getDiscordInfo_def two_fields_def split: sum.split)

interpretation webex: secret_reader "getSecret nf"
    "two_fields (WebexToken nf) (PlainError ''secret does not contain webex token'')
       (WebexRoomID nf) (PlainError ''secret does not contain webex room'')
       (\<lambda>a b. Inr \<lparr>webex_token = a, webex_room = b\<rparr>)"
    "getWebexInfo nf" for nf :: "('n, 'x) notifier_scheme"
  by unfold_locales (simp add: getWebexInfo_def two_fields_def split: sum.split)

interpretation telegram: secret_reader "getSecret nf"
    "two_fields (TelegramToken nf) (PlainError ''secret does not contain telegram token'')
       (TelegramChatID nf) (PlainError ''secret does not contain telegram chatID'') telegram_read"
    "getTelegramInfo nf" for nf :: "('n, 'x) notifier_scheme"
  by unfold_locales (simp add: getTelegramInfo_def two_fields_def telegram_read_def split: sum.split option.split)

interpretation teams: secret_reader "getSecret nf"
    "\<lambda>d. case d (TeamsWebhookURL nf) of
           None \<Rightarrow> Inl (PlainError ''secret does not contain webhook URL'')
         | Some u \<Rightarrow> Inr \<lparr>teams_webhookUrl = u\<rparr>"
    "getTeamsInfo nf" for nf :: "('n, 'x) notifier_scheme"
  by unfold_locales (simp add: getTeamsInfo_def)

lemma getSecret_Inr_iff:
  "getSecret nf nt st = Inr d \<longleftrightarrow>
   (\<exists>ref. nt_Ref nt = Some ref \<and> or_Kind ref = ''Secret'' \<and> or_APIVersion ref = ''v1'' \<and>
      api_getSecret nf (or_Namespace ref) (or_Name ref) st = Inr (Some d))"
  by (auto simp: getSecret_def split: option.splits sum.splits)

lemma getSecret_no_ref:
  assumes "\<forall>ref. nt_Ref nt = Some ref \<longrightarrow> or_Kind ref \<noteq> ''Secret'' \<or> or_APIVersion ref \<noteq> ''v1''"
  shows "getSecret nf nt st = Inl secret_error"
  using assms by (auto simp: getSecret_def split: option.splits)

text \<open>
  Credentials are only taken from a v1 Secret: for a notification that refers to anything else,
  or to nothing, each of the five credential readers gives the reference error without a call to
  the API server.
\<close>

theorem credentials_need_secret:
  assumes "\<forall>ref. nt_Ref nt = Some ref \<longrightarrow> or_Kind ref \<noteq> ''Secret'' \<or> or_APIVersion ref \<noteq> ''v1''"
  shows "getSlackInfo nf nt st = Inl secret_error \<and> getDiscordInfo nf nt st = Inl secret_error \<and>
    getWebexInfo nf nt st = Inl secret_error \<and> getTeamsInfo nf nt st = Inl secret_error \<and>
    getTelegramInfo nf nt st = Inl secret_error"
  using getSecret_no_ref [OF assms, of nf st]
  by (simp add: slack.get_needs_secret discord.get_needs_secret webex.get_needs_secret
      teams.get_needs_secret telegram.get_needs_secret)

section \<open>The chat identifier\<close>

fun decimal :: "nat \<Rightarrow> string" where
  "decimal n = (if n < 10 then [char_of (48 + n)] else decimal (n div 10) @ [char_of (48 + n mod 10)])"

declare decimal.simps [simp del]

definition decimal_int :: "int \<Rightarrow> string" where
  "decimal_int i = (if i < 0 then ''-'' @ decimal (nat (- i)) else decimal (nat i))"

lemma digit_value_char: "d < 10 \<Longrightarrow> digit_value (char_of (48 + d)) = Some d"
  by (simp add: digit_value_def Let_def)

lemma parse_digits_append:
  "parse_digits acc (xs @ ys) =
   (case parse_digits acc xs of None \<Rightarrow> None | Some acc' \<Rightarrow> parse_digits acc' ys)"
  by (induction xs arbitrary: acc) (simp_all split: option.split)

lemma parse_decimal: "parse_digits 0 (decimal n) = Some n"
proof (induction n rule: decimal.induct)
  case (1 n)
  show ?case
  proof (cases "n < 10")
    case True
    then show ?thesis by (simp add: decimal.simps [of n] digit_value_char)
  next
    case False
    then show ?thesis
      using 1 by (simp add: decimal.simps [of n] parse_digits_append digit_value_char)
  qed
qed

lemma decimal_head: "\<exists>(d :: nat) r. d < 10 \<and> decimal n = char_of (48 + d) # r"
proof (induction n rule: decimal.induct)
  case (1 n)
  show ?case
  proof (cases "n < 10")
    case True
    then show ?thesis by (auto simp: decimal.simps [of n])
  next
    case False
    with 1 obtain d :: nat and r where d: "d < 10" "decimal (n div 10) = char_of (48 + d) # r"
      by blast
    have "decimal n = char_of (48 + d) # (r @ [char_of (48 + n mod 10)])"
      using False by (subst decimal.simps) (simp add: d(2))
    with d(1) show ?thesis by blast
  qed
qed

lemma digit_not_sign:
  fixes d :: nat
  assumes "d < 10"
  shows "char_of (48 + d) \<noteq> CHR ''-'' \<and> char_of (48 + d) \<noteq> CHR ''+''"
proof -
  have "of_char (char_of (48 + d) :: char) = 48 + d" using assms by simp
  moreover have "of_char (CHR ''-'') = (45 :: nat)" "of_char (CHR ''+'') = (43 :: nat)" by simp_all
  moreover have "(48 + d :: nat) \<noteq> 45" "(48 + d :: nat) \<noteq> 43" by simp_all
  ultimately show ?thesis by metis
qed

lemma decimal_unsigned:
  "decimal n \<noteq> [] \<and> take 1 (decimal n) \<noteq> ''-'' \<and> take 1 (decimal n) \<noteq> ''+''"
proof -
  obtain d :: nat and r where d: "d < 10" "decimal n = char_of (48 + d) # r" using decimal_head by blast
  then show ?thesis using digit_not_sign [OF d(1)] by simp
qed

lemma ParseInt_decimal:
  "ParseInt (decimal_int i) = (if - (2 ^ 63) \<le> i \<and> i < 2 ^ 63 then Some (word_of_int i) else None)"
  using decimal_unsigned [of "nat i"] decimal_unsigned [of "nat (- i)"]
  by (auto simp: ParseInt_def decimal_int_def parse_decimal Let_def)

text \<open>
  C29. The chat identifier of a Telegram secret, written in decimal, is read as the number it is
  when it fits in 64 bits, negative ones (group chats) included, and is an error when it does not:
  it never wraps to another chat.
\<close>

theorem chat_id_exact:
  assumes "getSecret nf nt st = Inr data" and "data (TelegramToken nf) = Some tok"
    and "data (TelegramChatID nf) = Some (decimal_int i)"
  shows "getTelegramInfo nf nt st =
    (if - (2 ^ 63) \<le> i \<and> i < 2 ^ 63
     then Inr \<lparr>telegram_token = tok, telegram_chatID = word_of_int i\<rparr>
     else Inl (PlainError ''failed to get chatID''))"
  by (simp add: telegram.get_reads assms two_fields_def telegram_read_def ParseInt_decimal)

section \<open>Services to evaluate the model on\<close>

record sink = ref_world +
  sk_reports :: "string \<rightharpoonup> Report"
  sk_sent :: "string list"

definition sent_ok :: "string \<Rightarrow> 'x sink_scheme \<Rightarrow> go_err \<times> 'x sink_scheme" where
  "sent_ok what st = (None, st\<lparr>sk_sent := sk_sent st @ [what]\<rparr>)"

definition ref_notifier :: "'x sink_scheme notifier" where
  "ref_notifier =
     \<lparr>api_getSecret = (\<lambda>ns name st. Inr (Some [''token'' \<mapsto> ''t'', ''id'' \<mapsto> ''-1001''])),
      api_getReport = (\<lambda>name st. case sk_reports st name of
        None \<Rightarrow> Inl (NotFoundError name) | Some r \<Rightarrow> Inr (r\<lparr>rep_Name := name\<rparr>)),
      api_createReport = (\<lambda>r st. (None, st\<lparr>sk_reports := (sk_reports st)(rep_Name r \<mapsto> r)\<rparr>)),
      api_updateReport = (\<lambda>r st. (None, st\<lparr>sk_reports := (sk_reports st)(rep_Name r \<mapsto> r)\<rparr>)),
      json_marshalReport = (\<lambda>_. Inr ''{}''),
      slack_PostMessage = (\<lambda>tok ch m a. if ch = ''-1001'' then sent_ok ''slack'' else (\<lambda>st. (Some (PlainError ''channel''), st))),
      teams_ValidateWebhook = (\<lambda>_. Some (PlainError ''invalid webhook'')),
      teams_NewSimpleMessage = (\<lambda>t m. Inr m),
      teams_Send = (\<lambda>_ _. sent_ok ''teams''),
      discord_New = (\<lambda>_. None),
      discord_Send = (\<lambda>_ _ _ _ st. (Some (PlainError ''discord is down''), st)),
      telegram_NewBotAPI = (\<lambda>_ st. (None, st)),
      telegram_SendDocument = (\<lambda>_ _ _. sent_ok ''telegram''),
      webex_NewClient = True,
      webex_CreateMessage = (\<lambda>_ _ _ _ _. sent_ok ''webex''),
      smtp_NewMailer = (\<lambda>_ st. (None, st)),
      smtp_SendMail = (\<lambda>_ _ _. sent_ok ''smtp''),
      os_CreateTemp = (\<lambda>_ st. (Inr ''/tmp/f'', st)),
      os_Write = (\<lambda>_ _ st. (None, st)),
      os_Open = (\<lambda>_ st. (Inr ''{}'', st)),
      os_Remove = (\<lambda>_ st. st),
      event_Eventf = (\<lambda>_ m st. snd (sent_ok m st)),
      SlackToken = ''token'', SlackChannelID = ''id'', WebexToken = ''token'', WebexRoomID = ''id'',
      DiscordToken = ''token'', DiscordChannelID = ''id'', TeamsWebhookURL = ''token'',
      TelegramToken = ''token'', TelegramChatID = ''id''\<rparr>"

definition empty_sink :: sink where
  "empty_sink = \<lparr>w_namespaces = [], w_objects = [], sk_reports = Map.empty, sk_sent = []\<rparr>"

definition secret_ref :: ObjectReference where
  "secret_ref = \<lparr>or_Kind = ''Secret'', or_Namespace = ''ns'', or_Name = ''s'', or_APIVersion = ''v1''\<rparr>"

definition notify :: "NotificationType \<Rightarrow> Notification" where
  "notify ty = \<lparr>nt_Name = ''n'', nt_Type = ty, nt_Ref = Some secret_ref\<rparr>"

definition notifying_cleaner :: "NotificationType list \<Rightarrow> Cleaner" where
  "notifying_cleaner tys = (zero_Cleaner 0)
     \<lparr>cl_Name := ''c1'', cl_Spec := (cl_Spec (zero_Cleaner 0))
        \<lparr>spec_Action := ActionScan, spec_Notifications := map notify tys\<rparr>\<rparr>"

lemma notifying_cleaner_simps [simp]:
  "cl_Name (notifying_cleaner tys) = ''c1''"
  "spec_Notifications (cl_Spec (notifying_cleaner tys)) = map notify tys"
  "spec_Action (cl_Spec (notifying_cleaner tys)) = ActionScan"
  by (simp_all add: notifying_cleaner_def)

lemma notify_simps [simp]:
  "nt_Type (notify ty) = ty" "nt_Ref (notify ty) = Some secret_ref"
  by (simp_all add: notify_def)

theorem credentials_need_secret_witness:
  "getSlackInfo ref_notifier ((notify NotificationTypeSlack)\<lparr>nt_Ref := None\<rparr>) empty_sink = Inl secret_error"
  using credentials_need_secret [of "(notify NotificationTypeSlack)\<lparr>nt_Ref := None\<rparr>"
      ref_notifier empty_sink] by simp

lemma ref_secret:
  "getSecret ref_notifier (notify ty) st = Inr [''token'' \<mapsto> ''t'', ''id'' \<mapsto> ''-1001'']"
  by (simp add: getSecret_def secret_ref_def ref_notifier_def)

theorem chat_id_exact_witness:
  "getTelegramInfo ref_notifier (notify NotificationTypeTelegram) empty_sink =
     Inr \<lparr>telegram_token = ''t'', telegram_chatID = - 1001\<rparr>"
proof -
  have "decimal_int (- 1001) = ''-1001''" by code_simp
  then have "[''token'' \<mapsto> ''t'', ''id'' \<mapsto> ''-1001''] (TelegramChatID ref_notifier) = Some (decimal_int (- 1001))"
    "[''token'' \<mapsto> ''t'', ''id'' \<mapsto> ''-1001''] (TelegramToken ref_notifier) = Some ''t''"
    by (simp_all add: ref_notifier_def)
  from chat_id_exact [OF ref_secret this(2,1)] show ?thesis by simp
qed

section \<open>Order of delivery\<close>

text \<open>The deliveries that succeed one after the other.\<close>

lemma send_loop_append:
  "send_loop h pre st = Ok (None, st1) \<Longrightarrow> send_loop h (pre @ ns) st = send_loop h ns st1"
  by (induction pre arbitrary: st)
    (auto split: option.splits prod.splits sum.splits)

lemma send_loop_failure:
  assumes "send_loop h ns st = Ok (Some e, st')"
  shows "\<exists>pre nt post send st1. ns = pre @ nt # post \<and> send_loop h pre st = Ok (None, st1) \<and>
    h nt = Some send \<and> send st1 = (Inl e, st')"
  using assms
proof (induction ns arbitrary: st)
  case Nil
  then show ?case by simp
next
  case (Cons nt ns)
  then obtain send where h: "h nt = Some send" by (auto split: option.splits)
  obtain r st1 where send: "send st = (r, st1)" by (cases "send st")
  show ?case
  proof (cases r)
    case (Inl err)
    with Cons.prems h send have "nt # ns = [] @ nt # ns" "send_loop h [] st = Ok (None, st)"
      "send st = (Inl e, st')" by simp_all
    with h show ?thesis by blast
  next
    case (Inr u)
    with Cons.prems h send have "send_loop h ns st1 = Ok (Some e, st')" by simp
    from Cons.IH [OF this] obtain pre nt' post send' st2 where
      ih: "ns = pre @ nt' # post" "send_loop h pre st1 = Ok (None, st2)" "h nt' = Some send'"
        "send' st2 = (Inl e, st')" by blast
    have "nt # ns = (nt # pre) @ nt' # post" using ih(1) by simp
    moreover have "send_loop h (nt # pre) st = Ok (None, st2)" using h send Inr ih(2) by simp
    ultimately show ?thesis using ih(3,4) by blast
  qed
qed

text \<open>A delivery does not look at the list of notifications of the Cleaner.\<close>

abbreviation with_notifications :: "Notification list \<Rightarrow> Cleaner \<Rightarrow> Cleaner" where
  "with_notifications ns cleaner \<equiv>
     cleaner\<lparr>cl_Spec := (cl_Spec cleaner)\<lparr>spec_Notifications := ns\<rparr>\<rparr>"

lemma with_notifications_same [simp]:
  "generateReportSpec now rs (with_notifications ns cleaner) = generateReportSpec now rs cleaner"
  "notification_message (with_notifications ns cleaner) = notification_message cleaner"
  "createReportInstance nf (with_notifications ns cleaner) = createReportInstance nf cleaner"
  "event_message (with_notifications ns cleaner) = event_message cleaner"
  by (auto simp: generateReportSpec_def notification_message_def createReportInstance_def
      event_message_def fun_eq_iff split: sum.split Action.split)

lemma with_notifications_events [simp]:
  "sendKubernetesEventNotification nf (with_notifications ns cleaner) rs st =
   sendKubernetesEventNotification nf cleaner rs st"
  by (induction rs arbitrary: st) simp_all

definition run_deliver ::
  "('n, 'x) notifier_scheme \<Rightarrow> string \<Rightarrow> ResourceResult list \<Rightarrow> Cleaner \<Rightarrow> Notification \<Rightarrow>
   ('n, unit) act option" where
  "run_deliver nf now rs cleaner =
     deliver nf cleaner rs (generateReportSpec now rs cleaner) (notification_message cleaner)"

lemma sendNotifications_loop:
  "sendNotifications nf now rs cleaner st =
   send_loop (run_deliver nf now rs cleaner) (spec_Notifications (cl_Spec cleaner)) st"
  by (simp add: sendNotifications_def run_deliver_def)

text \<open>
  C21. Notifications are delivered in the order of the Cleaner's spec and the first failure ends
  the delivery: an error means that one notification failed with it, that those before it were
  delivered, and that those after it were not attempted.
\<close>

theorem first_failure_stops:
  assumes "sendNotifications nf now rs cleaner st = Ok (Some e, st')"
  shows "\<exists>pre nt post send st1. spec_Notifications (cl_Spec cleaner) = pre @ nt # post \<and>
    sendNotifications nf now rs
      (with_notifications pre cleaner) st = Ok (None, st1) \<and>
    run_deliver nf now rs cleaner nt = Some send \<and> send st1 = (Inl e, st')"
proof -
  have same: "run_deliver nf now rs (with_notifications pre cleaner) =
      run_deliver nf now rs cleaner" for pre
    by (simp add: run_deliver_def deliver_def fun_eq_iff split: NotificationType.split)
  show ?thesis
    using send_loop_failure [OF assms [unfolded sendNotifications_loop]]
    by (simp add: sendNotifications_loop same)
qed

lemmas ref_run =
  sendNotifications_loop run_deliver_def deliver_def act_defs sent_ok_def
  createReportInstance_def sendSlackNotification_def sendDiscordNotification_def
  sendTeamsNotification_def slack.get_reads discord.get_reads teams.get_reads two_fields_def
  with_temp_file_def withFileReader_def

text \<open>A report, a message, a failing service and one more message: the last is not sent.\<close>

definition example_types :: "NotificationType list" where
  "example_types = [NotificationTypeCleanerReport, NotificationTypeSlack, NotificationTypeDiscord,
     NotificationTypeSlack]"

definition example_result :: ResourceResult where
  "example_result =
     \<lparr>rr_Resource = \<lparr>u_apiVersion = ''v1'', u_kind = ''Pod'', u_namespace = ''a'', u_name = ''p'',
        u_deletionTimestamp = None, u_resourceVersion = [], u_content = []\<rparr>,
      rr_Message = ''unused''\<rparr>"

lemma example_delivery:
  "\<exists>st'. sendNotifications ref_notifier ''noon'' [example_result] (notifying_cleaner example_types)
       empty_sink = Ok (Some (PlainError ''discord is down''), st') \<and> sk_sent st' = [''slack'']"
  by (simp add: ref_run example_types_def getSecret_def secret_ref_def ref_notifier_def empty_sink_def)

theorem first_failure_stops_witness:
  "\<exists>st' pre nt post. sendNotifications ref_notifier ''noon'' [example_result]
       (notifying_cleaner example_types) empty_sink = Ok (Some (PlainError ''discord is down''), st') \<and>
     map notify example_types = pre @ nt # post \<and> sk_sent st' = [''slack'']"
proof -
  obtain st' where run: "sendNotifications ref_notifier ''noon'' [example_result]
      (notifying_cleaner example_types) empty_sink = Ok (Some (PlainError ''discord is down''), st')"
    and sent: "sk_sent st' = [''slack'']" using example_delivery by (elim exE conjE)
  obtain pre nt post where "map notify example_types = pre @ nt # post"
    using first_failure_stops [OF run] by (auto simp only: notifying_cleaner_simps)
  then show ?thesis using run sent by (intro exI conjI)
qed

section \<open>The report that is left behind\<close>

text \<open>
  What the code expects of the API server about reports, and that the other services do not touch
  them.
\<close>

definition report_api :: "('n, 'x) notifier_scheme \<Rightarrow> ('n \<Rightarrow> string \<rightharpoonup> Report) \<Rightarrow> bool" where
  "report_api nf reports \<longleftrightarrow>
     (\<forall>name st. case api_getReport nf name st of
        Inl e \<Rightarrow> isNotFound e \<longrightarrow> reports st name = None
      | Inr r \<Rightarrow> reports st name \<noteq> None \<and> rep_Name r = name) \<and>
     (\<forall>r st st'. api_createReport nf r st = (None, st') \<longrightarrow>
        reports st' = (reports st)(rep_Name r \<mapsto> r)) \<and>
     (\<forall>r st st'. api_updateReport nf r st = (None, st') \<longrightarrow>
        reports st' = (reports st)(rep_Name r \<mapsto> r))"

definition services_keep :: "('n, 'x) notifier_scheme \<Rightarrow> ('n \<Rightarrow> 'v) \<Rightarrow> bool" where
  "services_keep nf v \<longleftrightarrow>
     (\<forall>a b c d st. v (snd (slack_PostMessage nf a b c d st)) = v st) \<and>
     (\<forall>a b st. v (snd (teams_Send nf a b st)) = v st) \<and>
     (\<forall>a b c d st. v (snd (discord_Send nf a b c d st)) = v st) \<and>
     (\<forall>a st. v (snd (telegram_NewBotAPI nf a st)) = v st) \<and>
     (\<forall>a b c st. v (snd (telegram_SendDocument nf a b c st)) = v st) \<and>
     (\<forall>a b c d e st. v (snd (webex_CreateMessage nf a b c d e st)) = v st) \<and>
     (\<forall>a st. v (snd (smtp_NewMailer nf a st)) = v st) \<and>
     (\<forall>a b c st. v (snd (smtp_SendMail nf a b c st)) = v st) \<and>
     (\<forall>a st. v (snd (os_CreateTemp nf a st)) = v st) \<and>
     (\<forall>a b st. v (snd (os_Write nf a b st)) = v st) \<and>
     (\<forall>a st. v (snd (os_Open nf a st)) = v st) \<and>
     (\<forall>a st. v (os_Remove nf a st) = v st) \<and>
     (\<forall>a b st. v (event_Eventf nf a b st) = v st)"

lemma read_keeps [simp]: "act_keeps v (\<lambda>st. (f st, st))"
  by (simp add: act_keeps_def)

lemma with_temp_file_keeps:
  assumes "services_keep nf v" and "\<And>f. act_keeps v (body f)"
  shows "act_keeps v (with_temp_file nf content body)"
proof -
  have "act_keeps v (os_CreateTemp nf n)" for n
    using assms(1) by (simp add: services_keep_def act_keeps_def)
  moreover have "v (snd (os_Write nf a b st)) = v st" "v (os_Remove nf a st) = v st" for a b st
    using assms(1) by (simp_all add: services_keep_def)
  ultimately show ?thesis
    unfolding with_temp_file_def
    by (intro act_keeps_bind act_keeps_finally act_keeps_check assms(2))
qed

lemma withFileReader_keeps: "services_keep nf v \<Longrightarrow> act_keeps v (withFileReader nf f)"
  by (auto simp: services_keep_def act_keeps_def withFileReader_def prod.case_eq_if split: sum.split)

lemma sends_keep:
  assumes "services_keep nf v"
  shows "act_keeps v (sendSlackNotification nf rep m nt)"
    and "act_keeps v (sendTeamsNotification nf rep m nt)"
    and "act_keeps v (sendDiscordNotification nf rep m nt)"
    and "act_keeps v (sendTelegramNotification nf rep m nt)"
    and "act_keeps v (sendWebexNotification nf rep m nt)"
    and "act_keeps v (sendSmtpNotification nf rep m nt)"
  unfolding sendSlackNotification_def sendTeamsNotification_def sendDiscordNotification_def
    sendTelegramNotification_def sendWebexNotification_def sendSmtpNotification_def
  using assms
  by (auto intro!: act_keeps_bind act_keeps_check with_temp_file_keeps withFileReader_keeps
      simp: services_keep_def)

lemma events_keep:
  "services_keep nf v \<Longrightarrow> v (sendKubernetesEventNotification nf cleaner rs st) = v st"
  by (induction rs arbitrary: st) (simp_all add: services_keep_def)

lemma createReport_effect:
  assumes "report_api nf reports" and "createReportInstance nf cleaner rep st = (Inr u, st')"
  shows "reports st' = (reports st)(cl_Name cleaner \<mapsto> \<lparr>rep_Name = cl_Name cleaner, rep_Spec = rep\<rparr>)"
proof (cases "api_getReport nf (cl_Name cleaner) st")
  case (Inl e)
  have "api_createReport nf \<lparr>rep_Name = cl_Name cleaner, rep_Spec = rep\<rparr> st = (None, st')"
    using assms(2) Inl
    by (auto simp: createReportInstance_def act_check_def split: if_splits prod.splits option.splits)
  then show ?thesis using assms(1) by (simp add: report_api_def)
next
  case (Inr r)
  have "case api_getReport nf (cl_Name cleaner) st of
      Inl e \<Rightarrow> isNotFound e \<longrightarrow> reports st (cl_Name cleaner) = None
    | Inr r \<Rightarrow> reports st (cl_Name cleaner) \<noteq> None \<and> rep_Name r = cl_Name cleaner"
    using assms(1) unfolding report_api_def by blast
  then have name: "rep_Name r = cl_Name cleaner" using Inr by simp
  have "api_updateReport nf (r\<lparr>rep_Spec := rep\<rparr>) st = (None, st')"
    using assms(2) Inr
    by (auto simp: createReportInstance_def act_check_def split: prod.splits option.splits)
  moreover have "r\<lparr>rep_Spec := rep\<rparr> = \<lparr>rep_Name = cl_Name cleaner, rep_Spec = rep\<rparr>"
    using name by (cases r) simp
  ultimately show ?thesis using assms(1) by (simp add: report_api_def)
qed

lemma deliver_effect:
  assumes "report_api nf reports" and "services_keep nf reports"
    and "run_deliver nf now rs cleaner nt = Some send" and "send st = (Inr u, st')"
  shows "reports st' =
    (if nt_Type nt = NotificationTypeCleanerReport
     then (reports st)(cl_Name cleaner \<mapsto>
       \<lparr>rep_Name = cl_Name cleaner, rep_Spec = generateReportSpec now rs cleaner\<rparr>)
     else reports st)"
proof (cases "nt_Type nt = NotificationTypeCleanerReport")
  case True
  then show ?thesis
    using assms(3,4) createReport_effect [OF assms(1)]
    by (simp add: run_deliver_def deliver_def Let_def)
next
  case False
  have "act_keeps reports (\<lambda>st. (Inr (), sendKubernetesEventNotification nf cleaner rs st))"
    using events_keep [OF assms(2)] by (simp add: act_keeps_def)
  then have "act_keeps reports send"
    using assms(3) False sends_keep [OF assms(2)]
    by (auto simp: run_deliver_def deliver_def Let_def split: NotificationType.splits if_splits)
  then have "reports (snd (send st)) = reports st" by (simp add: act_keeps_def)
  then show ?thesis using False assms(4) by simp
qed

lemma send_loop_report:
  assumes "report_api nf reports" and "services_keep nf reports"
    and "send_loop (run_deliver nf now rs cleaner) ns st = Ok (None, st')"
  shows "reports st' =
    (if \<exists>nt \<in> set ns. nt_Type nt = NotificationTypeCleanerReport
     then (reports st)(cl_Name cleaner \<mapsto>
       \<lparr>rep_Name = cl_Name cleaner, rep_Spec = generateReportSpec now rs cleaner\<rparr>)
     else reports st)"
  using assms(3)
proof (induction ns arbitrary: st)
  case Nil
  then show ?case by simp
next
  case (Cons nt ns)
  then obtain send u st1 where h: "run_deliver nf now rs cleaner nt = Some send" "send st = (Inr u, st1)"
    and rest: "send_loop (run_deliver nf now rs cleaner) ns st1 = Ok (None, st')"
    by (auto split: option.splits prod.splits sum.splits)
  show ?case
    using deliver_effect [OF assms(1,2) h] Cons.IH [OF rest] by auto
qed

text \<open>
  When the notifications of a Cleaner that asks for a report are delivered, the report of that
  name holds the Cleaner's action and one entry per processed resource, in order, with its identity,
  its message and the time, whether the report existed or not; no other report changes.
\<close>

theorem report_left_behind:
  assumes "report_api nf reports" and "services_keep nf reports"
    and "NotificationTypeCleanerReport \<in> nt_Type ` set (spec_Notifications (cl_Spec cleaner))"
    and "sendNotifications nf now rs cleaner st = Ok (None, st')"
  shows "reports st' = (reports st)(cl_Name cleaner \<mapsto>
    \<lparr>rep_Name = cl_Name cleaner,
     rep_Spec =
       \<lparr>rep_ResourceInfo = map (\<lambda>r.
          \<lparr>ri_Resource = \<lparr>or_Kind = u_kind (rr_Resource r), or_Namespace = u_namespace (rr_Resource r),
             or_Name = u_name (rr_Resource r), or_APIVersion = u_apiVersion (rr_Resource r)\<rparr>,
           ri_FullResource = [], ri_Message = rr_Message r @ ''. time: '' @ now\<rparr>) rs,
        rep_Action = spec_Action (cl_Spec cleaner)\<rparr>\<rparr>)"
proof -
  have "\<exists>nt \<in> set (spec_Notifications (cl_Spec cleaner)). nt_Type nt = NotificationTypeCleanerReport"
    using assms(3) by force
  then show ?thesis
    using send_loop_report [OF assms(1,2) assms(4) [unfolded sendNotifications_loop]]
    by (simp add: generateReportSpec_def resource_info_def [abs_def])
qed

lemma ref_report_api: "report_api ref_notifier sk_reports"
  by (auto simp: report_api_def ref_notifier_def split: option.split)

lemma ref_services_keep: "services_keep ref_notifier sk_reports"
  by (simp add: services_keep_def ref_notifier_def sent_ok_def)

theorem report_left_behind_witness:
  "\<exists>st' r. sendNotifications ref_notifier ''noon'' [example_result]
       (notifying_cleaner [NotificationTypeCleanerReport]) empty_sink = Ok (None, st') \<and>
     sk_reports st' ''c1'' = Some r \<and>
     map ri_Message (rep_ResourceInfo (rep_Spec r)) = [''unused. time: noon'']"
proof -
  have "\<exists>st'. sendNotifications ref_notifier ''noon'' [example_result]
       (notifying_cleaner [NotificationTypeCleanerReport]) empty_sink = Ok (None, st')"
    by (simp add: ref_run ref_notifier_def empty_sink_def)
  then obtain st' where run: "sendNotifications ref_notifier ''noon'' [example_result]
      (notifying_cleaner [NotificationTypeCleanerReport]) empty_sink = Ok (None, st')" by (elim exE)
  have "NotificationTypeCleanerReport \<in>
      nt_Type ` set (spec_Notifications (cl_Spec (notifying_cleaner [NotificationTypeCleanerReport])))"
    by simp
  from report_left_behind [OF ref_report_api ref_services_keep this run]
  show ?thesis using run by (simp add: example_result_def)
qed

section \<open>Services that are not called\<close>

definition is_report :: "Notification \<Rightarrow> bool" where
  "is_report nt \<longleftrightarrow> nt_Type nt = NotificationTypeCleanerReport"

lemma deliver_nothing:
  "\<not> is_report nt \<Longrightarrow> (\<forall>s. nt_Type nt \<noteq> OtherNotificationType s) \<Longrightarrow>
   run_deliver nf now [] cleaner nt = Some (act_return ())"
  by (cases "nt_Type nt") (simp_all add: run_deliver_def deliver_def is_report_def Let_def)

lemma send_loop_nothing:
  "\<forall>nt \<in> set ns. \<forall>s. nt_Type nt \<noteq> OtherNotificationType s \<Longrightarrow>
   send_loop (run_deliver nf now [] cleaner) ns st =
   send_loop (run_deliver nf now [] cleaner) (filter is_report ns) st"
proof (induction ns arbitrary: st)
  case Nil
  then show ?case by simp
next
  case (Cons nt ns)
  show ?case
  proof (cases "is_report nt")
    case True
    with Cons show ?thesis by (auto split: option.split prod.split sum.split)
  next
    case False
    with Cons.prems have "run_deliver nf now [] cleaner nt = Some (act_return ())"
      using deliver_nothing [OF False] by simp
    with False Cons show ?thesis by (simp add: act_return_def)
  qed
qed

text \<open>
  When nothing was processed no service is called: the notifications have exactly the effect
  and the result of the Report notifications among them.
\<close>

theorem nothing_processed_only_reports:
  assumes "\<forall>nt \<in> set (spec_Notifications (cl_Spec cleaner)). \<forall>s. nt_Type nt \<noteq> OtherNotificationType s"
  shows "sendNotifications nf now [] cleaner st =
    sendNotifications nf now []
      (with_notifications (filter is_report (spec_Notifications (cl_Spec cleaner))) cleaner) st"
proof -
  have "run_deliver nf now [] (with_notifications ns cleaner) = run_deliver nf now [] cleaner" for ns
    by (simp add: run_deliver_def deliver_def fun_eq_iff split: NotificationType.split)
  then show ?thesis using send_loop_nothing [OF assms] by (simp add: sendNotifications_loop)
qed

theorem nothing_processed_only_reports_witness:
  "sendNotifications ref_notifier ''noon'' []
     (notifying_cleaner [NotificationTypeSlack, NotificationTypeDiscord]) empty_sink = Ok (None, empty_sink)"
proof -
  have "\<forall>nt \<in> set (spec_Notifications (cl_Spec
      (notifying_cleaner [NotificationTypeSlack, NotificationTypeDiscord]))).
      \<forall>s. nt_Type nt \<noteq> OtherNotificationType s" by simp
  from nothing_processed_only_reports [OF this] show ?thesis
    by (simp add: sendNotifications_loop is_report_def)
qed

text \<open>
  An invalid Teams webhook is not reported: the notification counts as delivered although no
  message was sent.
\<close>

theorem invalid_teams_webhook_counts_as_sent:
  assumes "getTeamsInfo nf notification st = Inr info"
    and "teams_ValidateWebhook nf (teams_webhookUrl info) = Some e"
  shows "sendTeamsNotification nf reportSpec message notification st = (Inr (), st)"
  by (simp add: sendTeamsNotification_def act_defs assms)

theorem invalid_teams_webhook_counts_as_sent_witness:
  "sendTeamsNotification ref_notifier \<lparr>rep_ResourceInfo = [], rep_Action = ActionScan\<rparr> ''message''
     (notify NotificationTypeTeams) empty_sink = (Inr (), empty_sink)"
proof -
  have "getTeamsInfo ref_notifier (notify NotificationTypeTeams) empty_sink =
      Inr \<lparr>teams_webhookUrl = ''t''\<rparr>"
    by (simp add: teams.get_reads ref_secret) (simp add: ref_notifier_def)
  moreover have "teams_ValidateWebhook ref_notifier (teams_webhookUrl \<lparr>teams_webhookUrl = ''t''\<rparr>) =
      Some (PlainError ''invalid webhook'')"
    by (simp add: ref_notifier_def)
  ultimately show ?thesis by (rule invalid_teams_webhook_counts_as_sent)
qed

end
