(* ===== verification/Store_Properties.thy ===== *)
theory Store_Properties
  imports Store
begin

text \<open>
  Where \<open>store.go\<close> writes: the path of a resource determines its namespace, kind and name and
  lies under the folder of the Cleaner; what is on disk after a run; and the resources it confuses.
\<close>

section \<open>The elements of a cleaned path\<close>

definition simple_name :: "string \<Rightarrow> bool" where
  "simple_name e \<longleftrightarrow> e \<noteq> [] \<and> e \<noteq> ''.'' \<and> e \<noteq> ''..'' \<and> CHR ''/'' \<notin> set e"

lemma clean_elements_simple:
  "list_all simple_name es \<Longrightarrow> clean_elements rooted stack es = rev stack @ es"
  by (induction es arbitrary: stack) (simp_all add: simple_name_def)

lemma clean_elements_append:
  "clean_elements rooted stack (xs @ ys) =
   clean_elements rooted (rev (clean_elements rooted stack xs)) ys"
proof (induction xs arbitrary: stack)
  case (Cons e xs)
  then show ?case by (cases stack) simp_all
qed simp

lemma clean_elements_no_slash:
  "\<forall>e \<in> set stack \<union> set es. CHR ''/'' \<notin> set e \<Longrightarrow>
   \<forall>e \<in> set (clean_elements rooted stack es). CHR ''/'' \<notin> set e"
proof (induction es arbitrary: stack)
  case (Cons e es)
  define dd where "dd = ''..''"
  then have dots: "CHR ''/'' \<notin> set dd" by simp
  have clean: "\<forall>x \<in> set (clean_elements rooted s es). CHR ''/'' \<notin> set x"
    if "set s \<subseteq> insert dd (insert e (set stack))" for s
    by (rule Cons.IH) (use Cons.prems dots that in auto)
  have "\<forall>x \<in> set (clean_elements rooted stack es). CHR ''/'' \<notin> set x"
    "\<forall>x \<in> set (clean_elements rooted (e # stack) es). CHR ''/'' \<notin> set x"
    "\<forall>x \<in> set (clean_elements rooted (dd # stack) es). CHR ''/'' \<notin> set x"
    "\<forall>x \<in> set (clean_elements rooted [] es). CHR ''/'' \<notin> set x"
    "\<forall>x \<in> set (clean_elements rooted [dd] es). CHR ''/'' \<notin> set x"
    "\<forall>x \<in> set (clean_elements rooted (tl stack) es). CHR ''/'' \<notin> set x"
    by (rule clean; cases stack; auto)+
  then show ?case by (cases stack) (simp_all add: dd_def)
qed simp

lemma split_at_join: "split_at c (s @ c # t) = split_at c s @ split_at c t"
  by (induction s) (auto split: list.split)

lemma split_at_elements: "e \<in> set (split_at c s) \<Longrightarrow> c \<notin> set e"
  by (induction s arbitrary: e) (auto split: list.splits if_splits)

definition resource_elements :: "string \<Rightarrow> string \<Rightarrow> string \<Rightarrow> string list" where
  "resource_elements ns kind name = (if ns = [] then [] else [ns]) @ [kind, name @ ''.yaml'']"

definition folder_elements :: "string \<Rightarrow> string list" where
  "folder_elements folder =
     clean_elements (take 1 folder = ''/'') [] (split_at CHR ''/'' folder)"

definition named_simply :: "unstructured \<Rightarrow> bool" where
  "named_simply u \<longleftrightarrow>
     (u_namespace u = [] \<or> simple_name (u_namespace u)) \<and> simple_name (u_kind u) \<and>
     CHR ''/'' \<notin> set (u_name u)"

lemma resource_elements_simple:
  "named_simply u \<Longrightarrow>
   list_all simple_name (resource_elements (u_namespace u) (u_kind u) (u_name u))"
  by (auto simp: named_simply_def resource_elements_def simple_name_def append_eq_Cons_conv)

lemma resourceFilePath_elements:
  assumes "folder \<noteq> []" and "named_simply u"
  shows "resourceFilePath folder u =
    render_path (take 1 folder = ''/'')
      (folder_elements folder @ resource_elements (u_namespace u) (u_kind u) (u_name u))"
proof -
  let ?es = "resource_elements (u_namespace u) (u_kind u) (u_name u)"
  have ne: "?es \<noteq> []" by (simp add: resource_elements_def)
  have simple: "list_all simple_name ?es" using assms(2) by (rule resource_elements_simple)
  have "filter (\<lambda>e. e \<noteq> []) [folder, u_namespace u, u_kind u, u_name u @ ''.yaml''] = folder # ?es"
    using assms by (auto simp: resource_elements_def named_simply_def simple_name_def)
  moreover have "intercalate ''/'' (folder # ?es) = folder @ CHR ''/'' # intercalate ''/'' ?es"
    using ne by (cases ?es) simp_all
  moreover have "split_at CHR ''/'' (intercalate ''/'' ?es) = ?es"
    using ne simple by (intro split_at_intercalate) (auto simp: list_all_iff simple_name_def)
  moreover have "take 1 (folder @ CHR ''/'' # intercalate ''/'' ?es) = take 1 folder"
    using assms(1) by (cases folder) simp_all
  ultimately show ?thesis
    using clean_elements_simple [OF simple]
    by (simp add: resourceFilePath_def path_Join_def path_Clean_def Let_def split_at_join
        clean_elements_append folder_elements_def)
qed

lemma folder_elements_no_slash: "\<forall>e \<in> set (folder_elements folder). CHR ''/'' \<notin> set e"
  unfolding folder_elements_def
  by (rule clean_elements_no_slash) (auto dest: split_at_elements)

lemma path_elements_no_slash:
  "named_simply u \<Longrightarrow>
   \<forall>e \<in> set (folder_elements folder @ resource_elements (u_namespace u) (u_kind u) (u_name u)).
     CHR ''/'' \<notin> set e"
  using folder_elements_no_slash resource_elements_simple
  by (auto simp: list_all_iff simple_name_def)

lemma resource_elements_inject:
  "resource_elements ns k n = resource_elements ns' k' n' \<longleftrightarrow> ns = ns' \<and> k = k' \<and> n = n'"
  by (auto simp: resource_elements_def)

text \<open>
  The file of a resource with ordinary names stands in the folder it is given, and its path
  tells the namespace, the kind and the name, so that resources differing in one of them get
  different files, cluster-wide resources included.
\<close>

theorem stored_path_injective:
  assumes "folder \<noteq> []" and "named_simply u" and "named_simply v"
  shows "resourceFilePath folder u = resourceFilePath folder v \<longleftrightarrow>
      u_namespace u = u_namespace v \<and> u_kind u = u_kind v \<and> u_name u = u_name v"
    (is "?l \<longleftrightarrow> ?r")
proof
  let ?f = "folder_elements folder"
  let ?eu = "resource_elements (u_namespace u) (u_kind u) (u_name u)"
  let ?ev = "resource_elements (u_namespace v) (u_kind v) (u_name v)"
  assume ?l
  moreover have "?f @ ?eu \<noteq> []" "?f @ ?ev \<noteq> []" by (simp_all add: resource_elements_def)
  ultimately have "intercalate ''/'' (?f @ ?eu) = intercalate ''/'' (?f @ ?ev)"
    by (simp add: resourceFilePath_elements assms render_path_def split: if_splits)
  then have "?f @ ?eu = ?f @ ?ev"
    by (intro intercalate_inject [OF \<open>?f @ ?eu \<noteq> []\<close> \<open>?f @ ?ev \<noteq> []\<close>
          path_elements_no_slash [OF assms(2)] path_elements_no_slash [OF assms(3)]])
  then show ?r by (simp add: resource_elements_inject)
next
  assume ?r
  then show ?l by (simp add: resourceFilePath_def)
qed

definition named :: "string \<Rightarrow> string \<Rightarrow> string \<Rightarrow> string \<Rightarrow> unstructured" where
  "named apiVersion ns kind name =
     \<lparr>u_apiVersion = apiVersion, u_kind = kind, u_namespace = ns, u_name = name,
      u_deletionTimestamp = None, u_resourceVersion = [], u_content = [(''a'', GString apiVersion)]\<rparr>"

theorem stored_path_injective_witness:
  "resourceFilePath ''/data/c1'' (named ''v1'' ''prod'' ''Pod'' ''web'') = ''/data/c1/prod/Pod/web.yaml'' \<and>
   resourceFilePath ''/data/c1'' (named ''v1'' ''prod'' ''Pod'' ''web'') \<noteq>
     resourceFilePath ''/data/c1'' (named ''v1'' [] ''prod'' ''web'')"
proof -
  have "named_simply (named ''v1'' ''prod'' ''Pod'' ''web'')" "named_simply (named ''v1'' [] ''prod'' ''web'')"
    by (simp_all add: named_simply_def named_def simple_name_def)
  from stored_path_injective [OF _ this, of "''/data/c1''"]
  have "resourceFilePath ''/data/c1'' (named ''v1'' ''prod'' ''Pod'' ''web'') \<noteq>
      resourceFilePath ''/data/c1'' (named ''v1'' [] ''prod'' ''web'')"
    by (simp add: named_def)
  moreover have "resourceFilePath ''/data/c1'' (named ''v1'' ''prod'' ''Pod'' ''web'') =
      ''/data/c1/prod/Pod/web.yaml''" by code_simp
  ultimately show ?thesis by blast
qed

section \<open>What is on disk afterwards\<close>

text \<open>A file system where the calls succeed, with its files as a map.\<close>

definition disk_works :: "('f, 'y) filesystem_scheme \<Rightarrow> ('f \<Rightarrow> string \<Rightarrow> string option) \<Rightarrow> bool" where
  "disk_works fs files \<longleftrightarrow>
     (\<forall>p st. fst (fs_mkdirAll fs p st) = None \<and> files (snd (fs_mkdirAll fs p st)) = files st) \<and>
     (\<forall>p st. fst (fs_openAppend fs p st) = None \<and>
        files (snd (fs_openAppend fs p st)) =
          (files st)(p \<mapsto> (case files st p of None \<Rightarrow> [] | Some c \<Rightarrow> c))) \<and>
     (\<forall>p c st. fst (fs_writeFile fs p c st) = None \<and>
        files (snd (fs_writeFile fs p c st)) = (files st)(p \<mapsto> c))"

text \<open>The path and the content of the file of a resource; None when it cannot be encoded.\<close>

definition dump_entry ::
  "('f, 'y) filesystem_scheme \<Rightarrow> (unstructured \<Rightarrow> GroupVersionKind list outcome) \<Rightarrow> string \<Rightarrow>
   unstructured \<Rightarrow> (string \<times> string) option" where
  "dump_entry fs objectKinds folder u =
     (let u1 = u_SetResourceVersion fs [] u
      in case addTypeInformationToObject (objectKinds u1) (u_SetGroupVersionKind fs) u1 of
           Ok u2 \<Rightarrow>
             (case yaml_Marshal fs (u_content u2) of
                Inr y \<Rightarrow> if meta_Accessor fs u2 = None then Some (resourceFilePath folder u2, y) else None
              | Inl _ \<Rightarrow> None)
         | _ \<Rightarrow> None)"

definition put_entry :: "(string \<Rightarrow> string option) \<Rightarrow> (string \<times> string) option \<Rightarrow> string \<Rightarrow> string option"
  where
  "put_entry files e = (case e of None \<Rightarrow> files | Some (p, y) \<Rightarrow> files(p \<mapsto> y))"

lemma addType_no_panic:
  "kinds \<noteq> Panic \<Longrightarrow> addTypeInformationToObject kinds f u \<noteq> Panic"
  by (cases kinds) (auto simp: addTypeInformationToObject_def split: option.split)

lemma ex_second: "(\<exists>a b. x = (a, b) \<and> P b) \<longleftrightarrow> P (snd x)"
  by (cases x) simp

lemma dumpObject_files:
  assumes "disk_works fs files" and "\<forall>u. objectKinds u \<noteq> Panic"
  shows "\<exists>r. dumpObject fs objectKinds u folder st = Ok r \<and>
    files (snd r) = put_entry (files st) (dump_entry fs objectKinds folder u)"
proof -
  let ?u1 = "u_SetResourceVersion fs [] u"
  have np: "addTypeInformationToObject (objectKinds ?u1) (u_SetGroupVersionKind fs) ?u1 \<noteq> Panic"
    by (rule addType_no_panic) (rule assms(2) [THEN spec])
  have law: "fst (fs_mkdirAll fs p st) = None" "files (snd (fs_mkdirAll fs p st)) = files st"
    "fst (fs_openAppend fs p st) = None" "fst (fs_writeFile fs p c st) = None"
    "files (snd (fs_openAppend fs p st)) =
       (files st)(p \<mapsto> (case files st p of None \<Rightarrow> [] | Some c \<Rightarrow> c))"
    "files (snd (fs_writeFile fs p c st)) = (files st)(p \<mapsto> c)" for p c st
    using assms(1) by (simp_all add: disk_works_def)
  show ?thesis
    using np law
    by (auto simp: dumpObject_def dump_entry_def put_entry_def Let_def prod.case_eq_if ex_second
        split: outcome.split sum.split)
qed

lemma dump_all_files:
  assumes "disk_works fs files" and "\<forall>u. objectKinds u \<noteq> Panic"
  shows "\<exists>st'. dump_all fs objectKinds rs folder st = Ok st' \<and>
    files st' = foldl (\<lambda>m r. put_entry m (dump_entry fs objectKinds folder (rr_Resource r)))
      (files st) rs"
proof (induction rs arbitrary: st)
  case Nil
  then show ?case by simp
next
  case (Cons r rs)
  obtain q where "dumpObject fs objectKinds (rr_Resource r) folder st = Ok q"
    "files (snd q) = put_entry (files st) (dump_entry fs objectKinds folder (rr_Resource r))"
    using dumpObject_files [OF assms, of "rr_Resource r" folder st] by blast
  with Cons.IH [of "snd q"] show ?case by (simp add: prod.case_eq_if)
qed

text \<open>
  C28. When the storage directory is there and the disk works, storing succeeds and leaves, under
  the folder of the Cleaner, the content of every processed resource that can be encoded, each
  written after the ones before it; a resource that cannot be encoded is skipped and does not keep
  the others from being stored.  Without the directory nothing is written and the call fails.
\<close>

theorem stored_files:
  assumes "disk_works fs files" and "\<forall>u. objectKinds u \<noteq> Panic"
    and "spec_StoreResourcePath (cl_Spec cleaner) = storage" and "storage \<noteq> []"
  shows "case fs_statNotExist fs st storage of
      Some e \<Rightarrow> storeResources fs objectKinds rs cleaner st = Ok (Some e, st)
    | None \<Rightarrow> \<exists>st'. storeResources fs objectKinds rs cleaner st = Ok (None, st') \<and>
        files st' = foldl (\<lambda>m r. put_entry m
            (dump_entry fs objectKinds (path_Join [storage, cl_Name cleaner]) (rr_Resource r)))
          (files st) rs"
proof -
  obtain st' where "dump_all fs objectKinds rs (path_Join [storage, cl_Name cleaner]) st = Ok st'"
    "files st' = foldl (\<lambda>m r. put_entry m
        (dump_entry fs objectKinds (path_Join [storage, cl_Name cleaner]) (rr_Resource r)))
      (files st) rs"
    using dump_all_files [OF assms(1,2),
        where folder = "path_Join [storage, cl_Name cleaner]" and st = st and rs = rs] by blast
  then show ?thesis
    using assms(3,4) by (auto simp: storeResources_def getFolder_def split: option.split)
qed

text \<open>A disk as an association of paths with contents, and an encoder that writes one field.\<close>

definition ref_disk :: "(string \<Rightarrow> string option) filesystem" where
  "ref_disk =
     \<lparr>fs_statNotExist = (\<lambda>st p. if p = ''/data'' then None else Some (PlainError ''no such directory'')),
      fs_mkdirAll = (\<lambda>p st. (None, st)),
      fs_openAppend = (\<lambda>p st. (None, st(p \<mapsto> (case st p of None \<Rightarrow> [] | Some c \<Rightarrow> c)))),
      fs_writeFile = (\<lambda>p c st. (None, st(p \<mapsto> c))),
      yaml_Marshal = (\<lambda>m. case m of [(k, GString s)] \<Rightarrow> Inr s | _ \<Rightarrow> Inl (PlainError ''yaml'')),
      meta_Accessor = (\<lambda>_. None),
      u_SetResourceVersion = (\<lambda>v u. u\<lparr>u_resourceVersion := v\<rparr>),
      u_SetGroupVersionKind = (\<lambda>gvk u. u\<lparr>u_kind := gvk_Kind gvk, u_apiVersion := gvk_apiVersion gvk\<rparr>)\<rparr>"

lemma ref_disk_works: "disk_works ref_disk (\<lambda>st. st)"
  by (simp add: disk_works_def ref_disk_def)

definition storing_cleaner :: Cleaner where
  "storing_cleaner = (zero_Cleaner 0)
     \<lparr>cl_Name := ''c1'', cl_Spec := (cl_Spec (zero_Cleaner 0))\<lparr>spec_StoreResourcePath := ''/data''\<rparr>\<rparr>"

lemma storing_cleaner_simps [simp]:
  "cl_Name storing_cleaner = ''c1''"
  "spec_StoreResourcePath (cl_Spec storing_cleaner) = ''/data''"
  by (simp_all add: storing_cleaner_def)

lemma ref_disk_exists [simp]: "fs_statNotExist ref_disk st ''/data'' = None"
  by (simp add: ref_disk_def)

lemma ref_entry:
  "dump_entry ref_disk (\<lambda>_. Ok []) folder (named v ns kind name) =
     Some (resourceFilePath folder (named v ns kind name), v)"
  by (simp add: dump_entry_def ref_disk_def named_def addTypeInformationToObject_def
      resourceFilePath_def)

theorem stored_files_witness:
  "\<exists>st'. storeResources ref_disk (\<lambda>_. Ok [])
       [\<lparr>rr_Resource = named ''v1'' ''prod'' ''Pod'' ''web'', rr_Message = []\<rparr>] storing_cleaner Map.empty =
       Ok (None, st') \<and>
     st' ''/data/c1/prod/Pod/web.yaml'' = Some ''v1''"
proof -
  have p: "resourceFilePath (path_Join [''/data'', ''c1'']) (named ''v1'' ''prod'' ''Pod'' ''web'') =
      ''/data/c1/prod/Pod/web.yaml''" by code_simp
  have "\<forall>u :: unstructured. (Ok [] :: GroupVersionKind list outcome) \<noteq> Panic" by simp
  from stored_files [OF ref_disk_works this storing_cleaner_simps(2), where st = Map.empty and
      rs = "[\<lparr>rr_Resource = named ''v1'' ''prod'' ''Pod'' ''web'', rr_Message = []\<rparr>]"]
  obtain st' where "storeResources ref_disk (\<lambda>_. Ok [])
       [\<lparr>rr_Resource = named ''v1'' ''prod'' ''Pod'' ''web'', rr_Message = []\<rparr>] storing_cleaner Map.empty =
       Ok (None, st')"
    "st' = put_entry Map.empty (Some (''/data/c1/prod/Pod/web.yaml'', ''v1''))"
    by (auto simp: ref_entry p)
  then show ?thesis by (simp add: put_entry_def)
qed

text \<open>
  The API group is not part of the path: of two processed resources of one namespace, kind and
  name in different groups only the later is kept on disk, and the call reports no error.
\<close>

theorem same_path_overwrites:
  assumes "disk_works fs files" and "\<forall>u. objectKinds u \<noteq> Panic"
    and "spec_StoreResourcePath (cl_Spec cleaner) = storage" and "storage \<noteq> []"
    and "fs_statNotExist fs st storage = None"
    and "dump_entry fs objectKinds (path_Join [storage, cl_Name cleaner]) u = Some (p, y)"
    and "dump_entry fs objectKinds (path_Join [storage, cl_Name cleaner]) v = Some (p, z)"
  shows "\<exists>st'. storeResources fs objectKinds
      [\<lparr>rr_Resource = u, rr_Message = m\<rparr>, \<lparr>rr_Resource = v, rr_Message = m'\<rparr>] cleaner st = Ok (None, st') \<and>
    files st' = (files st)(p \<mapsto> z)"
proof -
  obtain st' where "dump_all fs objectKinds
      [\<lparr>rr_Resource = u, rr_Message = m\<rparr>, \<lparr>rr_Resource = v, rr_Message = m'\<rparr>]
      (path_Join [storage, cl_Name cleaner]) st = Ok st'" "files st' = (files st)(p \<mapsto> z)"
    using dump_all_files [OF assms(1,2), where folder = "path_Join [storage, cl_Name cleaner]"
        and st = st and rs = "[\<lparr>rr_Resource = u, rr_Message = m\<rparr>, \<lparr>rr_Resource = v, rr_Message = m'\<rparr>]"]
    by (auto simp: assms(6,7) put_entry_def)
  then show ?thesis
    using assms(3-5) by (auto simp: storeResources_def getFolder_def simp del: dump_all.simps)
qed

theorem same_path_overwrites_witness:
  "\<exists>st'. storeResources ref_disk (\<lambda>_. Ok [])
       [\<lparr>rr_Resource = named ''extensions/v1beta1'' ''prod'' ''Ingress'' ''web'', rr_Message = []\<rparr>,
        \<lparr>rr_Resource = named ''networking.k8s.io/v1'' ''prod'' ''Ingress'' ''web'', rr_Message = []\<rparr>]
       storing_cleaner Map.empty = Ok (None, st') \<and>
     st' = Map.empty(''/data/c1/prod/Ingress/web.yaml'' \<mapsto> ''networking.k8s.io/v1'')"
proof -
  have "resourceFilePath (path_Join [''/data'', ''c1'']) (named ''extensions/v1beta1'' ''prod'' ''Ingress'' ''web'') =
      ''/data/c1/prod/Ingress/web.yaml''"
    "resourceFilePath (path_Join [''/data'', ''c1'']) (named ''networking.k8s.io/v1'' ''prod'' ''Ingress'' ''web'') =
      ''/data/c1/prod/Ingress/web.yaml''"
    by (code_simp, code_simp)
  then show ?thesis
    by (intro same_path_overwrites [OF ref_disk_works _ storing_cleaner_simps(2) _ ref_disk_exists,
          where y = "''extensions/v1beta1''"]) (simp_all add: ref_entry)
qed

end
