(* ===== verification/Executor_Properties.thy ===== *)
theory Executor_Properties
  imports Executor Action_Properties Notification_Properties Store_Properties
begin

text \<open>
  What a whole run of a Cleaner guarantees, whatever fails: a run that cannot select touches nothing,
  a scan never writes to a resource, a deletion takes out selected resources only and all of them
  when it reports success, and a failed notification keeps the dump from being written.
\<close>

section \<open>Runs that do nothing\<close>

lemma zero_Cleaner_run:
  "processCleanerInstance d n s = Ok (None, s)"
  if "getCleanerInstance d n (world s) = (zero_Cleaner z, None)"
  using that
  by (simp add: processCleanerInstance_def select_resources_def zero_Cleaner_def run_action_def
      finish_run_def sendNotifications_loop storeResources_def Let_def)

text \<open>
  C20. Nothing is deleted, updated, counted, sent or stored unless the whole selection succeeds: a
  Cleaner that is gone ends the run without an error, and an error of the lookup, of a selector or of
  the aggregated selection ends it with that error; the state is the one before the run.
\<close>

theorem failed_selection_touches_nothing:
  "(case d_getCleaner d n (world s) of
      Inl e \<Rightarrow> processCleanerInstance d n s = Ok (if isNotFound e then None else Some e, s)
    | Inr cleaner \<Rightarrow>
        (case select_resources d cleaner (world s) of
           Fail e \<Rightarrow> processCleanerInstance d n s = Ok (Some e, s)
         | Panic \<Rightarrow> processCleanerInstance d n s = Panic
         | Ok rs \<Rightarrow> processCleanerInstance d n s =
             bind_outcome (run_action d n cleaner rs s) (finish_run d cleaner)))"
proof (cases "d_getCleaner d n (world s)")
  case (Inl e)
  then show ?thesis
    using zero_Cleaner_run [of d n s "d_zeroTime d"]
    by (cases "isNotFound e")
      (simp_all add: getCleanerInstance_def processCleanerInstance_def)
next
  case (Inr cleaner)
  then show ?thesis
    by (simp add: getCleanerInstance_def processCleanerInstance_def split: outcome.split)
qed

section \<open>Scanning\<close>

text \<open>The same dependencies with other writing calls.\<close>

definition with_writes ::
  "('w \<Rightarrow> unstructured \<Rightarrow> DeleteOptions \<Rightarrow> go_err \<times> 'w) \<Rightarrow>
   ('w \<Rightarrow> unstructured option \<Rightarrow> (go_err \<times> unstructured \<times> 'w) option) \<Rightarrow>
   ('w, 'st, 't) deps \<Rightarrow> ('w, 'st, 't) deps" where
  "with_writes del upd d =
     d\<lparr>d_cluster := (d_cluster d)\<lparr>api_delete := del, api_update := upd\<rparr>\<rparr>"

lemma matching_namespaces_writes:
  "matching_namespaces (cl\<lparr>api_delete := del, api_update := upd\<rparr>) sel nss =
   matching_namespaces cl sel nss"
  by (induction nss) simp_all

lemma listing_writes:
  "collectWithOptions (cl\<lparr>api_delete := del, api_update := upd\<rparr>) = collectWithOptions cl"
  "collectFromNamespaces (cl\<lparr>api_delete := del, api_update := upd\<rparr>) = collectFromNamespaces cl"
  "getNamespaces (cl\<lparr>api_delete := del, api_update := upd\<rparr>) = getNamespaces cl"
  by (simp_all add: fun_eq_iff collectWithOptions_def collectFromNamespaces_def getNamespaces_def
      matching_namespaces_writes [abs_def])

lemma getMatching_writes:
  "getMatchingResources (cl\<lparr>api_delete := del, api_update := upd\<rparr>) vm w sr =
   getMatchingResources cl vm w sr"
proof -
  have disc: "api_discover (cl\<lparr>api_delete := del, api_update := upd\<rparr>) = api_discover cl" by simp
  show ?thesis
    unfolding getMatchingResources_def fetchResources_def listing_writes disc by (rule refl)
qed

lemma with_writes_fields:
  "d_vm (with_writes del upd d) = d_vm d"
  "d_notifier (with_writes del upd d) = d_notifier d"
  "d_disk (with_writes del upd d) = d_disk d"
  "d_getCleaner (with_writes del upd d) = d_getCleaner d"
  "d_now (with_writes del upd d) = d_now d"
  "d_zeroTime (with_writes del upd d) = d_zeroTime d"
  "scheme_objectKinds (d_cluster (with_writes del upd d)) = scheme_objectKinds (d_cluster d)"
  "getMatchingResources (d_cluster (with_writes del upd d)) vm w =
     getMatchingResources (d_cluster d) vm w"
  by (simp_all add: with_writes_def fun_eq_iff getMatching_writes)

lemma reads_with_writes [simp]:
  "select_resources (with_writes del upd d) cleaner w = select_resources d cleaner w"
  "finish_run (with_writes del upd d) = finish_run d"
  "getCleanerInstance (with_writes del upd d) n w = getCleanerInstance d n w"
  unfolding select_resources_def finish_run_def getCleanerInstance_def with_writes_fields
  by (rule refl)+

text \<open>
  C19. A Cleaner whose action is Scan, or is none of the three, never deletes or updates a resource:
  its run is the same whatever the delete and update calls would do.
\<close>

theorem scan_never_writes:
  assumes "\<forall>cleaner. d_getCleaner d n (world s) = Inr cleaner \<longrightarrow>
    spec_Action (cl_Spec cleaner) \<notin> {ActionDelete, ActionTransform}"
  shows "processCleanerInstance (with_writes del upd d) n s = processCleanerInstance d n s"
proof -
  have "run_action (with_writes del upd d) n cleaner rs t = run_action d n cleaner rs t"
    if "spec_Action (cl_Spec cleaner) \<notin> {ActionDelete, ActionTransform}" for cleaner rs t
    using that by (cases "spec_Action (cl_Spec cleaner)") (simp_all add: run_action_def)
  moreover have "spec_Action (cl_Spec cleaner) \<notin> {ActionDelete, ActionTransform}"
    if "getCleanerInstance d n (world s) = (cleaner, None)" for cleaner
    using assms that
    by (auto simp: getCleanerInstance_def zero_Cleaner_def split: sum.splits if_splits)
  ultimately show ?thesis
    by (simp add: processCleanerInstance_def split: prod.split option.split outcome.split)
qed

section \<open>Deleting\<close>

text \<open>What the steps after the action leave alone: the messages, the reports and the files.\<close>

definition others_keep :: "('w, 'st, 't) deps \<Rightarrow> ('w \<Rightarrow> 'v) \<Rightarrow> bool" where
  "others_keep d v \<longleftrightarrow>
     services_keep (d_notifier d) v \<and>
     (\<forall>r w. v (snd (api_createReport (d_notifier d) r w)) = v w) \<and>
     (\<forall>r w. v (snd (api_updateReport (d_notifier d) r w)) = v w) \<and>
     (\<forall>p w. v (snd (fs_mkdirAll (d_disk d) p w)) = v w) \<and>
     (\<forall>p w. v (snd (fs_openAppend (d_disk d) p w)) = v w) \<and>
     (\<forall>p c w. v (snd (fs_writeFile (d_disk d) p c w)) = v w)"

lemma createReport_keeps:
  "others_keep d v \<Longrightarrow> act_keeps v (createReportInstance (d_notifier d) cleaner rep)"
  by (auto simp: others_keep_def act_keeps_def createReportInstance_def act_check_def
      prod.case_eq_if split: sum.split option.split)

lemma deliver_keeps:
  assumes "others_keep d v" and "deliver (d_notifier d) cleaner rs rep message nt = Some send"
  shows "act_keeps v send"
proof -
  have sv: "services_keep (d_notifier d) v" using assms(1) by (simp add: others_keep_def)
  have "act_keeps v (\<lambda>w. (Inr (), sendKubernetesEventNotification (d_notifier d) cleaner rs w))"
    using events_keep [OF sv] by (simp add: act_keeps_def)
  then show ?thesis
    using assms(2) sends_keep [OF sv] createReport_keeps [OF assms(1)]
    by (auto simp: deliver_def Let_def split: NotificationType.splits if_splits)
qed

lemma sendNotifications_keeps:
  assumes "others_keep d v" and "sendNotifications (d_notifier d) now rs cleaner w = Ok (err, w')"
  shows "v w' = v w"
proof -
  have "v w' = v w"
    if "send_loop (run_deliver (d_notifier d) now rs cleaner) ns w = Ok (err, w')" for ns
    using that
  proof (induction ns arbitrary: w)
    case Nil
    then show ?case by simp
  next
    case (Cons nt ns)
    then obtain send where h: "run_deliver (d_notifier d) now rs cleaner nt = Some send"
      by (auto split: option.splits)
    obtain r w1 where send: "send w = (r, w1)" by (cases "send w")
    then have "v w1 = v w"
      using deliver_keeps [OF assms(1) h [unfolded run_deliver_def]] unfolding act_keeps_def by (metis snd_conv)
    moreover have "v w' = v w1"
      using Cons h send by (cases r) auto
    ultimately show ?case by simp
  qed
  then show ?thesis using assms(2) by (simp add: sendNotifications_loop)
qed

lemma dumpObject_keeps:
  assumes "others_keep d v" and "dumpObject (d_disk d) kinds u folder w = Ok r"
  shows "v (snd r) = v w"
proof -
  have "v (snd (fs_mkdirAll (d_disk d) p w)) = v w" "v (snd (fs_openAppend (d_disk d) p w)) = v w"
    "v (snd (fs_writeFile (d_disk d) p c w)) = v w" for p c w
    using assms(1) by (simp_all add: others_keep_def)
  then show ?thesis
    using assms(2)
    by (auto simp: dumpObject_def Let_def prod.case_eq_if
        split: outcome.splits sum.splits if_splits)
qed

lemma storeResources_keeps:
  assumes "others_keep d v" and "storeResources (d_disk d) kinds rs cleaner w = Ok (err, w')"
  shows "v w' = v w"
proof -
  have "v w' = v w" if "dump_all (d_disk d) kinds rs folder w = Ok w'" for folder
    using that
  proof (induction rs arbitrary: w)
    case Nil
    then show ?case by simp
  next
    case (Cons r rs)
    then obtain e w1 where dump: "dumpObject (d_disk d) kinds (rr_Resource r) folder w = Ok (e, w1)"
      and rest: "dump_all (d_disk d) kinds rs folder w1 = Ok w'" by auto
    show ?case using dumpObject_keeps [OF assms(1) dump] Cons.IH [OF rest] by simp
  qed
  then show ?thesis
    using assms(2) by (auto simp: storeResources_def split: if_splits sum.splits)
qed

lemma finish_run_keeps:
  assumes "others_keep d v" and "finish_run d cleaner (ps, aerr, u) = Ok (err, t)"
  shows "v (world t) = v (world u)" and "err = None \<Longrightarrow> aerr = None"
proof -
  obtain e1 w1 where send: "sendNotifications (d_notifier d) (d_now d (world u)) ps cleaner (world u) =
      Ok (e1, w1)"
    and rest: "(if e1 \<noteq> None then Ok (e1, u\<lparr>world := w1\<rparr>)
      else bind_outcome (storeResources (d_disk d) (scheme_objectKinds (d_cluster d)) ps cleaner w1)
        (\<lambda>(e2, w2). if e2 \<noteq> None then Ok (e2, u\<lparr>world := w2\<rparr>) else Ok (aerr, u\<lparr>world := w2\<rparr>))) =
      Ok (err, t)"
    using assms(2) by (auto simp: finish_run_def)
  have v1: "v w1 = v (world u)" using sendNotifications_keeps [OF assms(1) send] .
  show "v (world t) = v (world u)"
    using rest v1 storeResources_keeps [OF assms(1)]
    by (auto split: if_splits)
  show "err = None \<Longrightarrow> aerr = None" using rest by (auto split: if_splits)
qed

text \<open>
  C3. A run that deletes takes only selected resources out of the cluster, at most once each and
  whatever fails in it; and a run that reports success has left none of the selected ones.
\<close>

theorem delete_run_safe:
  assumes "delete_removes (d_cluster d) live" and "others_keep d live"
    and "d_getCleaner d n (world s) = Inr cleaner" and "spec_Action (cl_Spec cleaner) = ActionDelete"
    and "select_resources d cleaner (world s) = Ok rs"
    and "processCleanerInstance d n s = Ok (err, t)"
  shows "\<exists>ps. subseq ps rs \<and> live (world t) = live (world s) - res_id ` set ps \<and>
    (err = None \<longrightarrow> live (world t) \<inter> res_id ` set rs = {})"
proof -
  obtain ps aerr u where del: "deleteMatchingResources (d_cluster d) n rs
      (spec_DeleteOptions (cl_Spec cleaner)) s = (ps, aerr, u)"
    by (cases "deleteMatchingResources (d_cluster d) n rs (spec_DeleteOptions (cl_Spec cleaner)) s")
  have "run_action d n cleaner rs s = Ok (ps, aerr, u)"
    using assms(4) del by (simp add: run_action_def)
  then have fin: "finish_run d cleaner (ps, aerr, u) = Ok (err, t)"
    using assms(3,5,6) by (simp add: processCleanerInstance_def getCleanerInstance_def)
  note keep = finish_run_keeps [OF assms(2) fin]
  note gone = delete_effect [OF assms(1) del]
  show ?thesis using keep gone by auto
qed

text \<open>A whole node to run a Cleaner on: the cluster, the services and a disk as one state.\<close>

record node = sink +
  nd_files :: "string \<rightharpoonup> string"

definition node_disk :: "node filesystem" where
  "node_disk =
     \<lparr>fs_statNotExist = (\<lambda>st p. None), fs_mkdirAll = (\<lambda>p st. (None, st)),
      fs_openAppend = (\<lambda>p st. (None, st)),
      fs_writeFile = (\<lambda>p c st. (None, st\<lparr>nd_files := (nd_files st)(p \<mapsto> c)\<rparr>)),
      yaml_Marshal = (\<lambda>m. Inr ''yaml''), meta_Accessor = (\<lambda>_. None),
      u_SetResourceVersion = (\<lambda>v u. u\<lparr>u_resourceVersion := v\<rparr>),
      u_SetGroupVersionKind = (\<lambda>gvk u. u\<lparr>u_kind := gvk_Kind gvk\<rparr>)\<rparr>"

definition deleting_cleaner :: "NotificationType list \<Rightarrow> Cleaner" where
  "deleting_cleaner tys = (notifying_cleaner tys)
     \<lparr>cl_Spec := (cl_Spec (notifying_cleaner tys))
        \<lparr>spec_Action := ActionDelete, spec_StoreResourcePath := ''/data'',
         spec_ResourcePolicySet := \<lparr>ResourceSelectors = [example_selector], AggregatedSelection = []\<rparr>\<rparr>\<rparr>"

definition example_deps :: "NotificationType list \<Rightarrow> (node, unit, ref_table) deps" where
  "example_deps tys =
     \<lparr>d_cluster = ref_cluster, d_vm = example_vm, d_notifier = ref_notifier, d_disk = node_disk,
      d_getCleaner = (\<lambda>n w. Inr (deleting_cleaner tys)), d_now = (\<lambda>_. ''noon''), d_zeroTime = 0\<rparr>"

definition example_node :: "node exec" where
  "example_node =
     \<lparr>world = ref_world.extend example_world
        \<lparr>sk_reports = Map.empty, sk_sent = [], nd_files = Map.empty\<rparr>,
      counters = zero_metrics\<rparr>"

lemma example_node_world:
  "w_namespaces (world example_node) = w_namespaces example_world"
  "w_objects (world example_node) = w_objects example_world"
  by (simp_all add: example_node_def ref_world.defs)

lemma example_deps_keep: "others_keep (example_deps tys) (\<lambda>w. obj_id ` set (w_objects w))"
  by (simp add: others_keep_def services_keep_def example_deps_def ref_notifier_def node_disk_def
      sent_ok_def)

lemma example_fetch:
  "fetchResources ref_cluster (world example_node) example_selector =
     Ok (Some [example_pod ''a'' ''p1''])"
proof -
  have "getNamespaces ref_cluster (world example_node) example_selector = Ok [''a'']"
    by (simp add: getNamespaces_def ref_cluster_def cluster_reader.defs ref_reader_def
        example_selector_def example_node_world) (simp add: example_world_def)
  then show ?thesis
    by (simp add: fetchResources_def ref_cluster_def cluster_reader.defs ref_reader_def
        example_selector_def collectFromNamespaces_def collectWithOptions_def Let_def
        example_node_world field_namespace_def)
      (simp add: example_world_def example_pod_def)
qed

lemma example_matching:
  "getMatchingResources ref_cluster example_vm (world example_node) example_selector =
     Ok [as_result (example_pod ''a'' ''p1'')]"
proof -
  have "rs_Evaluate example_selector = []" by (simp add: example_selector_def)
  then show ?thesis
    using example_fetch
    by (simp add: getMatchingResources_def match_resource_verdict verdict_no_script as_result_def
        example_pod_def)
qed

lemma example_select:
  "select_resources (example_deps tys) (deleting_cleaner tys) (world example_node) =
     Ok [as_result (example_pod ''a'' ''p1'')]"
  using example_matching by (simp add: select_resources_def example_deps_def deleting_cleaner_def)

lemma example_delete:
  "\<exists>t. deleteMatchingResources ref_cluster n [as_result (example_pod ''a'' ''p1'')] opts example_node =
     ([as_result (example_pod ''a'' ''p1'')], None, t)"
  by (simp add: deleteMatchingResources_def ref_cluster_def cluster_reader.defs example_node_world
      example_world_def example_pod_def as_result_def join_errors_def)

theorem delete_run_safe_witness:
  "\<exists>err t. processCleanerInstance (example_deps []) ''c1'' example_node = Ok (err, t) \<and>
     (err = None \<longrightarrow> obj_id (example_pod ''a'' ''p1'') \<notin> obj_id ` set (w_objects (world t)))"
proof -
  let ?d = "example_deps []" and ?rs = "[as_result (example_pod ''a'' ''p1'')]"
  have gets: "d_getCleaner ?d ''c1'' (world example_node) = Inr (deleting_cleaner [])"
    and act: "spec_Action (cl_Spec (deleting_cleaner [])) = ActionDelete"
    by (simp_all add: example_deps_def deleting_cleaner_def)
  have rem: "delete_removes (d_cluster ?d) (\<lambda>w. obj_id ` set (w_objects w))"
    by (simp add: example_deps_def ref_cluster_deletes)
  obtain u where "deleteMatchingResources ref_cluster ''c1'' ?rs
      (spec_DeleteOptions (cl_Spec (deleting_cleaner []))) example_node = (?rs, None, u)"
    using example_delete by blast
  then have "processCleanerInstance ?d ''c1'' example_node = finish_run ?d (deleting_cleaner []) (?rs, None, u)"
    using gets act example_select [of "[]"]
    by (simp add: processCleanerInstance_def getCleanerInstance_def run_action_def)
      (simp add: example_deps_def)
  moreover have "\<exists>err t. finish_run ?d (deleting_cleaner []) (?rs, None, u) = Ok (err, t)"
    by (simp add: finish_run_def sendNotifications_loop deleting_cleaner_def storeResources_def
        getFolder_def example_deps_def node_disk_def dumpObject_def addTypeInformationToObject_def
        ref_cluster_def cluster_reader.defs ref_reader_def)
  ultimately obtain err t where run: "processCleanerInstance ?d ''c1'' example_node = Ok (err, t)"
    by (elim exE) simp
  have "obj_id (example_pod ''a'' ''p1'') \<in> res_id ` set ?rs" by (simp add: res_id_def as_result_def)
  moreover have "err = None \<longrightarrow> obj_id ` set (w_objects (world t)) \<inter> res_id ` set ?rs = {}"
    using delete_run_safe [OF rem example_deps_keep gets act example_select run] by blast
  ultimately have "err = None \<longrightarrow> obj_id (example_pod ''a'' ''p1'') \<notin> obj_id ` set (w_objects (world t))"
    by blast
  with run show ?thesis by (intro exI conjI)
qed

section \<open>The dump that is not written\<close>

text \<open>
  C34. The resources are dumped after they have been acted on and notified about: when a
  notification fails, the run ends there and nothing is stored, whatever the disk could do, although
  the resources have been deleted.
\<close>

theorem failed_notification_loses_dump:
  assumes "d_getCleaner d n (world s) = Inr cleaner" and "spec_Action (cl_Spec cleaner) = ActionDelete"
    and "select_resources d cleaner (world s) = Ok rs"
    and "deleteMatchingResources (d_cluster d) n rs (spec_DeleteOptions (cl_Spec cleaner)) s = (ps, aerr, u)"
    and "sendNotifications (d_notifier d) (d_now d (world u)) ps cleaner (world u) = Ok (Some e, w1)"
  shows "processCleanerInstance (d\<lparr>d_disk := any_disk\<rparr>) n s = Ok (Some e, u\<lparr>world := w1\<rparr>)"
proof -
  have fields: "d_cluster (d\<lparr>d_disk := any_disk\<rparr>) = d_cluster d" "d_vm (d\<lparr>d_disk := any_disk\<rparr>) = d_vm d"
    "d_notifier (d\<lparr>d_disk := any_disk\<rparr>) = d_notifier d" "d_now (d\<lparr>d_disk := any_disk\<rparr>) = d_now d"
    by simp_all
  have "select_resources (d\<lparr>d_disk := any_disk\<rparr>) cleaner (world s) = Ok rs"
    using assms(3) unfolding select_resources_def fields .
  moreover have "run_action (d\<lparr>d_disk := any_disk\<rparr>) n cleaner rs s = Ok (ps, aerr, u)"
    using assms(2,4) by (simp add: run_action_def)
  ultimately show ?thesis
    using assms(1,5) by (simp add: processCleanerInstance_def getCleanerInstance_def finish_run_def)
qed

theorem failed_notification_loses_dump_witness:
  "\<exists>t. processCleanerInstance (example_deps [NotificationTypeDiscord]) ''c1'' example_node =
     Ok (Some (PlainError ''discord is down''), t)"
proof -
  let ?d = "example_deps [NotificationTypeDiscord]" and ?c = "deleting_cleaner [NotificationTypeDiscord]"
  let ?rs = "[as_result (example_pod ''a'' ''p1'')]"
  have gets: "d_getCleaner ?d ''c1'' (world example_node) = Inr ?c"
    and act: "spec_Action (cl_Spec ?c) = ActionDelete"
    by (simp_all add: example_deps_def deleting_cleaner_def)
  obtain u where del: "deleteMatchingResources (d_cluster ?d) ''c1'' ?rs
      (spec_DeleteOptions (cl_Spec ?c)) example_node = (?rs, None, u)"
    using example_delete by (auto simp: example_deps_def)
  have "\<exists>w1. sendNotifications (d_notifier ?d) (d_now ?d (world u)) ?rs ?c (world u) =
      Ok (Some (PlainError ''discord is down''), w1)"
    by (simp add: ref_run example_deps_def deleting_cleaner_def getSecret_def secret_ref_def
        ref_notifier_def)
  then obtain w1 where "sendNotifications (d_notifier ?d) (d_now ?d (world u)) ?rs ?c (world u) =
      Ok (Some (PlainError ''discord is down''), w1)" by (elim exE)
  from failed_notification_loses_dump [OF gets act example_select del this, of "d_disk ?d"]
  show ?thesis by (intro exI) simp
qed

text \<open>A scan of the example node, with calls that would delete or update anything.\<close>

theorem scan_never_writes_witness:
  "processCleanerInstance
     (with_writes (\<lambda>w u opts. (None, w\<lparr>w_objects := []\<rparr>)) (\<lambda>w u. None)
       ((example_deps [])\<lparr>d_getCleaner := (\<lambda>n w. Inr (notifying_cleaner []))\<rparr>)) ''c1'' example_node =
   processCleanerInstance ((example_deps [])\<lparr>d_getCleaner := (\<lambda>n w. Inr (notifying_cleaner []))\<rparr>)
     ''c1'' example_node"
  by (rule scan_never_writes) simp

end
