(* ===== verification/Schedule.thy ===== *)
theory Schedule
  imports Api_Types "HOL-Library.Word"
begin

text \<open>
  When a Cleaner runs (\<open>internal/controller/cleaner_controller.go\<close>): the next time of its cron
  schedule with the count of missed starts, and the decision whether a reconciliation queues it.
  Instants are integers in nanoseconds, durations are 64-bit words as in Go, and the cron library is
  the function from an instant to the next time of the schedule.
\<close>

section \<open>Durations\<close>

type_synonym duration = int64

text \<open>Products and negations of durations wrap; adding one to an instant reads it as signed.\<close>

definition seconds :: "int64 \<Rightarrow> duration" where
  "seconds n = n * word_of_int second"

definition time_Add :: "time \<Rightarrow> duration \<Rightarrow> time" where
  "time_Add t d = t + sint d"

text \<open>\<open>Time.Sub\<close> saturates at the ends of the 64-bit range.\<close>

definition time_Sub :: "time \<Rightarrow> time \<Rightarrow> duration" where
  "time_Sub t u =
     (let d = t - u
      in if d < - (2 ^ 63) then word_of_int (- (2 ^ 63))
         else if d \<ge> 2 ^ 63 then word_of_int (2 ^ 63 - 1)
         else word_of_int d)"

section \<open>The next schedule time\<close>

text \<open>
  The loop over the schedule times before now: it gives up at the hundred and first.  The number of
  starts still allowed decreases with every turn.
\<close>

definition maxNumberOfFailures :: nat where
  "maxNumberOfFailures = 100"

fun missed_starts_ok :: "(time \<Rightarrow> time) \<Rightarrow> time \<Rightarrow> nat \<Rightarrow> time \<Rightarrow> bool" where
  "missed_starts_ok next now 0 t = (\<not> t < now)"
| "missed_starts_ok next now (Suc left) t =
     (if t < now then missed_starts_ok next now left (next t) else True)"

definition too_many_missed :: go_error where
  "too_many_missed = PlainError
     ''too many missed start times (> 100). Set or decrease .spec.startingDeadlineSeconds or check clock skew''"

definition earliest_time :: "Cleaner \<Rightarrow> time \<Rightarrow> time" where
  "earliest_time cleaner now =
     (let earliestTime =
            (case LastRunTime (cl_Status cleaner) of
               Some t \<Rightarrow> t
             | None \<Rightarrow> cl_CreationTimestamp cleaner)
      in case spec_StartingDeadlineSeconds (cl_Spec cleaner) of
           None \<Rightarrow> earliestTime
         | Some deadline \<Rightarrow>
             let schedulingDeadline = time_Add now (word_of_int (- second) * deadline)
             in if schedulingDeadline > earliestTime then schedulingDeadline else earliestTime)"

text \<open>
  \<open>cron_Parse\<close> is \<open>cron.ParseStandard\<close> and \<open>quote\<close> the quoting of the format string.
\<close>

definition getNextScheduleTime ::
  "(string \<Rightarrow> go_error + (time \<Rightarrow> time)) \<Rightarrow> (string \<Rightarrow> string) \<Rightarrow> Cleaner \<Rightarrow> time \<Rightarrow> go_error + time" where
  "getNextScheduleTime cron_Parse quote cleaner now =
     (case cron_Parse (spec_Schedule (cl_Spec cleaner)) of
        Inl err \<Rightarrow>
          Inl (WrappedError (''unparseable schedule '' @ quote (spec_Schedule (cl_Spec cleaner))) err)
      | Inr next \<Rightarrow>
          if missed_starts_ok next now maxNumberOfFailures (next (earliest_time cleaner now))
          then Inr (next now)
          else Inl too_many_missed)"

section \<open>Whether to run\<close>

text \<open>
  The instant compared is the current one plus the jitter window.  A Cleaner without a next schedule
  time never gets here: the code would dereference a nil pointer.
\<close>

definition shouldSchedule :: "Cleaner \<Rightarrow> int64 \<Rightarrow> time \<Rightarrow> bool outcome" where
  "shouldSchedule cleaner jitterWindowInSeconds clock =
     (let now = time_Add clock (seconds jitterWindowInSeconds)
      in case NextScheduleTime (cl_Status cleaner) of
           None \<Rightarrow> Panic
         | Some next \<Rightarrow>
             if now < next then Ok False
             else
               (case LastRunTime (cl_Status cleaner) of
                  Some lastRun \<Rightarrow> Ok (sint (time_Sub now lastRun) \<ge> 30 * second)
                | None \<Rightarrow> Ok True))"

section \<open>Arithmetic of durations\<close>

lemma sint_word_of_int_64:
  "- (2 ^ 63) \<le> i \<Longrightarrow> i < 2 ^ 63 \<Longrightarrow> sint (word_of_int i :: int64) = i"
  by (simp add: sint_sbintrunc' signed_take_bit_int_eq_self)

lemma sint_time_Sub:
  "sint (time_Sub t u) = max (- (2 ^ 63)) (min (2 ^ 63 - 1) (t - u))"
proof -
  define d where "d = t - u"
  show ?thesis
    unfolding time_Sub_def Let_def d_def [symmetric] by (auto simp: sint_word_of_int_64)
qed

lemma seconds_exact:
  assumes "- 9223372036 \<le> sint n" and "sint n \<le> 9223372036"
  shows "sint (seconds n) = sint n * second"
proof -
  have "seconds n = word_of_int (sint n * second)"
    by (simp add: seconds_def)
  moreover have "sint (word_of_int (sint n * second) :: int64) = sint n * second"
    using assms by (intro sint_word_of_int_64) simp_all
  ultimately show ?thesis by (simp only:)
qed

lemma ge_thirty_iff: "sint (time_Sub t u) \<ge> 30 * second \<longleftrightarrow> t - u \<ge> 30 * second"
  by (auto simp: sint_time_Sub)

end
