(* ===== verification/Reconciler.thy ===== *)
theory Reconciler
  imports Schedule Job_Manager
begin

text \<open>
  The reconciler of Cleaner resources (\<open>cleaner_controller.go\<close>) and the scope that persists what
  it changes (\<open>pkg/scope/pruner.go\<close>).  The Kubernetes client, the patch helper, the finalizer
  helpers and the cron parser are a record of functions; the state is the job manager of the executor
  and the API server.  The instants at which the code reads the clock are arguments, in the order of
  the calls.
\<close>

section \<open>What the reconciler calls\<close>

record 'w kube =
  k_GetCleaner :: "string \<Rightarrow> 'w \<Rightarrow> go_error + Cleaner"
  k_UpdateCleaner :: "Cleaner \<Rightarrow> 'w \<Rightarrow> (go_error + Cleaner) \<times> 'w"
  k_GetReport :: "string \<Rightarrow> 'w \<Rightarrow> go_error + Report"
  k_DeleteReport :: "Report \<Rightarrow> 'w \<Rightarrow> go_err \<times> 'w"
  patch_NewHelper :: "Cleaner \<Rightarrow> go_err"
  patch_Patch :: "Cleaner \<Rightarrow> Cleaner \<Rightarrow> 'w \<Rightarrow> go_err \<times> 'w"
  util_ContainsFinalizer :: "Cleaner \<Rightarrow> string \<Rightarrow> bool"
  util_AddFinalizer :: "Cleaner \<Rightarrow> string \<Rightarrow> Cleaner"
  util_RemoveFinalizer :: "Cleaner \<Rightarrow> string \<Rightarrow> Cleaner"
  cron_ParseStandard :: "string \<Rightarrow> go_error + (time \<Rightarrow> time)"
  fmt_quote :: "string \<Rightarrow> string"
  fmt_name :: "string \<Rightarrow> string"

record 'w control =
  jobs :: manager
  api :: 'w

record clock =
  clock_reconcile :: time
  clock_schedule :: time
  clock_should :: time

record CleanerReconciler =
  ConcurrentReconciles :: int64
  JitterWindowInSeconds :: int64

record ctrl_Result =
  RequeueAfter :: duration

section \<open>The scope\<close>

text \<open>The patch helper keeps the object it was made with and patches the difference.\<close>

record 'w CleanerScopeParams =
  par_Client :: "'w kube option"
  par_Cleaner :: "Cleaner option"
  par_ControllerName :: string

record 'w CleanerScope =
  sc_client :: "'w kube"
  sc_patchHelper :: Cleaner
  sc_Cleaner :: Cleaner
  sc_controllerName :: string

definition NewCleanerScope :: "'w CleanerScopeParams \<Rightarrow> go_error + 'w CleanerScope" where
  "NewCleanerScope params =
     (case par_Client params of
        None \<Rightarrow> Inl (PlainError ''client is required when creating a CleanerScope'')
      | Some k \<Rightarrow>
          (case par_Cleaner params of
             None \<Rightarrow> Inl (PlainError ''failed to generate new scope from nil Cleaner'')
           | Some cleaner \<Rightarrow>
               (case patch_NewHelper k cleaner of
                  Some err \<Rightarrow> Inl (WrappedError ''failed to init patch helper'' err)
                | None \<Rightarrow>
                    Inr \<lparr>sc_client = k, sc_patchHelper = cleaner, sc_Cleaner = cleaner,
                      sc_controllerName = par_ControllerName params\<rparr>)))"

definition PatchObject :: "'w CleanerScope \<Rightarrow> 'w \<Rightarrow> go_err \<times> 'w" where
  "PatchObject s w = patch_Patch (sc_client s) (sc_patchHelper s) (sc_Cleaner s) w"

definition Close :: "'w CleanerScope \<Rightarrow> 'w \<Rightarrow> go_err \<times> 'w" where
  "Close s w = PatchObject s w"

definition with_status :: "(CleanerStatus \<Rightarrow> CleanerStatus) \<Rightarrow> 'w CleanerScope \<Rightarrow> 'w CleanerScope" where
  "with_status f s =
     s\<lparr>sc_Cleaner := (sc_Cleaner s)\<lparr>cl_Status := f (cl_Status (sc_Cleaner s))\<rparr>\<rparr>"

definition SetLastRunTime :: "time option \<Rightarrow> 'w CleanerScope \<Rightarrow> 'w CleanerScope" where
  "SetLastRunTime t = with_status (\<lambda>st. st\<lparr>LastRunTime := t\<rparr>)"

definition SetNextScheduleTime :: "time option \<Rightarrow> 'w CleanerScope \<Rightarrow> 'w CleanerScope" where
  "SetNextScheduleTime t = with_status (\<lambda>st. st\<lparr>NextScheduleTime := t\<rparr>)"

definition SetFailureMessage :: "string option \<Rightarrow> 'w CleanerScope \<Rightarrow> 'w CleanerScope" where
  "SetFailureMessage msg = with_status (\<lambda>st. st\<lparr>FailureMessage := msg\<rparr>)"

section \<open>Finalizers and the report\<close>

definition oldFinalizer :: string where
  "oldFinalizer = ''cleanerfinalizer.projectsveltos.io''"

definition removeOldFinalizer :: "'w CleanerScope \<Rightarrow> 'w CleanerScope" where
  "removeOldFinalizer s =
     (if util_ContainsFinalizer (sc_client s) (sc_Cleaner s) oldFinalizer
      then s\<lparr>sc_Cleaner := util_RemoveFinalizer (sc_client s) (sc_Cleaner s) oldFinalizer\<rparr> else s)"

text \<open>
  The object is updated, which fills it with what the server answers, and read back; a call that fails
  leaves it as it is in memory.
\<close>

definition addFinalizer ::
  "'w kube \<Rightarrow> Cleaner \<Rightarrow> string \<Rightarrow> 'w \<Rightarrow> go_err \<times> Cleaner \<times> 'w" where
  "addFinalizer k cleaner finalizer w =
     (if util_ContainsFinalizer k cleaner finalizer then (None, cleaner, w)
      else
        let cleaner1 = util_AddFinalizer k cleaner finalizer
        in case k_UpdateCleaner k cleaner1 w of
             (Inl err, w1) \<Rightarrow> (Some err, cleaner1, w1)
           | (Inr cleaner2, w1) \<Rightarrow>
               (case k_GetCleaner k (cl_Name cleaner2) w1 of
                  Inl err \<Rightarrow> (Some err, cleaner2, w1)
                | Inr cleaner3 \<Rightarrow> (None, cleaner3, w1)))"

definition still_present :: go_error where
  "still_present = PlainError ''report instance still present''"

definition removeReport :: "'w CleanerScope \<Rightarrow> 'w \<Rightarrow> go_err \<times> 'w" where
  "removeReport s w =
     (case k_GetReport (sc_client s) (cl_Name (sc_Cleaner s)) w of
        Inl err \<Rightarrow> (if isNotFound err then None else Some err, w)
      | Inr report \<Rightarrow>
          (case k_DeleteReport (sc_client s) report w of
             (Some err, w1) \<Rightarrow> (Some err, w1)
           | (None, w1) \<Rightarrow> (Some still_present, w1)))"

definition removeQueuedJobs :: "'w CleanerScope \<Rightarrow> manager \<Rightarrow> manager" where
  "removeQueuedJobs s = RemoveEntries (cl_Name (sc_Cleaner s))"

section \<open>Scheduling a run\<close>

definition schedule ::
  "'w CleanerScope \<Rightarrow> int64 \<Rightarrow> clock \<Rightarrow> manager \<Rightarrow>
   ((go_error + time) \<times> 'w CleanerScope \<times> manager) outcome" where
  "schedule s jitterWindowInSeconds clk m =
     (let cleaner = sc_Cleaner s; now = clock_schedule clk;
          lastRun = LastRunTime (cl_Status cleaner)
      in case getNextScheduleTime (cron_ParseStandard (sc_client s)) (fmt_quote (sc_client s)) cleaner now of
           Inl err \<Rightarrow> Ok (Inl err, s, m)
         | Inr nextRun \<Rightarrow>
             if NextScheduleTime (cl_Status cleaner) = None
             then Ok (Inr nextRun, SetNextScheduleTime (Some nextRun) (SetLastRunTime lastRun s), m)
             else
               bind_outcome (shouldSchedule cleaner jitterWindowInSeconds (clock_should clk)) (\<lambda>run.
                 if run
                 then Ok (Inr nextRun,
                        SetNextScheduleTime (Some nextRun) (SetLastRunTime (Some now) s),
                        Process (cl_Name cleaner) m)
                 else Ok (Inr nextRun,
                        SetNextScheduleTime (Some nextRun) (SetLastRunTime lastRun s), m)))"

section \<open>Reconciliation\<close>

definition reconcileDelete ::
  "'w CleanerScope \<Rightarrow> 'w control \<Rightarrow> go_err \<times> 'w CleanerScope \<times> 'w control" where
  "reconcileDelete s st =
     (let st1 = st\<lparr>jobs := removeQueuedJobs s (jobs st)\<rparr>;
          (err, w) = removeReport s (api st1);
          st2 = st1\<lparr>api := w\<rparr>
      in case err of
           Some e \<Rightarrow> (Some e, s, st2)
         | None \<Rightarrow>
             (None,
              if util_ContainsFinalizer (sc_client s) (sc_Cleaner s) CleanerFinalizer
              then s\<lparr>sc_Cleaner := util_RemoveFinalizer (sc_client s) (sc_Cleaner s) CleanerFinalizer\<rparr>
              else s,
              st2))"

text \<open>The failure message follows the executor's result, unless there is none.\<close>

definition report_result :: "Result \<Rightarrow> 'w CleanerScope \<Rightarrow> 'w CleanerScope" where
  "report_result result s =
     (if Status result \<noteq> Unavailable then SetFailureMessage (map_option error_text (Err result)) s
      else s)"

definition reconcileNormal ::
  "CleanerReconciler \<Rightarrow> clock \<Rightarrow> 'w CleanerScope \<Rightarrow> 'w control \<Rightarrow>
   (ctrl_Result \<times> go_err \<times> 'w CleanerScope \<times> 'w control) outcome" where
  "reconcileNormal r clk s st =
     (let s1 = removeOldFinalizer s;
          (err, cleaner2, w) = addFinalizer (sc_client s1) (sc_Cleaner s1) CleanerFinalizer (api st);
          s2 = s1\<lparr>sc_Cleaner := cleaner2\<rparr>;
          st2 = st\<lparr>api := w\<rparr>
      in if err \<noteq> None then Ok (\<lparr>RequeueAfter = 0\<rparr>, err, s2, st2)
         else
           let (result, m) = GetResult (cl_Name (sc_Cleaner s2)) (jobs st2);
               s3 = report_result result s2;
               now = clock_reconcile clk
           in bind_outcome (schedule s3 (JitterWindowInSeconds r) clk m) (\<lambda>(res, s4, m').
                case res of
                  Inl e \<Rightarrow>
                    Ok (\<lparr>RequeueAfter = 0\<rparr>, Some e, SetFailureMessage (Some (error_text e)) s4,
                      st2\<lparr>jobs := m'\<rparr>)
                | Inr nextRun \<Rightarrow>
                    Ok (\<lparr>RequeueAfter = time_Sub nextRun now\<rparr>, None, s4, st2\<lparr>jobs := m'\<rparr>)))"

text \<open>The deferred close of the scope replaces the error by its own.\<close>

definition close_scope ::
  "ctrl_Result \<times> go_err \<times> 'w CleanerScope \<times> 'w control \<Rightarrow> (ctrl_Result \<times> go_err) \<times> 'w control" where
  "close_scope = (\<lambda>(result, err, s, st).
     (let (closeErr, w) = Close s (api st)
      in ((result, if closeErr \<noteq> None then closeErr else err), st\<lparr>api := w\<rparr>)))"

definition Reconcile ::
  "'w kube \<Rightarrow> CleanerReconciler \<Rightarrow> clock \<Rightarrow> string \<Rightarrow> 'w control \<Rightarrow>
   ((ctrl_Result \<times> go_err) \<times> 'w control) outcome" where
  "Reconcile k r clk name st =
     (case k_GetCleaner k name (api st) of
        Inl err \<Rightarrow>
          Ok ((\<lparr>RequeueAfter = 0\<rparr>,
               if isNotFound err then None
               else Some (WrappedError (''Failed to fetch Cleaner '' @ fmt_name k name) err)), st)
      | Inr cleaner \<Rightarrow>
          (case NewCleanerScope
                  \<lparr>par_Client = Some k, par_Cleaner = Some cleaner, par_ControllerName = ''cleaner''\<rparr> of
             Inl err \<Rightarrow>
               Ok ((\<lparr>RequeueAfter = 0\<rparr>,
                    Some (WrappedError (''unable to create profileScope scope for '' @ fmt_name k name) err)),
                   st)
           | Inr s \<Rightarrow>
               if cl_DeletionTimestamp cleaner \<noteq> None
               then let (err, s', st') = reconcileDelete s st
                    in Ok (close_scope (\<lparr>RequeueAfter = 0\<rparr>, err, s', st'))
               else bind_outcome (reconcileNormal r clk s st) (\<lambda>x. Ok (close_scope x))))"

end
