(* ===== verification/Job_Client.thy ===== *)
theory Job_Client
  imports Worker_Order
begin

text \<open>
  The interface between the reconcilers and the executor as the locale \<open>job_client\<close>, and with the two
  critical sections of the workers as \<open>job_service\<close>: what a reconciler may rely on between the moment it
  queues a Cleaner and the moment a worker is done with it.  It is interpreted on the manager's operations,
  whose invariant the reachable states of the worker pool have.
\<close>

section \<open>The contract\<close>

locale job_client =
  fixes process :: "string \<Rightarrow> 'm \<Rightarrow> 'm"
    and get_result :: "string \<Rightarrow> 'm \<Rightarrow> Result \<times> 'm"
    and good :: "'m \<Rightarrow> bool"
    and pending :: "string \<Rightarrow> 'm \<Rightarrow> bool"
  assumes process_good: "good m \<Longrightarrow> good (process k m)"
    and get_good: "good m \<Longrightarrow> good (snd (get_result k m))"
    and process_pending: "good m \<Longrightarrow> pending k (process k m)"
    and process_keeps: "good m \<Longrightarrow> pending k m \<Longrightarrow> pending k (process k' m)"
    and get_keeps: "pending k m \<Longrightarrow> pending k (snd (get_result k' m))"
    and get_pending: "pending k m \<Longrightarrow>
      get_result k m = (\<lparr>Status = InProgress, Message = [], Err = None\<rparr>, m)"

text \<open>The calls on the manager: a request, a question for the result, and the two sections of a worker.\<close>

datatype job_call =
    CallProcess string
  | CallGetResult string
  | CallTake
  | CallStore string go_err

fun perform ::
  "(string \<Rightarrow> 'm \<Rightarrow> 'm) \<Rightarrow> (string \<Rightarrow> 'm \<Rightarrow> Result \<times> 'm) \<Rightarrow> ('m \<Rightarrow> string option \<times> 'm) \<Rightarrow>
   (string \<Rightarrow> go_err \<Rightarrow> 'm \<Rightarrow> 'm) \<Rightarrow> job_call \<Rightarrow> 'm \<Rightarrow> 'm" where
  "perform process get_result next_job finish_job (CallProcess k) m = process k m"
| "perform process get_result next_job finish_job (CallGetResult k) m = snd (get_result k m)"
| "perform process get_result next_job finish_job CallTake m = snd (next_job m)"
| "perform process get_result next_job finish_job (CallStore k err) m = finish_job k err m"

fun stores_for :: "string \<Rightarrow> job_call \<Rightarrow> bool" where
  "stores_for k (CallStore k' err) \<longleftrightarrow> k' = k"
| "stores_for k _ \<longleftrightarrow> False"

locale job_service = job_client process get_result good pending
  for process :: "string \<Rightarrow> 'm \<Rightarrow> 'm" and get_result and good and pending +
  fixes next_job :: "'m \<Rightarrow> string option \<times> 'm"
    and finish_job :: "string \<Rightarrow> go_err \<Rightarrow> 'm \<Rightarrow> 'm"
  assumes take_good: "good m \<Longrightarrow> good (snd (next_job m))"
    and store_good: "good m \<Longrightarrow> good (finish_job k err m)"
    and take_keeps: "pending k m \<Longrightarrow> pending k (snd (next_job m))"
    and store_keeps: "pending k m \<Longrightarrow> k' \<noteq> k \<Longrightarrow> pending k (finish_job k' err m)"
begin

lemma calls_keep:
  "good m \<Longrightarrow> pending k m \<Longrightarrow> list_all (\<lambda>c. \<not> stores_for k c) cs \<Longrightarrow>
   good (fold (perform process get_result next_job finish_job) cs m) \<and>
   pending k (fold (perform process get_result next_job finish_job) cs m)"
proof (induction cs arbitrary: m)
  case Nil
  then show ?case by simp
next
  case (Cons c cs)
  have "good (perform process get_result next_job finish_job c m) \<and> pending k (perform process get_result next_job finish_job c m)"
    using Cons.prems
    by (cases c) (simp_all add: process_good get_good process_keeps get_keeps take_good store_good
        take_keeps store_keeps)
  then show ?case using Cons.IH Cons.prems(3) by simp
qed

lemma queued_then_in_progress:
  "good m \<Longrightarrow> list_all (\<lambda>c. \<not> stores_for k c) cs \<Longrightarrow>
   fst (get_result k (fold (perform process get_result next_job finish_job) cs (process k m))) =
    \<lparr>Status = InProgress, Message = [], Err = None\<rparr>"
  using calls_keep [OF process_good process_pending] get_pending by simp

end

section \<open>The manager provides it\<close>

definition manager_good :: "manager \<Rightarrow> bool" where
  "manager_good m \<longleftrightarrow>
     (\<forall>k \<in> set (dirty m). k \<in> set (jobQueue m) \<union> set (inProgress m) \<and> results m k = None)"

definition manager_pending :: "string \<Rightarrow> manager \<Rightarrow> bool" where
  "manager_pending k m \<longleftrightarrow> results m k = None \<and> k \<in> set (jobQueue m) \<union> set (inProgress m)"

lemma GetResult_manager:
  "snd (GetResult k m) = m\<lparr>results := (results m)(k := None)\<rparr> \<or> snd (GetResult k m) = m"
  by (auto simp: GetResult_def getRequestStatus_def split: option.splits)

lemma GetResult_pending:
  "manager_pending k m \<Longrightarrow>
   GetResult k m = (\<lparr>Status = InProgress, Message = [], Err = None\<rparr>, m)"
  by (auto simp: manager_pending_def GetResult_def getRequestStatus_def)

lemma takeRequest_good: "manager_good m \<Longrightarrow> manager_good (snd (takeRequest m))"
proof (cases "jobQueue m")
  case (Cons k q)
  assume "manager_good m"
  then show ?thesis
    using Cons set_removeKey_subset [of k "dirty m"] unfolding manager_good_def by (auto simp: takeRequest_def)
qed (simp add: takeRequest_def)

lemma storeResult_good: "manager_good m \<Longrightarrow> manager_good (storeResult k err m)"
  unfolding manager_good_def
proof
  fix j
  assume good: "\<forall>k \<in> set (dirty m). k \<in> set (jobQueue m) \<union> set (inProgress m) \<and> results m k = None"
    and "j \<in> set (dirty (storeResult k err m))"
  then have j: "j \<in> set (dirty m)" using set_removeKey_subset [of k "dirty m"] by (auto simp: storeResult_fields)
  then have "j \<in> set (jobQueue m) \<union> set (inProgress m)" "results m j = None" using good by blast+
  then show "j \<in> set (jobQueue (storeResult k err m)) \<union> set (inProgress (storeResult k err m)) \<and>
      results (storeResult k err m) j = None"
    using j in_removeKey [of j k "inProgress m"] by (cases "j = k") (auto simp: storeResult_fields)
qed

interpretation executor: job_service Process GetResult manager_good manager_pending takeRequest storeResult
proof
  show "manager_good (Process k m)" if "manager_good m" for k m
    using that by (auto simp: manager_good_def Process_def Let_def)
  show "manager_good (snd (GetResult k m))" if "manager_good m" for k m
    using GetResult_manager [of k m] that by (auto simp: manager_good_def)
  show "manager_pending k (Process k m)" if "manager_good m" for k m
    using that by (auto simp: manager_pending_def manager_good_def Process_def Let_def)
  show "manager_pending k (Process k' m)" if "manager_good m" "manager_pending k m" for k k' m
    using that by (auto simp: manager_pending_def Process_def Let_def)
  show "manager_pending k (snd (GetResult k' m))" if "manager_pending k m" for k k' m
    using GetResult_manager [of k' m] that by (auto simp: manager_pending_def)
  show "manager_good (snd (takeRequest m))" if "manager_good m" for m
    using that by (rule takeRequest_good)
  show "manager_good (storeResult k err m)" if "manager_good m" for k err m
    using that by (rule storeResult_good)
  show "manager_pending k (snd (takeRequest m))" if "manager_pending k m" for k m
    using that by (auto simp: manager_pending_def takeRequest_def split: list.split)
  show "manager_pending k (storeResult k' err m)" if "manager_pending k m" "k' \<noteq> k" for k k' err m
    using that in_removeKey [of k k' "inProgress m"] by (auto simp: manager_pending_def storeResult_fields)
qed (rule GetResult_pending)

lemma pool_manager_good: "pool_inv s \<Longrightarrow> manager_good (mgr s)"
  by (auto simp: pool_inv_def manager_good_def)

section \<open>The calls of the pool\<close>

fun calls_of :: "sys \<Rightarrow> event \<Rightarrow> job_call list" where
  "calls_of s (EProcess k) = [CallProcess k]"
| "calls_of s (EGetResult k) = [CallGetResult k]"
| "calls_of s (ETake i) = [CallTake]"
| "calls_of s (EFinish i err) = (case workers s ! i of Working k \<Rightarrow> [CallStore k err] | _ \<Rightarrow> [])"
| "calls_of s _ = []"

lemma event_calls:
  "exec_event e s = Some t \<Longrightarrow> no_remove s e \<Longrightarrow>
   mgr t = fold (perform Process GetResult takeRequest storeResult) (calls_of s e) (mgr s)"
  by (cases e) (auto split: if_splits worker.splits prod.splits option.splits)

lemma trace_calls:
  "exec_trace es s = Some t \<Longrightarrow> trace_ok no_remove es s \<Longrightarrow>
   mgr t = fold (perform Process GetResult takeRequest storeResult) (trace_collect calls_of es s) (mgr s)"
proof (induction es arbitrary: s)
  case (Cons e es)
  then obtain u where u: "exec_event e s = Some u" "no_remove s e" "trace_ok no_remove es u" "exec_trace es u = Some t"
    by (auto split: option.splits)
  then show ?case using Cons.IH [OF u(4,3)] event_calls [OF u(1,2)] by simp
qed simp

text \<open>Runs without deletions in which no worker ends a run of a Cleaner.\<close>

fun keeps_running :: "string \<Rightarrow> sys \<Rightarrow> event \<Rightarrow> bool" where
  "keeps_running key s (ERemove _) \<longleftrightarrow> False"
| "keeps_running key s (EFinish i _) \<longleftrightarrow> workers s ! i \<noteq> Working key"
| "keeps_running key s _ \<longleftrightarrow> True"

lemma keeps_running_trace:
  "trace_ok (keeps_running key) es s \<Longrightarrow>
   trace_ok no_remove es s \<and> list_all (\<lambda>c. \<not> stores_for key c) (trace_collect calls_of es s)"
proof (induction es arbitrary: s)
  case (Cons e es)
  have "no_remove s e \<and> list_all (\<lambda>c. \<not> stores_for key c) (calls_of s e)"
    using Cons.prems by (cases e) (auto split: worker.split)
  then show ?case using Cons by (auto split: option.splits)
qed simp

end
