(* ===== verification/Schedule_Properties.thy ===== *)
theory Schedule_Properties
  imports Schedule
begin

text \<open>
  The next schedule time as a statement about the instants of the schedule, and the exact condition
  under which a reconciliation queues a Cleaner.
\<close>

section \<open>Counting missed starts\<close>

text \<open>What the cron library promises: the least instant of the schedule after the one given.\<close>

definition fires :: "(time \<Rightarrow> time) \<Rightarrow> time set \<Rightarrow> bool" where
  "fires next S \<longleftrightarrow> (\<forall>t. next t \<in> S \<and> t < next t \<and> (\<forall>s \<in> S. t < s \<longrightarrow> next t \<le> s))"

definition missed :: "time set \<Rightarrow> time \<Rightarrow> time \<Rightarrow> time set" where
  "missed S e now = {s \<in> S. e < s \<and> s < now}"

lemma finite_missed [simp]: "finite (missed S e now)"
  by (rule finite_subset [of _ "{e..now}"]) (auto simp: missed_def)

lemma missed_step:
  assumes "fires next S"
  shows "missed S e now = (if next e < now then insert (next e) (missed S (next e) now) else {})"
proof -
  have n: "next e \<in> S" "e < next e" "\<And>s. s \<in> S \<Longrightarrow> e < s \<Longrightarrow> next e \<le> s"
    using assms by (auto simp: fires_def)
  show ?thesis
  proof (cases "next e < now")
    case True
    have "s \<in> missed S e now \<longleftrightarrow> s \<in> insert (next e) (missed S (next e) now)" for s
      using n True by (force simp: missed_def)
    then show ?thesis using True by auto
  next
    case False
    then show ?thesis using n(3) by (fastforce simp: missed_def)
  qed
qed

lemma card_missed:
  assumes "fires next S"
  shows "card (missed S e now) = (if next e < now then Suc (card (missed S (next e) now)) else 0)"
proof -
  have "next e \<notin> missed S (next e) now" by (simp add: missed_def)
  then show ?thesis using missed_step [OF assms, of e now] by simp
qed

lemma missed_starts_ok_iff:
  assumes "fires next S"
  shows "missed_starts_ok next now n (next e) \<longleftrightarrow> card (missed S e now) \<le> n"
proof (induction n arbitrary: e)
  case 0
  then show ?case using card_missed [OF assms, of e now] by simp
next
  case (Suc n)
  then show ?case using card_missed [OF assms, of e now] by simp
qed

text \<open>
  C15. The next schedule time is the first instant of the schedule after now, and it is given
  exactly when at most a hundred instants of the schedule were missed since the last run, the
  creation or the starting deadline, whichever the code starts from; otherwise there is the error
  of too many missed starts.
\<close>

theorem next_schedule_exact:
  assumes "cron_Parse (spec_Schedule (cl_Spec cleaner)) = Inr next" and "fires next S"
  shows "getNextScheduleTime cron_Parse quote cleaner now =
    (if card {s \<in> S. earliest_time cleaner now < s \<and> s < now} \<le> 100
     then Inr (Min {s \<in> S. now < s \<and> s \<le> next now}) else Inl too_many_missed)"
proof -
  have "Min {s \<in> S. now < s \<and> s \<le> next now} = next now"
  proof (rule Min_eqI)
    show "finite {s \<in> S. now < s \<and> s \<le> next now}"
      by (rule finite_subset [of _ "{now..next now}"]) auto
  qed (use assms(2) in \<open>auto simp: fires_def\<close>)
  then show ?thesis
    using missed_starts_ok_iff [OF assms(2), of now 100 "earliest_time cleaner now"]
    by (simp add: getNextScheduleTime_def assms(1) maxNumberOfFailures_def missed_def)
qed

text \<open>A schedule that fires every minute.\<close>

definition every_minute :: "time \<Rightarrow> time" where
  "every_minute t = (t div (60 * second) + 1) * (60 * second)"

lemma every_minute_fires: "fires every_minute {t. 60 * second dvd t}"
proof -
  have "every_minute t \<le> s" if less: "t < s" and dvd: "60 * second dvd s" for s t :: int
  proof -
    obtain k where s: "s = (60 * second) * k" using dvd by (rule dvdE)
    have "t div (60 * second) < k"
    proof (rule ccontr)
      assume "\<not> t div (60 * second) < k"
      then have "k * (60 * second) \<le> t div (60 * second) * (60 * second)" by simp
      then show False
        using less s div_mult_mod_eq [of t "60 * second"] pos_mod_sign [of "60 * second" t] by simp
    qed
    then have "(t div (60 * second) + 1) * (60 * second) \<le> k * (60 * second)" by simp
    then show ?thesis by (simp add: every_minute_def s)
  qed
  moreover have "t < every_minute t" for t :: int
    using pos_mod_bound [of "60 * second" t] div_mult_mod_eq [of t "60 * second"]
    by (simp add: every_minute_def distrib_right)
  ultimately show ?thesis by (auto simp: fires_def every_minute_def)
qed

definition cron_minute :: "string \<Rightarrow> go_error + (time \<Rightarrow> time)" where
  "cron_minute s = (if s = ''* * * * *'' then Inr every_minute else Inl (PlainError ''expected 5 fields''))"

definition minute_cleaner :: "time option \<Rightarrow> Cleaner" where
  "minute_cleaner lastRun = (zero_Cleaner 0)
     \<lparr>cl_Name := ''c1'',
      cl_Spec := (cl_Spec (zero_Cleaner 0))\<lparr>spec_Schedule := ''* * * * *''\<rparr>,
      cl_Status := (cl_Status (zero_Cleaner 0))\<lparr>LastRunTime := lastRun\<rparr>\<rparr>"

lemma cron_minute_parse:
  "cron_minute (spec_Schedule (cl_Spec (minute_cleaner l))) = Inr every_minute"
  by (simp add: cron_minute_def minute_cleaner_def)

lemma every_minute_90: "every_minute (90 * second) = 120 * second"
  by (simp add: every_minute_def)

lemma minutes_below_90: "{s \<in> {t. 60 * second dvd t}. 0 < s \<and> s < 90 * second} \<subseteq> {60 * second}"
proof
  fix s assume "s \<in> {s \<in> {t. 60 * second dvd t}. 0 < s \<and> s < 90 * second}"
  then obtain k where "s = 60 * second * k" "0 < s" "s < 90 * second" by (auto elim!: dvdE)
  then have "0 < k" "k < 2" by simp_all
  then have "k = 1" by simp
  with \<open>s = 60 * second * k\<close> show "s \<in> {60 * second}" by simp
qed

lemma minutes_after_90:
  "{s \<in> {t. 60 * second dvd t}. 90 * second < s \<and> s \<le> every_minute (90 * second)} = {120 * second}"
proof -
  have "s = 120 * second" if dvd: "60 * second dvd s" and "90 * second < s" "s \<le> 120 * second"
    for s :: int
  proof -
    obtain k where s: "s = 60 * second * k" using dvd by (elim dvdE)
    then have "1 < k" "k \<le> 2" using that by simp_all
    then have "k = 2" by simp
    then show ?thesis using s by simp
  qed
  note only = this
  show ?thesis
  proof (rule set_eqI)
    fix s :: int
    show "s \<in> {s \<in> {t. 60 * second dvd t}. 90 * second < s \<and> s \<le> every_minute (90 * second)} \<longleftrightarrow>
        s \<in> {120 * second}"
      unfolding every_minute_90 mem_Collect_eq singleton_iff
    proof (cases "s = 120 * second")
      case False
      then show "(60 * second dvd s \<and> 90 * second < s \<and> s \<le> 120 * second) = (s = 120 * second)"
        using only [of s] by blast
    qed simp
  qed
qed

theorem next_schedule_exact_witness:
  "getNextScheduleTime cron_minute (\<lambda>s. s) (minute_cleaner (Some 0)) (90 * second) = Inr (120 * second)"
proof -
  have e: "earliest_time (minute_cleaner (Some 0)) (90 * second) = 0"
    by (simp add: earliest_time_def minute_cleaner_def zero_Cleaner_def)
  have "card {s \<in> {t. 60 * second dvd t}. 0 < s \<and> s < 90 * second} \<le> card {60 * second}"
    by (rule card_mono [OF _ minutes_below_90]) simp
  then have "card {s \<in> {t. 60 * second dvd t}. 0 < s \<and> s < 90 * second} \<le> 100" by simp
  then show ?thesis
    using next_schedule_exact [where quote = "\<lambda>s. s" and now = "90 * second" and
        cleaner = "minute_cleaner (Some 0)" and cron_Parse = cron_minute,
        OF cron_minute_parse every_minute_fires]
    unfolding e minutes_after_90 by (simp only: if_True Min_singleton)
qed

end
