(* ===== verification/Reconciler_Properties.thy ===== *)
theory Reconciler_Properties
  imports Reconciler Job_Client Schedule_Properties Executor_Properties
begin

text \<open>
  What the reconciler promises: when it queues a Cleaner, that a live Cleaner is always reconciled
  again, that the status follows the executor, and that a deleted Cleaner keeps its finalizer as long
  as its report is there.
\<close>

section \<open>When a Cleaner is queued\<close>

text \<open>
  C16. A reconciliation within the jitter window of the next schedule time, or later, runs the
  Cleaner unless it ran lately; lately means the thirty seconds of the comment less the jitter window,
  so with a window of thirty seconds or more there is no such protection at all.
\<close>

theorem should_schedule_exact:
  assumes "NextScheduleTime (cl_Status cleaner) = Some next"
    and "\<bar>sint jitter\<bar> \<le> 9223372036"
  shows "shouldSchedule cleaner jitter now = Ok
    (next \<le> now + sint jitter * second \<and>
     (case LastRunTime (cl_Status cleaner) of
        None \<Rightarrow> True
      | Some lastRun \<Rightarrow> (30 - sint jitter) * second \<le> now - lastRun))"
proof -
  have "sint (seconds jitter) = sint jitter * second"
    using assms(2) by (intro seconds_exact) linarith+
  then have "time_Add now (seconds jitter) = now + sint jitter * second" by (simp add: time_Add_def)
  then show ?thesis
    using assms(1) unfolding shouldSchedule_def Let_def ge_thirty_iff
    by (auto simp: algebra_simps split: option.split)
qed

definition due_cleaner :: "time option \<Rightarrow> time \<Rightarrow> Cleaner" where
  "due_cleaner lastRun next = (minute_cleaner lastRun)
     \<lparr>cl_Status := \<lparr>NextScheduleTime = Some next, LastRunTime = lastRun, FailureMessage = None\<rparr>\<rparr>"

text \<open>With the default window a run sixteen seconds ago does not stop the next one.\<close>

theorem should_schedule_exact_witness:
  "shouldSchedule (due_cleaner (Some (44 * second)) (60 * second)) 15 (60 * second) = Ok True \<and>
   shouldSchedule (due_cleaner (Some (46 * second)) (60 * second)) 15 (60 * second) = Ok False"
  using should_schedule_exact [of "due_cleaner (Some (44 * second)) (60 * second)" "60 * second" 15 "60 * second"]
    should_schedule_exact [of "due_cleaner (Some (46 * second)) (60 * second)" "60 * second" 15 "60 * second"]
  by (simp add: due_cleaner_def)

section \<open>What the API server keeps of an instant\<close>

text \<open>
  The times of a status are written in RFC 3339, which leaves out what is less than a second; so the
  status a reconciliation reads is not quite the one that was patched.  (The instants of a status are
  times of the clock and of a schedule, never the zero time, which would be written as no time.)
\<close>

definition persisted_time :: "time \<Rightarrow> time" where
  "persisted_time t = t - t mod second"

definition persisted_status :: "CleanerStatus \<Rightarrow> CleanerStatus" where
  "persisted_status st =
     \<lparr>NextScheduleTime = map_option persisted_time (NextScheduleTime st),
      LastRunTime = map_option persisted_time (LastRunTime st), FailureMessage = FailureMessage st\<rparr>"


lemma persisted_status_simps [simp]:
  "NextScheduleTime (persisted_status st) = map_option persisted_time (NextScheduleTime st)"
  "LastRunTime (persisted_status st) = map_option persisted_time (LastRunTime st)"
  "FailureMessage (persisted_status st) = FailureMessage st"
  by (simp_all add: persisted_status_def)

section \<open>A client for the examples\<close>

text \<open>The node of the executor's examples with the objects the reconciler reads and writes.\<close>

record cluster_state = node +
  cs_cleaner :: "Cleaner option"
  cs_report :: "Report option"

definition ref_kube :: "cluster_state kube" where
  "ref_kube =
     \<lparr>k_GetCleaner = (\<lambda>n w. case cs_cleaner w of None \<Rightarrow> Inl (NotFoundError n)
        | Some c \<Rightarrow> if cl_Name c = n then Inr c else Inl (NotFoundError n)),
      k_UpdateCleaner = (\<lambda>c w. (Inr c, w\<lparr>cs_cleaner := Some c\<rparr>)),
      k_GetReport = (\<lambda>n w. case cs_report w of None \<Rightarrow> Inl (NotFoundError n) | Some r \<Rightarrow> Inr r),
      k_DeleteReport = (\<lambda>r w. (None, w\<lparr>cs_report := None\<rparr>)),
      patch_NewHelper = (\<lambda>c. None),
      patch_Patch = (\<lambda>before c w.
        (None, w\<lparr>cs_cleaner := Some (c\<lparr>cl_Status := persisted_status (cl_Status c)\<rparr>)\<rparr>)),
      util_ContainsFinalizer = (\<lambda>c f. f \<in> set (cl_Finalizers c)),
      util_AddFinalizer = (\<lambda>c f. c\<lparr>cl_Finalizers := cl_Finalizers c @ [f]\<rparr>),
      util_RemoveFinalizer = (\<lambda>c f. c\<lparr>cl_Finalizers := filter (\<lambda>g. g \<noteq> f) (cl_Finalizers c)\<rparr>),
      cron_ParseStandard = cron_minute, fmt_quote = (\<lambda>s. s), fmt_name = (\<lambda>n. ''/'' @ n)\<rparr>"

definition ref_scope :: "Cleaner \<Rightarrow> cluster_state CleanerScope" where
  "ref_scope c =
     \<lparr>sc_client = ref_kube, sc_patchHelper = c, sc_Cleaner = c, sc_controllerName = ''cleaner''\<rparr>"

definition at_time :: "time \<Rightarrow> clock" where
  "at_time t = \<lparr>clock_reconcile = t, clock_schedule = t, clock_should = t\<rparr>"

definition idle_manager :: manager where
  "idle_manager = startWorkloadWorkers"

section \<open>One slot, two runs\<close>

lemma scope_status_simps [simp]:
  "cl_Status (sc_Cleaner (SetNextScheduleTime t s)) = (cl_Status (sc_Cleaner s))\<lparr>NextScheduleTime := t\<rparr>"
  "cl_Status (sc_Cleaner (SetLastRunTime t s)) = (cl_Status (sc_Cleaner s))\<lparr>LastRunTime := t\<rparr>"
  "cl_Status (sc_Cleaner (SetFailureMessage m s)) = (cl_Status (sc_Cleaner s))\<lparr>FailureMessage := m\<rparr>"
  "cl_Name (sc_Cleaner (SetNextScheduleTime t s)) = cl_Name (sc_Cleaner s)"
  "cl_Name (sc_Cleaner (SetLastRunTime t s)) = cl_Name (sc_Cleaner s)"
  "cl_Name (sc_Cleaner (SetFailureMessage m s)) = cl_Name (sc_Cleaner s)"
  "sc_client (SetNextScheduleTime t s) = sc_client s"
  "sc_client (SetLastRunTime t s) = sc_client s"
  "sc_client (SetFailureMessage m s) = sc_client s"
  by (simp_all add: SetNextScheduleTime_def SetLastRunTime_def SetFailureMessage_def with_status_def)

lemma schedule_queues:
  assumes "getNextScheduleTime (cron_ParseStandard (sc_client s)) (fmt_quote (sc_client s))
      (sc_Cleaner s) (clock_schedule clk) = Inr nextRun"
    and "NextScheduleTime (cl_Status (sc_Cleaner s)) = Some next"
    and "\<bar>sint jitter\<bar> \<le> 9223372036"
  shows "\<exists>s'. schedule s jitter clk m = Ok (Inr nextRun, s',
      if next \<le> clock_should clk + sint jitter * second \<and>
         (case LastRunTime (cl_Status (sc_Cleaner s)) of
            None \<Rightarrow> True | Some l \<Rightarrow> (30 - sint jitter) * second \<le> clock_should clk - l)
      then Process (cl_Name (sc_Cleaner s)) m else m) \<and>
    NextScheduleTime (cl_Status (sc_Cleaner s')) = Some nextRun \<and>
    cl_Name (sc_Cleaner s') = cl_Name (sc_Cleaner s) \<and>
    LastRunTime (cl_Status (sc_Cleaner s')) =
      (if next \<le> clock_should clk + sint jitter * second \<and>
         (case LastRunTime (cl_Status (sc_Cleaner s)) of
            None \<Rightarrow> True | Some l \<Rightarrow> (30 - sint jitter) * second \<le> clock_should clk - l)
       then Some (clock_schedule clk) else LastRunTime (cl_Status (sc_Cleaner s)))"
  using should_schedule_exact [OF assms(2,3), of "clock_should clk"] assms(1,2)
  by (simp add: schedule_def Let_def)


lemma missed_starts_none: "\<not> t < now \<Longrightarrow> missed_starts_ok next now n t"
  by (cases n) simp_all

lemma due_cleaner_simps [simp]:
  "cl_Status (due_cleaner l t) = \<lparr>NextScheduleTime = Some t, LastRunTime = l, FailureMessage = None\<rparr>"
  "cl_Name (due_cleaner l t) = ''c1''"
  "cl_CreationTimestamp (due_cleaner l t) = 0" "cl_DeletionTimestamp (due_cleaner l t) = None"
  "cl_Finalizers (due_cleaner l t) = []"
  "spec_Schedule (cl_Spec (due_cleaner l t)) = ''* * * * *''"
  "spec_StartingDeadlineSeconds (cl_Spec (due_cleaner l t)) = None"
  by (simp_all add: due_cleaner_def minute_cleaner_def zero_Cleaner_def)

lemma due_next:
  "every_minute (case l of None \<Rightarrow> 0 | Some t \<Rightarrow> t) \<ge> now \<Longrightarrow>
   cl_Status c = \<lparr>NextScheduleTime = n, LastRunTime = l, FailureMessage = f\<rparr> \<Longrightarrow>
   cl_Spec c = cl_Spec (due_cleaner l' t') \<Longrightarrow> cl_CreationTimestamp c = 0 \<Longrightarrow>
   getNextScheduleTime cron_minute q c now = Inr (every_minute now)"
  by (cases l)
    (simp_all add: getNextScheduleTime_def cron_minute_def earliest_time_def missed_starts_none)


section \<open>A live Cleaner is reconciled again\<close>

text \<open>The cron library answers with one instant of the past for a schedule that never fires.\<close>

lemma missed_starts_never:
  "\<forall>t. next t = never \<Longrightarrow> never < now \<Longrightarrow> \<not> missed_starts_ok next now n never"
  by (induction n) simp_all

lemma schedule_next:
  assumes "schedule s jitter clk m = Ok (Inr nextRun, s', m')"
  shows "\<exists>next. cron_ParseStandard (sc_client s) (spec_Schedule (cl_Spec (sc_Cleaner s))) = Inr next \<and>
    nextRun = next (clock_schedule clk) \<and>
    missed_starts_ok next (clock_schedule clk) maxNumberOfFailures
      (next (earliest_time (sc_Cleaner s) (clock_schedule clk)))"
proof (cases "getNextScheduleTime (cron_ParseStandard (sc_client s)) (fmt_quote (sc_client s))
    (sc_Cleaner s) (clock_schedule clk)")
  case (Inl e)
  then show ?thesis using assms by (simp add: schedule_def Let_def)
next
  case (Inr t)
  then have "t = nextRun"
    using assms by (auto simp: schedule_def Let_def split: if_splits)
  then show ?thesis using Inr by (auto simp: getNextScheduleTime_def split: sum.splits if_splits)
qed

lemma case_sum_no_error:
  "(case x of Inl e \<Rightarrow> Ok (f e, Some (g e), h e, i e) | Inr n \<Rightarrow> Ok (f' n, None, h' n, i' n)) =
     Ok (res, None, a, b) \<longleftrightarrow>
   (\<exists>n. x = Inr n \<and> f' n = res \<and> h' n = a \<and> i' n = b)"
  by (cases x) auto

lemma reconcileNormal_schedules:
  assumes "reconcileNormal r clk s st = Ok (res, None, s4, st4)"
  shows "\<exists>s3 m nextRun m'. schedule s3 (JitterWindowInSeconds r) clk m = Ok (Inr nextRun, s4, m') \<and>
    sc_client s3 = sc_client s \<and> RequeueAfter res = time_Sub nextRun (clock_reconcile clk)"
proof -
  obtain err c2 w where add: "addFinalizer (sc_client (removeOldFinalizer s)) (sc_Cleaner (removeOldFinalizer s))
      CleanerFinalizer (api st) = (err, c2, w)" by (metis prod_cases3)
  obtain result m where get: "GetResult (cl_Name c2) (jobs st) = (result, m)"
    by (cases "GetResult (cl_Name c2) (jobs st)")
  let ?s3 = "report_result result ((removeOldFinalizer s)\<lparr>sc_Cleaner := c2\<rparr>)"
  have "err = None" using assms add by (auto simp: reconcileNormal_def Let_def split: if_splits)
  then obtain nextRun m' where "schedule ?s3 (JitterWindowInSeconds r) clk m = Ok (Inr nextRun, s4, m')"
    "RequeueAfter res = time_Sub nextRun (clock_reconcile clk)"
    using assms add get by (auto simp: reconcileNormal_def Let_def case_sum_no_error)
  moreover have "sc_client ?s3 = sc_client s"
    by (simp add: report_result_def removeOldFinalizer_def)
  ultimately show ?thesis by blast
qed

text \<open>
  C17. A reconciliation of a live Cleaner that reports no error asks to be called again after a
  positive time, so that no schedule is forgotten: of a schedule the cron library only has to find
  a later time, or to give the same instant of the past for every time when there is none.
\<close>

theorem live_cleaner_requeued:
  assumes "\<forall>spec next. cron_ParseStandard k spec = Inr next \<longrightarrow>
      (\<forall>t. t < next t) \<or> (\<forall>t. next t = never)" and "never < clock_schedule clk"
    and "clock_reconcile clk \<le> clock_schedule clk"
    and "k_GetCleaner k name (api st) = Inr cleaner" and "cl_DeletionTimestamp cleaner = None"
    and "Reconcile k r clk name st = Ok ((result, None), st')"
  shows "0 < sint (RequeueAfter result)"
proof -
  obtain s where s: "NewCleanerScope
      \<lparr>par_Client = Some k, par_Cleaner = Some cleaner, par_ControllerName = ''cleaner''\<rparr> = Inr s"
    and k: "sc_client s = k"
    using assms(4,6) by (auto simp: Reconcile_def NewCleanerScope_def split: option.splits)
  obtain res err s4 st4 where normal: "reconcileNormal r clk s st = Ok (res, err, s4, st4)"
    and closed: "close_scope (res, err, s4, st4) = ((result, None), st')"
    using assms(4-6) s by (auto simp: Reconcile_def)
  then have "err = None" "res = result"
    by (auto simp: close_scope_def Let_def split: prod.splits if_splits)
  then obtain s3 nextRun m m' where
    sched: "schedule s3 (JitterWindowInSeconds r) clk m = Ok (Inr nextRun, s4, m')"
    and k3: "sc_client s3 = k" and res: "RequeueAfter result = time_Sub nextRun (clock_reconcile clk)"
    using reconcileNormal_schedules [of r clk s st res s4 st4] normal k by auto
  obtain nxt where "cron_ParseStandard k (spec_Schedule (cl_Spec (sc_Cleaner s3))) = Inr nxt"
    "nextRun = nxt (clock_schedule clk)"
    "missed_starts_ok nxt (clock_schedule clk) maxNumberOfFailures
      (nxt (earliest_time (sc_Cleaner s3) (clock_schedule clk)))"
    using schedule_next [OF sched] k3 by auto
  then have "clock_schedule clk < nextRun"
    using assms(1,2) missed_starts_never [of nxt never "clock_schedule clk"] by metis
  then have "0 < nextRun - clock_reconcile clk" using assms(3) by linarith
  then show ?thesis by (auto simp: res sint_time_Sub)
qed

definition ref_reconciler :: CleanerReconciler where
  "ref_reconciler = \<lparr>ConcurrentReconciles = 10, JitterWindowInSeconds = 15\<rparr>"

definition empty_state :: cluster_state where
  "empty_state = \<lparr>w_namespaces = [], w_objects = [], sk_reports = Map.empty, sk_sent = [],
     nd_files = Map.empty, cs_cleaner = None, cs_report = None\<rparr>"

definition control_of :: "Cleaner \<Rightarrow> Report option \<Rightarrow> cluster_state control" where
  "control_of c rep = \<lparr>jobs = idle_manager, api = empty_state\<lparr>cs_cleaner := Some c, cs_report := rep\<rparr>\<rparr>"

lemma idle_unavailable:
  "GetResult n idle_manager = (\<lparr>Status = Unavailable, Message = [], Err = None\<rparr>, idle_manager)"
  by (simp add: GetResult_def getRequestStatus_def idle_manager_def startWorkloadWorkers_def)

lemma not_due_yet:
  "shouldSchedule c 15 (30 * second) = Ok False"
  if "cl_Status c = \<lparr>NextScheduleTime = Some (600 * second), LastRunTime = None, FailureMessage = None\<rparr>"
  using should_schedule_exact [of c "600 * second" 15 "30 * second"] that by simp

definition late_cleaner :: Cleaner where
  "late_cleaner = due_cleaner None (600 * second)"

lemma late_cleaner_simps [simp]:
  "cl_Status late_cleaner = \<lparr>NextScheduleTime = Some (600 * second), LastRunTime = None, FailureMessage = None\<rparr>"
  "cl_Spec late_cleaner = cl_Spec (due_cleaner None (600 * second))"
  "cl_CreationTimestamp late_cleaner = 0" "cl_DeletionTimestamp late_cleaner = None"
  "cl_Finalizers late_cleaner = []" "cl_Name late_cleaner = ''c1''"
  by (simp_all add: late_cleaner_def)

definition finalized :: "Cleaner \<Rightarrow> Cleaner" where
  "finalized c = c\<lparr>cl_Finalizers := cl_Finalizers c @ [CleanerFinalizer]\<rparr>"

lemma example_reconcile:
  "\<exists>st'. Reconcile ref_kube ref_reconciler (at_time (30 * second)) ''c1''
     (control_of late_cleaner None) =
   Ok ((\<lparr>RequeueAfter = time_Sub (60 * second) (30 * second)\<rparr>, None), st')"
proof -
  let ?c = "finalized late_cleaner"
  have c: "cl_Status ?c = \<lparr>NextScheduleTime = Some (600 * second), LastRunTime = None, FailureMessage = None\<rparr>"
    "cl_Spec ?c = cl_Spec (due_cleaner None (600 * second))" "cl_CreationTimestamp ?c = 0"
    by (simp_all add: finalized_def)
  have next30: "getNextScheduleTime cron_minute q ?c (30 * second) = Inr (60 * second)" for q
    by (subst due_next [OF _ c]) (simp_all add: every_minute_def)
  have scope: "NewCleanerScope \<lparr>par_Client = Some ref_kube, par_Cleaner = Some d,
      par_ControllerName = ''cleaner''\<rparr> = Inr (ref_scope d)" for d
    by (simp add: NewCleanerScope_def ref_scope_def) (simp add: ref_kube_def)
  have old: "removeOldFinalizer (ref_scope late_cleaner) =
      ref_scope late_cleaner"
    by (simp add: removeOldFinalizer_def ref_scope_def) (simp add: ref_kube_def)
  have add: "addFinalizer ref_kube late_cleaner CleanerFinalizer w =
      (None, ?c, w\<lparr>cs_cleaner := Some ?c\<rparr>)" for w
    by (simp add: addFinalizer_def ref_kube_def finalized_def Let_def)
  have "\<exists>s4. schedule (ref_scope late_cleaner\<lparr>sc_Cleaner := ?c\<rparr>) 15
      (at_time (30 * second)) idle_manager = Ok (Inr (60 * second), s4, idle_manager) \<and> sc_client s4 = ref_kube"
    using next30 not_due_yet [OF c(1)] c(1)
    by (simp add: schedule_def ref_scope_def at_time_def Let_def) (simp add: ref_kube_def)
  then obtain s4 where sched: "schedule (ref_scope late_cleaner\<lparr>sc_Cleaner := ?c\<rparr>) 15
      (at_time (30 * second)) idle_manager = Ok (Inr (60 * second), s4, idle_manager)" "sc_client s4 = ref_kube"
    by blast
  have "\<exists>st4. reconcileNormal ref_reconciler (at_time (30 * second)) (ref_scope late_cleaner)
      (control_of late_cleaner None) =
      Ok (\<lparr>RequeueAfter = time_Sub (60 * second) (30 * second)\<rparr>, None, s4, st4)"
    using sched(1)
    by (simp add: reconcileNormal_def old add Let_def control_of_def idle_unavailable report_result_def
        ref_reconciler_def)
      (simp add: ref_scope_def add idle_unavailable report_result_def at_time_def)
  then obtain st4 where "reconcileNormal ref_reconciler (at_time (30 * second)) (ref_scope late_cleaner)
      (control_of late_cleaner None) =
      Ok (\<lparr>RequeueAfter = time_Sub (60 * second) (30 * second)\<rparr>, None, s4, st4)" by blast
  moreover have "k_GetCleaner ref_kube ''c1'' (api (control_of late_cleaner None)) =
      Inr late_cleaner"
    by (simp add: ref_kube_def control_of_def)
  ultimately show ?thesis
    using sched(2)
    by (simp add: Reconcile_def scope close_scope_def Close_def PatchObject_def) (simp add: ref_kube_def)
qed

theorem live_cleaner_requeued_witness:
  "\<exists>result st'. Reconcile ref_kube ref_reconciler (at_time (30 * second)) ''c1''
       (control_of late_cleaner None) = Ok ((result, None), st') \<and>
     0 < sint (RequeueAfter result)"
proof -
  obtain st' where run: "Reconcile ref_kube ref_reconciler (at_time (30 * second)) ''c1''
      (control_of late_cleaner None) =
      Ok ((\<lparr>RequeueAfter = time_Sub (60 * second) (30 * second)\<rparr>, None), st')"
    using example_reconcile by blast
  have "\<forall>spec next. cron_ParseStandard ref_kube spec = Inr next \<longrightarrow>
      (\<forall>t. t < next t) \<or> (\<forall>t. next t = 0)"
    using every_minute_fires by (auto simp: ref_kube_def cron_minute_def fires_def)
  moreover have "0 < clock_schedule (at_time (30 * second))" by (simp add: at_time_def)
  moreover have "clock_reconcile (at_time (30 * second)) \<le> clock_schedule (at_time (30 * second))"
    by (simp add: at_time_def)
  moreover have "k_GetCleaner ref_kube ''c1'' (api (control_of late_cleaner None)) =
      Inr late_cleaner" by (simp add: ref_kube_def control_of_def)
  moreover have "cl_DeletionTimestamp late_cleaner = None" by simp
  ultimately have "0 < sint (RequeueAfter \<lparr>RequeueAfter = time_Sub (60 * second) (30 * second)\<rparr>)"
    using run by (rule live_cleaner_requeued)
  then show ?thesis using run by blast
qed

section \<open>Deletion\<close>

text \<open>
  C18. A deleted Cleaner keeps its finalizer, and with it the object, until its report is gone: the
  reconciliation ends without an error exactly when the server has no report of its name, and only
  then is the finalizer taken off; in any case its jobs are removed first.
\<close>

theorem finalizer_waits_for_report:
  "case reconcileDelete s st of (err, s', st') \<Rightarrow>
     (err = None \<longleftrightarrow> (\<exists>e. k_GetReport (sc_client s) (cl_Name (sc_Cleaner s)) (api st) = Inl e \<and> isNotFound e)) \<and>
     sc_Cleaner s' =
       (if err = None \<and> util_ContainsFinalizer (sc_client s) (sc_Cleaner s) CleanerFinalizer
        then util_RemoveFinalizer (sc_client s) (sc_Cleaner s) CleanerFinalizer else sc_Cleaner s) \<and>
     jobs st' = RemoveEntries (cl_Name (sc_Cleaner s)) (jobs st)"
proof (cases "k_GetReport (sc_client s) (cl_Name (sc_Cleaner s)) (api st)")
  case (Inl e)
  then show ?thesis
    by (auto simp: reconcileDelete_def removeReport_def removeQueuedJobs_def Let_def)
next
  case (Inr rep)
  then show ?thesis
    by (cases "fst (k_DeleteReport (sc_client s) rep (api st))")
      (auto simp: reconcileDelete_def removeReport_def removeQueuedJobs_def Let_def
        split: prod.split option.split)
qed

section \<open>The status\<close>

lemma schedule_failure_message:
  assumes "schedule s jitter clk m = Ok (res, s', m')"
  shows "FailureMessage (cl_Status (sc_Cleaner s')) = FailureMessage (cl_Status (sc_Cleaner s))"
  using assms
  by (auto simp: schedule_def Let_def split: sum.splits if_splits)

text \<open>
  The failure message of a Cleaner follows its last run: after a reconciliation that schedules it
  without an error it is the text of the error the run ended with, it is empty when the run
  succeeded and also while a run is queued or under way, and it is kept when the executor knows
  nothing of the Cleaner.
\<close>

theorem failure_message_follows_run:
  assumes "util_ContainsFinalizer (sc_client s) (sc_Cleaner s) CleanerFinalizer"
    and "\<not> util_ContainsFinalizer (sc_client s) (sc_Cleaner s) oldFinalizer"
    and "reconcileNormal r clk s st = Ok (result, None, s', st')"
  shows "FailureMessage (cl_Status (sc_Cleaner s')) =
    (let n = cl_Name (sc_Cleaner s); m = jobs st in
     case results m n of
       Some err \<Rightarrow> map_option error_text err
     | None \<Rightarrow>
         if n \<in> set (inProgress m) \<union> set (jobQueue m) then None
         else FailureMessage (cl_Status (sc_Cleaner s)))"
proof -
  have same: "removeOldFinalizer s = s" "addFinalizer (sc_client s) (sc_Cleaner s) CleanerFinalizer w =
      (None, sc_Cleaner s, w)" for w
    using assms(1,2) by (simp_all add: removeOldFinalizer_def addFinalizer_def)
  obtain res m where get: "GetResult (cl_Name (sc_Cleaner s)) (jobs st) = (res, m)"
    by (cases "GetResult (cl_Name (sc_Cleaner s)) (jobs st)")
  obtain nextRun m' where "schedule (report_result res s) (JitterWindowInSeconds r) clk m =
      Ok (Inr nextRun, s', m')"
    using assms(3) by (auto simp: reconcileNormal_def same get Let_def case_sum_no_error)
  then have "FailureMessage (cl_Status (sc_Cleaner s')) =
      FailureMessage (cl_Status (sc_Cleaner (report_result res s)))"
    by (rule schedule_failure_message)
  then show ?thesis
    using get
    by (auto simp: report_result_def GetResult_def getRequestStatus_def Let_def
        split: option.splits if_splits)
qed

text \<open>
  C27. Once a reconciler has queued a Cleaner, asking for its result gives ``in progress'' in every run of
  the pool without deletions, whatever is queued and asked for and whatever the workers take and finish in
  between, until a worker ends a run of this very Cleaner: no result of an earlier run is taken for the one
  of this run.
\<close>

theorem queued_is_in_progress:
  assumes "reach no_remove n s"
    and "trace_ok (keeps_running key) es (s\<lparr>mgr := Process key (mgr s)\<rparr>)"
    and "exec_trace es (s\<lparr>mgr := Process key (mgr s)\<rparr>) = Some t"
  shows "fst (GetResult key (mgr t)) = \<lparr>Status = InProgress, Message = [], Err = None\<rparr>"
proof -
  note run = keeps_running_trace [OF assms(2)]
  have "manager_good (mgr s)" by (rule pool_manager_good [OF reach_pool_inv [OF assms(1)]])
  from executor.queued_then_in_progress [OF this conjunct2 [OF run]] show ?thesis
    using trace_calls [OF assms(3) conjunct1 [OF run]] by simp
qed

theorem queued_is_in_progress_witness:
  "\<exists>t. exec_trace [EProcess ''b'', ETake 0, ETake 1, EGetResult ''a'', EFinish 1 None] (init_sys 2\<lparr>mgr :=
       Process ''a'' (mgr (init_sys 2))\<rparr>) = Some t \<and>
     fst (GetResult ''a'' (mgr t)) = \<lparr>Status = InProgress, Message = [], Err = None\<rparr>"
proof -
  let ?es = "[EProcess ''b'', ETake 0, ETake 1, EGetResult ''a'', EFinish 1 None]"
  let ?s = "init_sys 2\<lparr>mgr := Process ''a'' (mgr (init_sys 2))\<rparr>"
  note run_eval = init_sys_def startWorkloadWorkers_def manager_ops getRequestStatus_def removeKey_def Let_def eval_nat_numeral
  have ok: "trace_ok (keeps_running ''a'') ?es ?s" by (simp add: run_eval)
  have "\<exists>t. exec_trace ?es ?s = Some t" by (simp add: run_eval)
  then obtain t where t: "exec_trace ?es ?s = Some t" by blast
  from queued_is_in_progress [OF reach.init ok t] t show ?thesis by blast
qed

definition failed_control :: "cluster_state control" where
  "failed_control = (control_of (finalized late_cleaner) None)
     \<lparr>jobs := idle_manager\<lparr>results := [''c1'' \<mapsto> Some (PlainError ''boom'')]\<rparr>\<rparr>"

lemma finalized_simps [simp]:
  "cl_Name (finalized c) = cl_Name c" "cl_Spec (finalized c) = cl_Spec c"
  "cl_Status (finalized c) = cl_Status c" "cl_CreationTimestamp (finalized c) = cl_CreationTimestamp c"
  by (simp_all add: finalized_def)

lemma schedule_late:
  assumes "sc_client s = ref_kube" and "cl_Spec (sc_Cleaner s) = cl_Spec late_cleaner"
    and "cl_CreationTimestamp (sc_Cleaner s) = 0"
    and "cl_Status (sc_Cleaner s) =
      \<lparr>NextScheduleTime = Some (600 * second), LastRunTime = None, FailureMessage = f\<rparr>"
  shows "\<exists>s4. schedule s 15 (at_time (30 * second)) m = Ok (Inr (60 * second), s4, m)"
proof -
  have "getNextScheduleTime cron_minute q (sc_Cleaner s) (30 * second) = Inr (60 * second)" for q
    using assms(2) by (subst due_next [OF _ assms(4) _ assms(3)]) (simp_all add: every_minute_def)
  moreover have "cron_ParseStandard (sc_client s) = cron_minute" by (simp add: assms(1) ref_kube_def)
  ultimately show ?thesis
    using schedule_queues [of s "at_time (30 * second)" "60 * second" "600 * second" 15 m] assms(4)
    by (auto simp: at_time_def)
qed

theorem failure_message_follows_run_witness:
  "\<exists>result s' st'. reconcileNormal ref_reconciler (at_time (30 * second)) (ref_scope (finalized late_cleaner))
       failed_control = Ok (result, None, s', st') \<and>
     FailureMessage (cl_Status (sc_Cleaner s')) = Some ''boom''"
proof -
  let ?s = "ref_scope (finalized late_cleaner)"
  let ?r = "\<lparr>Status = Failed, Message = [], Err = Some (PlainError ''boom'')\<rparr>"
  have has: "util_ContainsFinalizer (sc_client ?s) (sc_Cleaner ?s) CleanerFinalizer"
    by (simp add: ref_scope_def finalized_def) (simp add: ref_kube_def)
  have "CleanerFinalizer \<noteq> oldFinalizer" by (simp add: CleanerFinalizer_def oldFinalizer_def)
  then have not_old: "\<not> util_ContainsFinalizer (sc_client ?s) (sc_Cleaner ?s) oldFinalizer"
    by (simp add: ref_scope_def finalized_def) (simp add: ref_kube_def)
  have get: "\<exists>m. GetResult (cl_Name (sc_Cleaner ?s)) (jobs failed_control) = (?r, m)"
    by (simp add: GetResult_def getRequestStatus_def failed_control_def ref_scope_def)
  then obtain m where get: "GetResult (cl_Name (sc_Cleaner ?s)) (jobs failed_control) = (?r, m)" by blast
  have "\<exists>s4. schedule (report_result ?r ?s) 15 (at_time (30 * second)) m = Ok (Inr (60 * second), s4, m)"
    by (rule schedule_late)
      (simp_all add: report_result_def SetFailureMessage_def with_status_def ref_scope_def)
  then obtain s4 where sched: "schedule (report_result ?r ?s) 15 (at_time (30 * second)) m =
      Ok (Inr (60 * second), s4, m)" by blast
  have same: "removeOldFinalizer ?s = ?s" "addFinalizer (sc_client ?s) (sc_Cleaner ?s) CleanerFinalizer w =
      (None, sc_Cleaner ?s, w)" for w
    using has not_old by (simp_all add: removeOldFinalizer_def addFinalizer_def)
  have "\<exists>result st'. reconcileNormal ref_reconciler (at_time (30 * second)) ?s failed_control =
      Ok (result, None, s4, st')"
    using sched by (simp add: reconcileNormal_def same get ref_reconciler_def Let_def)
  then obtain result st' where run: "reconcileNormal ref_reconciler (at_time (30 * second)) ?s failed_control =
      Ok (result, None, s4, st')" by blast
  have "results (jobs failed_control) (cl_Name (sc_Cleaner ?s)) = Some (Some (PlainError ''boom''))"
    by (simp add: failed_control_def ref_scope_def)
  then have "FailureMessage (cl_Status (sc_Cleaner s4)) = Some ''boom''"
    using failure_message_follows_run [OF has not_old run] by (simp add: Let_def)
  then show ?thesis using run by blast
qed

end
