(* ===== verification/Telemetry.thy ===== *)
theory Telemetry
  imports Api_Types
begin

text \<open>
  The telemetry of \<open>internal/telemetry/report.go\<close>: one collector is started, which sends the
  number of nodes and Cleaners on every tick of its timer.  The Kubernetes client and the HTTP
  client are a record of functions of the outside state \<open>'w\<close>.
\<close>

section \<open>State\<close>

record Cluster =
  UUID :: string
  CleanerVersion :: string
  Nodes :: int
  CleanerInstances :: int

record instance_ =
  inst_version :: string

text \<open>The global instance, and the versions of the collectors whose goroutines were started.\<close>

record telemetry =
  telemetryInstance :: "instance_ option"
  collectors :: "string list"

record http_request =
  req_Method :: string
  req_URL :: string
  req_Body :: string
  req_Header :: "(string \<times> string) list"

record 'w telemetry_client =
  tc_GetDefaultNamespaceUID :: "'w \<Rightarrow> go_error + string"
  tc_ListCleaners :: "'w \<Rightarrow> go_error + Cleaner list"
  tc_ListNodes :: "'w \<Rightarrow> go_error + string list"
  json_MarshalCluster :: "Cluster \<Rightarrow> go_error + string"
  http_NewRequest :: "string \<Rightarrow> string \<Rightarrow> string \<Rightarrow> go_error + http_request"
  http_Do :: "http_request \<Rightarrow> 'w \<Rightarrow> go_err \<times> 'w"

definition domain :: string where
  "domain = ''http://cleaner-telemetry.projectsveltos.io/''"

definition contentTypeJSON :: string where
  "contentTypeJSON = ''application/json''"

section \<open>Starting\<close>

definition StartCollecting :: "string \<Rightarrow> telemetry \<Rightarrow> go_err \<times> telemetry" where
  "StartCollecting sveltosVersion t =
     (case telemetryInstance t of
        Some _ \<Rightarrow> (None, t)
      | None \<Rightarrow>
          (None, t\<lparr>telemetryInstance := Some \<lparr>inst_version = sveltosVersion\<rparr>,
                   collectors := collectors t @ [sveltosVersion]\<rparr>))"

section \<open>Collecting and sending\<close>

definition retrieveUUID :: "'w telemetry_client \<Rightarrow> 'w \<Rightarrow> go_error + string" where
  "retrieveUUID tc w =
     (case tc_GetDefaultNamespaceUID tc w of
        Inl err \<Rightarrow> Inl (WrappedError ''cannot start the telemetry controller'' err)
      | Inr uid \<Rightarrow> Inr uid)"

definition collectData :: "'w telemetry_client \<Rightarrow> instance_ \<Rightarrow> string \<Rightarrow> 'w \<Rightarrow> go_error + Cluster" where
  "collectData tc m uuid w =
     (case tc_ListCleaners tc w of
        Inl err \<Rightarrow> Inl err
      | Inr cleaners \<Rightarrow>
          (case tc_ListNodes tc w of
             Inl err \<Rightarrow> Inl err
           | Inr nodes \<Rightarrow>
               Inr \<lparr>UUID = uuid, CleanerVersion = inst_version m, Nodes = int (length nodes),
                 CleanerInstances = int (length cleaners)\<rparr>))"

definition sendData :: "'w telemetry_client \<Rightarrow> Cluster \<Rightarrow> 'w \<Rightarrow> 'w" where
  "sendData tc payload w =
     (case json_MarshalCluster tc payload of
        Inl _ \<Rightarrow> w
      | Inr data \<Rightarrow>
          (case http_NewRequest tc ''GET'' domain data of
             Inl _ \<Rightarrow> w
           | Inr req \<Rightarrow>
               snd (http_Do tc
                 (req\<lparr>req_Header := req_Header req @
                    [(''Content-Type'', contentTypeJSON),
                     (''User-Agent'', ''projectsveltos/sveltos-telemetry'')]\<rparr>) w)))"

definition collectAndSendData :: "'w telemetry_client \<Rightarrow> instance_ \<Rightarrow> 'w \<Rightarrow> 'w" where
  "collectAndSendData tc m w =
     (case retrieveUUID tc w of
        Inl _ \<Rightarrow> w
      | Inr uuid \<Rightarrow>
          (case collectData tc m uuid w of
             Inl _ \<Rightarrow> w
           | Inr payload \<Rightarrow> sendData tc payload w))"

text \<open>The loop of the collector over the ticks of its timer, until its context is done.\<close>

datatype signal = Tick | ContextDone

fun reportData :: "'w telemetry_client \<Rightarrow> instance_ \<Rightarrow> signal list \<Rightarrow> 'w \<Rightarrow> 'w" where
  "reportData tc m [] w = w"
| "reportData tc m (ContextDone # sigs) w = w"
| "reportData tc m (Tick # sigs) w = reportData tc m sigs (collectAndSendData tc m w)"

section \<open>Properties\<close>

lemma StartCollecting_running:
  "telemetryInstance t = Some i \<Longrightarrow> fold (\<lambda>v t. snd (StartCollecting v t)) vs t = t"
  by (induction vs) (simp_all add: StartCollecting_def)

text \<open>
  However often the start is requested, one collector runs, with the version of the first request.
\<close>

theorem one_collector:
  assumes "telemetryInstance t = None" and "collectors t = []"
  shows "collectors (fold (\<lambda>v t. snd (StartCollecting v t)) (v # vs) t) = [v]"
  using assms StartCollecting_running [of "snd (StartCollecting v t)"]
  by (simp add: StartCollecting_def)

theorem one_collector_witness:
  "collectors (fold (\<lambda>v t. snd (StartCollecting v t)) [''v1'', ''v2'', ''v1'']
     \<lparr>telemetryInstance = None, collectors = []\<rparr>) = [''v1'']"
  by (rule one_collector) simp_all

text \<open>
  A tick sends at most one request, with the counts the server gives at that moment, and none at all
  when one of the lookups fails.
\<close>

theorem tick_sends_counts:
  assumes "http_NewRequest tc ''GET'' domain data = Inr req"
    and "json_MarshalCluster tc \<lparr>UUID = uid, CleanerVersion = inst_version m,
      Nodes = int (length nodes), CleanerInstances = int (length cleaners)\<rparr> = Inr data"
    and "tc_GetDefaultNamespaceUID tc w = Inr uid"
    and "tc_ListCleaners tc w = Inr cleaners" and "tc_ListNodes tc w = Inr nodes"
  shows "reportData tc m [Tick] w =
    snd (http_Do tc (req\<lparr>req_Header := req_Header req @
      [(''Content-Type'', contentTypeJSON), (''User-Agent'', ''projectsveltos/sveltos-telemetry'')]\<rparr>) w)"
  using assms
  by (simp add: collectAndSendData_def retrieveUUID_def collectData_def sendData_def)

end
