(* ===== verification/Startup.thy ===== *)
theory Startup
  imports Worker_Pool Reconciler Telemetry
begin

text \<open>
  The start of the program (\<open>cmd/main.go\<close>), with the singleton of the executor
  (\<open>client.go\<close>) and the set-up of the controller: the flags with their defaults, the options
  of the diagnostics endpoint, and the sequence of \<open>main\<close> with its exits.
\<close>

section \<open>The executor's singleton\<close>

text \<open>
  The second test under the lock sees what the first saw, for calls that follow one another.  A
  negative number of workers starts none, as the loop of \<open>startWorkloadWorkers\<close> does.
\<close>

definition InitializeClient :: "bool \<Rightarrow> int64 \<Rightarrow> sys option \<Rightarrow> sys option outcome" where
  "InitializeClient zap_ok numOfWorker managerInstance =
     (case managerInstance of
        Some s \<Rightarrow> Ok (Some s)
      | None \<Rightarrow> if zap_ok then Ok (Some (init_sys (nat (sint numOfWorker)))) else Panic)"

definition GetClient :: "sys option \<Rightarrow> sys option" where
  "GetClient managerInstance = managerInstance"

section \<open>Flags\<close>

text \<open>A 32-bit float of the command line, by its value; the code only hands it on.\<close>

type_synonym float32 = rat

record flags =
  version :: string
  disableTelemetry :: bool
  diagnosticsAddress :: string
  insecureDiagnostics :: bool
  flag_workers :: int64
  jitterWindowInSeconds :: int64
  concurrentReconciles :: int64
  restConfigQPS :: float32
  restConfigBurst :: int64
  webhookPort :: int64
  syncPeriod :: duration
  healthAddr :: string

text \<open>The values the flags have when the command line does not set them.\<close>

definition initFlags :: flags where
  "initFlags =
     \<lparr>version = [], disableTelemetry = False, diagnosticsAddress = '':8443'',
      insecureDiagnostics = False, flag_workers = 5, jitterWindowInSeconds = 15,
      concurrentReconciles = 10, restConfigQPS = 40, restConfigBurst = 60, webhookPort = 9443,
      syncPeriod = seconds (10 * 60), healthAddr = '':9440''\<rparr>"

section \<open>Diagnostics, logging and the scheme\<close>

datatype filter_provider = NoFilter | WithAuthenticationAndAuthorization

record metrics_options =
  BindAddress :: string
  SecureServing :: bool
  FilterProvider :: filter_provider

definition getDiagnosticsOptions :: "flags \<Rightarrow> metrics_options" where
  "getDiagnosticsOptions f =
     (if insecureDiagnostics f
      then \<lparr>BindAddress = diagnosticsAddress f, SecureServing = False, FilterProvider = NoFilter\<rparr>
      else \<lparr>BindAddress = diagnosticsAddress f, SecureServing = True,
             FilterProvider = WithAuthenticationAndAuthorization\<rparr>)"

record logger_config =
  log_Level :: int
  MessageKey :: string
  LevelKey :: string
  TimeKey :: string
  CallerKey :: string

definition createLogger :: logger_config where
  "createLogger =
     \<lparr>log_Level = -2, MessageKey = ''message'', LevelKey = ''level'', TimeKey = ''time'',
      CallerKey = ''caller''\<rparr>"

text \<open>The two registrations are calls of the Kubernetes library and of the generated builder.\<close>

definition initScheme :: "go_err \<Rightarrow> go_err \<Rightarrow> go_error + unit" where
  "initScheme clientgo_AddToScheme api_AddToScheme =
     (case clientgo_AddToScheme of
        Some err \<Rightarrow> Inl err
      | None \<Rightarrow> (case api_AddToScheme of Some err \<Rightarrow> Inl err | None \<Rightarrow> Inr ()))"

section \<open>The main function\<close>

text \<open>
  What the calls of \<open>main\<close> to the libraries return.  Parsing the command line gives the flags from
  their defaults, or ends the program with a status of its own.
\<close>

record rest_config =
  QPS :: float32
  Burst :: int64

record ctrl_options =
  opt_Metrics :: metrics_options
  HealthProbeBindAddress :: string
  opt_Port :: int64
  opt_SyncPeriod :: duration

record environment =
  env_clientgoScheme :: go_err
  env_apiScheme :: go_err
  env_parse :: "flags \<Rightarrow> nat + flags"
  env_buildLogger :: bool
  env_GetConfig :: bool
  env_NewManager :: "rest_config \<Rightarrow> ctrl_options \<Rightarrow> go_err"
  env_zap :: bool
  env_controller :: "CleanerReconciler \<Rightarrow> go_err"
  env_healthz :: go_err
  env_readyz :: go_err
  env_Start :: go_err

text \<open>How \<open>main\<close> ends, and the globals it has set by then.\<close>

datatype exit_status = Returned | Exit nat | Panicked

record process =
  p_manager :: "sys option"
  p_telemetry :: telemetry
  p_reconciler :: "CleanerReconciler option"
  p_options :: "(rest_config \<times> ctrl_options) option"

definition SetupWithManager ::
  "environment \<Rightarrow> CleanerReconciler \<Rightarrow> int64 \<Rightarrow> process \<Rightarrow> (go_err \<times> process) outcome" where
  "SetupWithManager env r numOfWorker p =
     bind_outcome (InitializeClient (env_zap env) numOfWorker (p_manager p)) (\<lambda>m.
       let p' = p\<lparr>p_manager := m, p_reconciler := Some r\<rparr>
       in case env_controller env r of
            Some err \<Rightarrow> Ok (Some err, p')
          | None \<Rightarrow> Ok (None, p'))"

definition start_telemetry :: "flags \<Rightarrow> process \<Rightarrow> process" where
  "start_telemetry f p =
     (if disableTelemetry f then p
      else p\<lparr>p_telemetry := snd (StartCollecting (version f) (p_telemetry p))\<rparr>)"

definition main_setup :: "environment \<Rightarrow> flags \<Rightarrow> process \<Rightarrow> exit_status \<times> process" where
  "main_setup env f p =
     (let r = \<lparr>ConcurrentReconciles = concurrentReconciles f,
               JitterWindowInSeconds = jitterWindowInSeconds f\<rparr>
      in case SetupWithManager env r (flag_workers f) p of
           Ok (None, p1) \<Rightarrow>
             if env_healthz env \<noteq> None then (Exit 1, p1)
             else if env_readyz env \<noteq> None then (Exit 1, p1)
             else
               let p2 = start_telemetry f p1
               in (if env_Start env \<noteq> None then Exit 1 else Returned, p2)
         | Ok (Some _, p1) \<Rightarrow> (Exit 1, p1)
         | Fail _ \<Rightarrow> (Exit 1, p)
         | Panic \<Rightarrow> (Panicked, p))"

definition ctrlOptions :: "flags \<Rightarrow> ctrl_options" where
  "ctrlOptions f =
     \<lparr>opt_Metrics = getDiagnosticsOptions f, HealthProbeBindAddress = healthAddr f,
      opt_Port = webhookPort f, opt_SyncPeriod = syncPeriod f\<rparr>"

definition main :: "environment \<Rightarrow> process \<Rightarrow> exit_status \<times> process" where
  "main env p =
     (case initScheme (env_clientgoScheme env) (env_apiScheme env) of
        Inl _ \<Rightarrow> (Exit 1, p)
      | Inr _ \<Rightarrow>
          (case env_parse env initFlags of
             Inl code \<Rightarrow> (Exit code, p)
           | Inr f \<Rightarrow>
               if \<not> env_buildLogger env then (Panicked, p)
               else if \<not> env_GetConfig env then (Exit 1, p)
               else
                 let restConfig = \<lparr>QPS = restConfigQPS f, Burst = restConfigBurst f\<rparr>;
                     options = ctrlOptions f; p1 = p\<lparr>p_options := Some (restConfig, options)\<rparr>
                 in if env_NewManager env restConfig options \<noteq> None then (Exit 1, p1)
                    else main_setup env f p1))"

section \<open>Properties\<close>

text \<open>The executor is created once: later calls keep the queues and the workers there are.\<close>

theorem one_executor:
  assumes "InitializeClient ok n None = Ok s"
  shows "InitializeClient ok' n' (GetClient s) = Ok s"
  using assms by (auto simp: InitializeClient_def GetClient_def split: if_splits)

theorem one_executor_witness:
  "InitializeClient True 7 (GetClient (Some (init_sys 5))) = Ok (Some (init_sys 5))"
  by (rule one_executor [of True 5]) (simp add: InitializeClient_def)

definition fresh_process :: process where
  "fresh_process =
     \<lparr>p_manager = None, p_telemetry = \<lparr>telemetryInstance = None, collectors = []\<rparr>,
      p_reconciler = None, p_options = None\<rparr>"

lemma main_setup_returned:
  "main_setup env f p = (Returned, q) \<Longrightarrow> p_manager p = None \<Longrightarrow>
   p_manager q = Some (init_sys (nat (sint (flag_workers f)))) \<and>
   p_reconciler q = Some \<lparr>ConcurrentReconciles = concurrentReconciles f,
     JitterWindowInSeconds = jitterWindowInSeconds f\<rparr> \<and>
   p_options q = p_options p \<and>
   p_telemetry q = (if disableTelemetry f then p_telemetry p
     else snd (StartCollecting (version f) (p_telemetry p)))"
  by (auto simp: main_setup_def SetupWithManager_def InitializeClient_def start_telemetry_def Let_def
      split: option.splits if_splits)

text \<open>
  C37. When the program runs to the end, it ran with the number of idle workers, the jitter window and
  the diagnostics the flags ask for; diagnostics without authentication are only served when the
  insecure flag is set, and telemetry is only collected when it is not disabled.
\<close>

theorem program_runs_as_configured:
  assumes "main env fresh_process = (Returned, p)" and "env_parse env initFlags = Inr f"
  shows "p_manager p = Some (init_sys (nat (sint (flag_workers f)))) \<and>
    map_option JitterWindowInSeconds (p_reconciler p) = Some (jitterWindowInSeconds f) \<and>
    (\<exists>rest opts. p_options p = Some (rest, opts) \<and> QPS rest = restConfigQPS f \<and>
       BindAddress (opt_Metrics opts) = diagnosticsAddress f \<and> opt_SyncPeriod opts = syncPeriod f \<and>
       (FilterProvider (opt_Metrics opts) = NoFilter \<longleftrightarrow> insecureDiagnostics f) \<and>
       (SecureServing (opt_Metrics opts) \<longleftrightarrow> \<not> insecureDiagnostics f)) \<and>
    collectors (p_telemetry p) = (if disableTelemetry f then [] else [version f])"
proof -
  have "main_setup env f (fresh_process\<lparr>p_options :=
      Some (\<lparr>QPS = restConfigQPS f, Burst = restConfigBurst f\<rparr>, ctrlOptions f)\<rparr>) = (Returned, p)"
    using assms by (auto simp: main_def Let_def split: sum.splits if_splits)
  from main_setup_returned [OF this] show ?thesis
    by (simp add: fresh_process_def ctrlOptions_def getDiagnosticsOptions_def StartCollecting_def)
qed

definition quiet_environment :: environment where
  "quiet_environment =
     \<lparr>env_clientgoScheme = None, env_apiScheme = None,
      env_parse = (\<lambda>f. Inr (f\<lparr>disableTelemetry := True\<rparr>)), env_buildLogger = True, env_GetConfig = True,
      env_NewManager = (\<lambda>_ _. None), env_zap = True, env_controller = (\<lambda>_. None),
      env_healthz = None, env_readyz = None, env_Start = None\<rparr>"

theorem program_runs_as_configured_witness:
  "\<exists>p. main quiet_environment fresh_process = (Returned, p) \<and> p_manager p = Some (init_sys 5) \<and>
     collectors (p_telemetry p) = []"
proof -
  have "\<exists>p. main quiet_environment fresh_process = (Returned, p)"
    by (simp add: main_def initScheme_def main_setup_def SetupWithManager_def InitializeClient_def
        quiet_environment_def fresh_process_def Let_def)
  then obtain p where run: "main quiet_environment fresh_process = (Returned, p)" by blast
  have parsed: "env_parse quiet_environment initFlags = Inr (initFlags\<lparr>disableTelemetry := True\<rparr>)"
    by (simp add: quiet_environment_def)
  then show ?thesis
    using program_runs_as_configured [OF run parsed] run by (simp add: initFlags_def)
qed

end
