(* ===== verification/Run_Stages.thy ===== *)
theory Run_Stages
  imports Executor Batch
begin

text \<open>
  A run of a Cleaner cut into stages: one selector, one resource, one notification or one file at a
  time, so that what other goroutines and other clients do may come in between.  Run without
  interruption the stages are \<open>processCleanerInstance\<close>, and they come to an end.
\<close>

section \<open>The stages\<close>

text \<open>
  The Cleaner is looked up; resources are selected, with the selectors to come and the resources so
  far; they are acted on, with the resources to come, the processed ones and the errors so far;
  notifications are sent, with the report and the notifications to come; the processed resources are
  stored in a folder.
\<close>

datatype run_stage =
    Looking
  | Selecting Cleaner "ResourceSelector list" "ResourceResult list"
  | Acting Cleaner "ResourceResult list" "ResourceResult list" "go_error list"
  | Notifying Cleaner ReportSpec "Notification list" "ResourceResult list" go_err
  | Storing string "ResourceResult list" go_err

type_synonym run_progress = "go_err + run_stage"

text \<open>What the switch on the action does with one resource, and with which resources it does so.\<close>

definition act_step ::
  "('w, 'st, 't) deps \<Rightarrow> string \<Rightarrow> Cleaner \<Rightarrow> ResourceResult \<Rightarrow> 'w exec \<Rightarrow>
   (ResourceResult attempt \<times> 'w exec) outcome" where
  "act_step d cleanerName cleaner r s =
     (case spec_Action (cl_Spec cleaner) of
        ActionDelete \<Rightarrow> delete_step (d_cluster d) cleanerName (spec_DeleteOptions (cl_Spec cleaner)) r s
      | ActionTransform \<Rightarrow>
          update_step (d_cluster d) (d_vm d) cleanerName (spec_Transform (cl_Spec cleaner)) r s
      | ActionScan \<Rightarrow> scan_step cleanerName r s
      | OtherAction _ \<Rightarrow> Ok (Gone, s))"

definition report_of :: "('w, 'st, 't) deps \<Rightarrow> Cleaner \<Rightarrow> ResourceResult list \<Rightarrow> 'w \<Rightarrow> ReportSpec" where
  "report_of d cleaner ps w =
     (if spec_Notifications (cl_Spec cleaner) \<noteq> [] then generateReportSpec (d_now d w) ps cleaner
      else \<lparr>rep_ResourceInfo = [], rep_Action = OtherAction []\<rparr>)"

fun run_stage_step ::
  "('w, 'st, 't) deps \<Rightarrow> string \<Rightarrow> run_stage \<Rightarrow> 'w exec \<Rightarrow> (run_progress \<times> 'w exec) outcome" where
  "run_stage_step d n Looking s =
     (case getCleanerInstance d n (world s) of
        (_, Some err) \<Rightarrow> Ok (Inl (Some err), s)
      | (cleaner, None) \<Rightarrow>
          Ok (Inr (Selecting cleaner (ResourceSelectors (spec_ResourcePolicySet (cl_Spec cleaner))) []), s))"
| "run_stage_step d n (Selecting cleaner (sr # srs) acc) s =
     (case getMatchingResources (d_cluster d) (d_vm d) (world s) sr of
        Panic \<Rightarrow> Panic
      | Fail err \<Rightarrow> Ok (Inl (Some err), s)
      | Ok rs \<Rightarrow> Ok (Inr (Selecting cleaner srs (acc @ rs)), s))"
| "run_stage_step d n (Selecting cleaner [] acc) s =
     (case (if AggregatedSelection (spec_ResourcePolicySet (cl_Spec cleaner)) \<noteq> []
            then aggregatedSelection (d_vm d) (AggregatedSelection (spec_ResourcePolicySet (cl_Spec cleaner))) acc
            else Ok acc) of
        Panic \<Rightarrow> Panic
      | Fail err \<Rightarrow> Ok (Inl (Some err), s)
      | Ok rs \<Rightarrow> Ok (Inr (Acting cleaner rs [] []), s))"
| "run_stage_step d n (Acting cleaner (r # rs) ps es) s =
     bind_outcome (act_step d n cleaner r s) (\<lambda>(a, s').
       Ok (Inr (Acting cleaner rs (ps @ done_of a) (es @ error_of a)), s'))"
| "run_stage_step d n (Acting cleaner [] ps es) s =
     Ok (Inr (Notifying cleaner (report_of d cleaner ps (world s)) (spec_Notifications (cl_Spec cleaner)) ps
           (join_errors es)), s)"
| "run_stage_step d n (Notifying cleaner rep (nt # nts) ps err) s =
     (case deliver (d_notifier d) cleaner ps rep (notification_message cleaner) nt of
        None \<Rightarrow> Panic
      | Some send \<Rightarrow>
          (case send (world s) of
             (Inl e, w) \<Rightarrow> Ok (Inl (Some e), s\<lparr>world := w\<rparr>)
           | (Inr _, w) \<Rightarrow> Ok (Inr (Notifying cleaner rep nts ps err), s\<lparr>world := w\<rparr>)))"
| "run_stage_step d n (Notifying cleaner rep [] ps err) s =
     (if spec_StoreResourcePath (cl_Spec cleaner) = [] then Ok (Inl err, s)
      else
        case getFolder (d_disk d) (world s) (spec_StoreResourcePath (cl_Spec cleaner)) (cl_Name cleaner) of
          Inl e \<Rightarrow> Ok (Inl (Some e), s)
        | Inr folder \<Rightarrow> Ok (Inr (Storing folder ps err), s))"
| "run_stage_step d n (Storing folder (r # rs) err) s =
     bind_outcome (dumpObject (d_disk d) (scheme_objectKinds (d_cluster d)) (rr_Resource r) folder (world s))
       (\<lambda>(_, w). Ok (Inr (Storing folder rs err), s\<lparr>world := w\<rparr>))"
| "run_stage_step d n (Storing folder [] err) s = Ok (Inl err, s)"

section \<open>The stages make up a run\<close>

fun finish_run_stages ::
  "nat \<Rightarrow> ('w, 'st, 't) deps \<Rightarrow> string \<Rightarrow> run_progress \<Rightarrow> 'w exec \<Rightarrow> (go_err \<times> 'w exec) option outcome" where
  "finish_run_stages m d n (Inl err) s = Ok (Some (err, s))"
| "finish_run_stages 0 d n (Inr g) s = Ok None"
| "finish_run_stages (Suc m) d n (Inr g) s =
     bind_outcome (run_stage_step d n g s) (\<lambda>(p, s'). finish_run_stages m d n p s')"

abbreviation ended :: "'a outcome \<Rightarrow> 'a option outcome" where
  "ended x \<equiv> bind_outcome x (\<lambda>y. Ok (Some y))"

text \<open>The rest of a run once its resources are processed, and once its notifications are sent.\<close>

definition store_rest ::
  "('w, 'st, 't) deps \<Rightarrow> Cleaner \<Rightarrow> ResourceResult list \<Rightarrow> go_err \<Rightarrow> 'w exec \<Rightarrow> (go_err \<times> 'w exec) outcome" where
  "store_rest d cleaner ps err s =
     bind_outcome (storeResources (d_disk d) (scheme_objectKinds (d_cluster d)) ps cleaner (world s))
       (\<lambda>(e, w). if e \<noteq> None then Ok (e, s\<lparr>world := w\<rparr>) else Ok (err, s\<lparr>world := w\<rparr>))"

definition notify_rest ::
  "('w, 'st, 't) deps \<Rightarrow> Cleaner \<Rightarrow> ReportSpec \<Rightarrow> Notification list \<Rightarrow> ResourceResult list \<Rightarrow> go_err \<Rightarrow>
   'w exec \<Rightarrow> (go_err \<times> 'w exec) outcome" where
  "notify_rest d cleaner rep nts ps err s =
     bind_outcome
       (send_loop (deliver (d_notifier d) cleaner ps rep (notification_message cleaner)) nts (world s))
       (\<lambda>(e, w). if e \<noteq> None then Ok (e, s\<lparr>world := w\<rparr>)
          else store_rest d cleaner ps err (s\<lparr>world := w\<rparr>))"

lemma notify_rest_simps:
  "notify_rest d cleaner rep [] ps err s = store_rest d cleaner ps err s"
  "notify_rest d cleaner rep (nt # nts) ps err s =
     (case deliver (d_notifier d) cleaner ps rep (notification_message cleaner) nt of
        None \<Rightarrow> Panic
      | Some send \<Rightarrow>
          (case send (world s) of
             (Inl e, w) \<Rightarrow> Ok (Some e, s\<lparr>world := w\<rparr>)
           | (Inr _, w) \<Rightarrow> notify_rest d cleaner rep nts ps err (s\<lparr>world := w\<rparr>)))"
  by (simp_all add: notify_rest_def cong: if_cong split: option.split prod.split sum.split)

lemma finish_run_rest:
  "finish_run d cleaner (ps, err, s) =
   notify_rest d cleaner (report_of d cleaner ps (world s)) (spec_Notifications (cl_Spec cleaner)) ps err s"
  by (simp add: finish_run_def notify_rest_def store_rest_def sendNotifications_def report_of_def Let_def
      cong: if_cong)

lemma finish_storing:
  "length rs < m \<Longrightarrow>
   finish_run_stages m d n (Inr (Storing folder rs err)) s =
   ended (bind_outcome (dump_all (d_disk d) (scheme_objectKinds (d_cluster d)) rs folder (world s))
     (\<lambda>w. Ok (err, s\<lparr>world := w\<rparr>)))"
proof (induction rs arbitrary: m s)
  case Nil
  then show ?case by (cases m) simp_all
next
  case (Cons r rs)
  then obtain m' where m: "m = Suc m'" "length rs < m'" by (cases m) auto
  show ?case
    by (cases "dumpObject (d_disk d) (scheme_objectKinds (d_cluster d)) (rr_Resource r) folder (world s)")
      (auto simp: m Cons.IH [OF m(2)])
qed

lemma finish_stored:
  assumes "length ps + 1 < m"
  shows "finish_run_stages m d n (Inr (Notifying cleaner rep [] ps err)) s = ended (store_rest d cleaner ps err s)"
proof -
  obtain m' where m: "m = Suc m'" "length ps < m'" using assms by (cases m) auto
  show ?thesis
    by (auto simp: m finish_storing [OF m(2)] store_rest_def storeResources_def bind_outcome_assoc
        split: sum.split)
qed

lemma finish_notifying:
  "length nts + length ps + 1 < m \<Longrightarrow>
   finish_run_stages m d n (Inr (Notifying cleaner rep nts ps err)) s =
   ended (notify_rest d cleaner rep nts ps err s)"
proof (induction nts arbitrary: m s)
  case Nil
  then show ?case by (simp add: finish_stored notify_rest_simps)
next
  case (Cons nt nts)
  then obtain m' where m: "m = Suc m'" "length nts + length ps + 1 < m'" by (cases m) auto
  show ?case
    by (simp add: m Cons.IH [OF m(2)] notify_rest_simps split: option.split prod.split sum.split)
qed

lemma finish_acted:
  assumes "length (spec_Notifications (cl_Spec cleaner)) + length ps + 2 < m"
  shows "finish_run_stages m d n (Inr (Acting cleaner [] ps es)) s =
    ended (finish_run d cleaner (ps, join_errors es, s))"
proof -
  obtain m' where m: "m = Suc m'" "length (spec_Notifications (cl_Spec cleaner)) + length ps + 1 < m'"
    using assms by (cases m) auto
  show ?thesis by (simp add: m finish_notifying [OF m(2)] finish_run_rest)
qed

text \<open>The loop of the action, as the batch of its steps.\<close>

definition act_loop ::
  "('w, 'st, 't) deps \<Rightarrow> string \<Rightarrow> Cleaner \<Rightarrow> ResourceResult list \<Rightarrow> 'w exec \<Rightarrow>
   (ResourceResult list \<times> go_error list \<times> 'w exec) outcome" where
  "act_loop d n cleaner rs s =
     (case spec_Action (cl_Spec cleaner) of
        ActionDelete \<Rightarrow> Ok (delete_loop (d_cluster d) n (spec_DeleteOptions (cl_Spec cleaner)) rs s)
      | ActionTransform \<Rightarrow> update_loop (d_cluster d) (d_vm d) n (spec_Transform (cl_Spec cleaner)) rs s
      | ActionScan \<Rightarrow> Ok (rs, [], printMatchingResources n rs s)
      | OtherAction _ \<Rightarrow> Ok ([], [], s))"

interpretation acts: batch "act_step d n cleaner" "act_loop d n cleaner"
  for d :: "('w, 'st, 't) deps" and n cleaner
proof
  show "act_loop d n cleaner [] s = Ok ([], [], s)" for s
    by (simp add: act_loop_def split: Action.split)
  show "act_loop d n cleaner (r # rs) s =
    bind_outcome (act_step d n cleaner r s) (\<lambda>(a, s').
    bind_outcome (act_loop d n cleaner rs s') (\<lambda>(ps, es, t). Ok (done_of a @ ps, error_of a @ es, t)))" for r rs s
    using deletes.loop_Cons [of "d_cluster d" n "spec_DeleteOptions (cl_Spec cleaner)" r rs s]
      updates.loop_Cons [of "d_cluster d" "d_vm d" n "spec_Transform (cl_Spec cleaner)" r rs s]
      scans.loop_Cons [of r rs n s]
    by (cases "spec_Action (cl_Spec cleaner)") (simp_all add: act_loop_def act_step_def)
qed

lemma run_action_loop:
  "run_action d n cleaner rs s =
   bind_outcome (act_loop d n cleaner rs s) (\<lambda>(ps, es, t). Ok (ps, join_errors es, t))"
  by (auto simp: run_action_def act_loop_def deleteMatchingResources_def updateMatchingResources_def
      join_errors_def split: Action.split prod.split)

lemma act_step_done: "act_step d n cleaner r s = Ok (a, s') \<Longrightarrow> length (done_of a) \<le> 1"
  by (cases a) auto

lemma finish_acting:
  "length (spec_Notifications (cl_Spec cleaner)) + length ps + 2 * length rs + 2 < m \<Longrightarrow>
   finish_run_stages m d n (Inr (Acting cleaner rs ps es)) s =
   ended (bind_outcome (act_loop d n cleaner rs s)
     (\<lambda>(ps', es', t). finish_run d cleaner (ps @ ps', join_errors (es @ es'), t)))"
proof (induction rs arbitrary: m ps es s)
  case Nil
  then show ?case by (simp add: finish_acted acts.loop_Nil)
next
  case (Cons r rs)
  then obtain m' where m: "m = Suc m'"
    "length (spec_Notifications (cl_Spec cleaner)) + length ps + 1 + 2 * length rs + 2 < m'" by (cases m) auto
  show ?case
  proof (cases "act_step d n cleaner r s")
    case (Ok x)
    obtain a s' where x: "x = (a, s')" by (cases x)
    have "length (done_of a) \<le> 1" using act_step_done Ok x by blast
    then have "length (spec_Notifications (cl_Spec cleaner)) + length (ps @ done_of a) + 2 * length rs + 2 < m'"
      using m(2) by simp
    note ih = Cons.IH [OF this, of "es @ error_of a" s']
    show ?thesis
      by (cases "act_loop d n cleaner rs s'") (auto simp: m(1) Ok x ih acts.loop_Cons)
  qed (simp_all add: m(1) acts.loop_Cons)
qed

definition aggregate ::
  "('w, 'st, 't) deps \<Rightarrow> Cleaner \<Rightarrow> ResourceResult list \<Rightarrow> ResourceResult list outcome" where
  "aggregate d cleaner acc =
     (if AggregatedSelection (spec_ResourcePolicySet (cl_Spec cleaner)) \<noteq> []
      then aggregatedSelection (d_vm d) (AggregatedSelection (spec_ResourcePolicySet (cl_Spec cleaner))) acc
      else Ok acc)"

lemma select_resources_aggregate:
  "select_resources d cleaner w =
   bind_outcome (collect_all (getMatchingResources (d_cluster d) (d_vm d) w)
     (ResourceSelectors (spec_ResourcePolicySet (cl_Spec cleaner)))) (aggregate d cleaner)"
  by (simp add: select_resources_def aggregate_def [abs_def] Let_def)

text \<open>What the run makes of its selection.\<close>

definition use_selection ::
  "('w, 'st, 't) deps \<Rightarrow> string \<Rightarrow> Cleaner \<Rightarrow> 'w exec \<Rightarrow> ResourceResult list outcome \<Rightarrow>
   (go_err \<times> 'w exec) outcome" where
  "use_selection d n cleaner s x =
     (case x of
        Panic \<Rightarrow> Panic
      | Fail err \<Rightarrow> Ok (Some err, s)
      | Ok rs \<Rightarrow> bind_outcome (run_action d n cleaner rs s) (finish_run d cleaner))"

lemma finish_selected:
  "\<exists>M. \<forall>m \<ge> M. finish_run_stages m d n (Inr (Selecting cleaner [] acc)) s =
     ended (use_selection d n cleaner s (aggregate d cleaner acc))"
proof (cases "aggregate d cleaner acc")
  case (Ok rs)
  let ?M = "length (spec_Notifications (cl_Spec cleaner)) + 2 * length rs + 4"
  have "finish_run_stages m d n (Inr (Selecting cleaner [] acc)) s =
      ended (use_selection d n cleaner s (aggregate d cleaner acc))" if M: "?M \<le> m" for m
  proof -
    obtain m' where m: "m = Suc m'"
      "length (spec_Notifications (cl_Spec cleaner)) + length ([] :: ResourceResult list) + 2 * length rs + 2 < m'"
      using M by (cases m) auto
    show ?thesis
      using Ok unfolding aggregate_def
      by (simp add: m(1) finish_acting [OF m(2)] use_selection_def run_action_loop bind_outcome_assoc
          case_prod_beta)
  qed
  then show ?thesis by blast
next
  case (Fail e)
  then show ?thesis unfolding aggregate_def
    by (intro exI [of _ 1] allI impI) (auto simp: use_selection_def Suc_le_D dest!: Suc_le_D)
next
  case Panic
  then show ?thesis unfolding aggregate_def
    by (intro exI [of _ 1] allI impI) (auto simp: use_selection_def dest!: Suc_le_D)
qed

lemma finish_selecting:
  "\<exists>M. \<forall>m \<ge> M. finish_run_stages m d n (Inr (Selecting cleaner srs acc)) s =
     ended (use_selection d n cleaner s
       (bind_outcome (collect_all (getMatchingResources (d_cluster d) (d_vm d) (world s)) srs)
         (\<lambda>rs. aggregate d cleaner (acc @ rs))))"
proof (induction srs arbitrary: acc)
  case Nil
  then show ?case using finish_selected by simp
next
  case (Cons sr srs)
  show ?case
  proof (cases "getMatchingResources (d_cluster d) (d_vm d) (world s) sr")
    case (Ok rs)
    obtain M where M: "\<And>m. M \<le> m \<Longrightarrow> finish_run_stages m d n (Inr (Selecting cleaner srs (acc @ rs))) s =
        ended (use_selection d n cleaner s
          (bind_outcome (collect_all (getMatchingResources (d_cluster d) (d_vm d) (world s)) srs)
            (\<lambda>rs'. aggregate d cleaner ((acc @ rs) @ rs'))))"
      using Cons.IH [of "acc @ rs"] by blast
    have "finish_run_stages m d n (Inr (Selecting cleaner (sr # srs) acc)) s =
        ended (use_selection d n cleaner s
          (bind_outcome (collect_all (getMatchingResources (d_cluster d) (d_vm d) (world s)) (sr # srs))
            (\<lambda>rs. aggregate d cleaner (acc @ rs))))" if m: "Suc M \<le> m" for m
    proof -
      obtain m' where "m = Suc m'" "M \<le> m'" using m by (cases m) auto
      then show ?thesis
        using M by (simp add: Ok bind_outcome_assoc)
    qed
    then show ?thesis by blast
  qed (intro exI [of _ 1] allI impI; auto simp: use_selection_def dest!: Suc_le_D)+
qed

lemma run_stages_finish:
  "\<exists>M. \<forall>m \<ge> M. finish_run_stages m d n (Inr Looking) s = ended (processCleanerInstance d n s)"
proof -
  obtain cleaner err where got: "getCleanerInstance d n (world s) = (cleaner, err)"
    by (cases "getCleanerInstance d n (world s)")
  show ?thesis
  proof (cases err)
    case None
    obtain M where M: "\<And>m. M \<le> m \<Longrightarrow> finish_run_stages m d n
        (Inr (Selecting cleaner (ResourceSelectors (spec_ResourcePolicySet (cl_Spec cleaner))) [])) s =
        ended (use_selection d n cleaner s (select_resources d cleaner (world s)))"
      using finish_selecting [of d n cleaner "ResourceSelectors (spec_ResourcePolicySet (cl_Spec cleaner))" "[]" s]
      by (auto simp: select_resources_aggregate)
    have "finish_run_stages m d n (Inr Looking) s = ended (processCleanerInstance d n s)" if m: "Suc M \<le> m" for m
    proof -
      obtain m' where "m = Suc m'" "M \<le> m'" using m by (cases m) auto
      then show ?thesis
        using M by (simp add: got None processCleanerInstance_def use_selection_def)
    qed
    then show ?thesis by blast
  next
    case (Some e)
    then show ?thesis
      using got by (intro exI [of _ 1] allI impI) (auto simp: processCleanerInstance_def dest!: Suc_le_D)
  qed
qed

text \<open>
  The stages of a run come to an end, and without interruption they do what
  \<open>processCleanerInstance\<close> does, with every error and every panic.
\<close>

theorem run_stages_are_run:
  "\<exists>M. \<forall>m. finish_run_stages (M + m) d n (Inr Looking) s =
     bind_outcome (processCleanerInstance d n s) (\<lambda>x. Ok (Some x))"
proof -
  obtain M where "\<And>m. M \<le> m \<Longrightarrow> finish_run_stages m d n (Inr Looking) s = ended (processCleanerInstance d n s)"
    using run_stages_finish [of d n s] by blast
  then show ?thesis by (metis le_add1)
qed

end
