(* ===== verification/Reconciler_Stages.thy ===== *)
theory Reconciler_Stages
  imports Reconciler_Properties
begin

text \<open>
  A reconciliation cut at the points where other goroutines may come in: each stage calls the job
  manager at most once, so a sequence of stages interleaved with other steps is what runs when several
  reconcilers and workers are active.  Run one after the other without interruption the stages are
  \<open>Reconcile\<close>.
\<close>

section \<open>The stages\<close>

text \<open>
  The Cleaner was fetched; its jobs were removed because it is being deleted; its finalizer is in
  place; the executor was asked for the result of its last run; only the scope is left to be closed.
\<close>

datatype 'w stage =
    Fetched "'w CleanerScope"
  | Removed "'w CleanerScope"
  | Ready "'w CleanerScope"
  | Polled "'w CleanerScope"
  | Closing ctrl_Result go_err "'w CleanerScope"

fun stage_scope :: "'w stage \<Rightarrow> 'w CleanerScope" where
  "stage_scope (Fetched s) = s"
| "stage_scope (Removed s) = s"
| "stage_scope (Ready s) = s"
| "stage_scope (Polled s) = s"
| "stage_scope (Closing _ _ s) = s"

type_synonym 'w progress = "(ctrl_Result \<times> go_err) + 'w stage"

abbreviation no_requeue :: ctrl_Result where
  "no_requeue \<equiv> \<lparr>RequeueAfter = 0\<rparr>"

definition reconcile_begin :: "'w kube \<Rightarrow> string \<Rightarrow> 'w \<Rightarrow> 'w progress" where
  "reconcile_begin k name w =
     (case k_GetCleaner k name w of
        Inl err \<Rightarrow>
          Inl (no_requeue,
            if isNotFound err then None
            else Some (WrappedError (''Failed to fetch Cleaner '' @ fmt_name k name) err))
      | Inr cleaner \<Rightarrow>
          (case NewCleanerScope
                  \<lparr>par_Client = Some k, par_Cleaner = Some cleaner, par_ControllerName = ''cleaner''\<rparr> of
             Inl err \<Rightarrow>
               Inl (no_requeue,
                 Some (WrappedError (''unable to create profileScope scope for '' @ fmt_name k name) err))
           | Inr s \<Rightarrow> Inr (Fetched s)))"

fun reconcile_stage ::
  "CleanerReconciler \<Rightarrow> clock \<Rightarrow> 'w stage \<Rightarrow> 'w control \<Rightarrow> ('w progress \<times> 'w control) outcome" where
  "reconcile_stage r clk (Fetched s) st =
     (if cl_DeletionTimestamp (sc_Cleaner s) \<noteq> None
      then Ok (Inr (Removed s), st\<lparr>jobs := removeQueuedJobs s (jobs st)\<rparr>)
      else
        let s1 = removeOldFinalizer s;
            (err, cleaner, w) = addFinalizer (sc_client s1) (sc_Cleaner s1) CleanerFinalizer (api st);
            s2 = s1\<lparr>sc_Cleaner := cleaner\<rparr>
        in Ok (Inr (if err \<noteq> None then Closing no_requeue err s2 else Ready s2),
               control.api_update (\<lambda>_. w) st))"
| "reconcile_stage r clk (Removed s) st =
     (let (err, w) = removeReport s (api st)
      in Ok (Inr (Closing no_requeue err
               (if err = None \<and> util_ContainsFinalizer (sc_client s) (sc_Cleaner s) CleanerFinalizer
                then s\<lparr>sc_Cleaner := util_RemoveFinalizer (sc_client s) (sc_Cleaner s) CleanerFinalizer\<rparr>
                else s)),
             control.api_update (\<lambda>_. w) st))"
| "reconcile_stage r clk (Ready s) st =
     (let (result, m) = GetResult (cl_Name (sc_Cleaner s)) (jobs st)
      in Ok (Inr (Polled (report_result result s)), st\<lparr>jobs := m\<rparr>))"
| "reconcile_stage r clk (Polled s) st =
     bind_outcome (schedule s (JitterWindowInSeconds r) clk (jobs st)) (\<lambda>(res, s', m).
       Ok (Inr (case res of
                  Inl e \<Rightarrow> Closing no_requeue (Some e) (SetFailureMessage (Some (error_text e)) s')
                | Inr nextRun \<Rightarrow>
                    Closing \<lparr>RequeueAfter = time_Sub nextRun (clock_reconcile clk)\<rparr> None s'),
           st\<lparr>jobs := m\<rparr>))"
| "reconcile_stage r clk (Closing result err s) st =
     (let (res, st') = close_scope (result, err, s, st) in Ok (Inl res, st'))"

section \<open>The stages make up a reconciliation\<close>

fun finish_stages ::
  "nat \<Rightarrow> CleanerReconciler \<Rightarrow> clock \<Rightarrow> 'w progress \<Rightarrow> 'w control \<Rightarrow>
   ((ctrl_Result \<times> go_err) \<times> 'w control) option outcome" where
  "finish_stages n r clk (Inl res) st = Ok (Some (res, st))"
| "finish_stages 0 r clk (Inr g) st = Ok None"
| "finish_stages (Suc n) r clk (Inr g) st =
     bind_outcome (reconcile_stage r clk g st) (\<lambda>(p, st'). finish_stages n r clk p st')"

lemma finish_delete:
  "cl_DeletionTimestamp (sc_Cleaner s) \<noteq> None \<Longrightarrow>
   finish_stages 4 r clk (Inr (Fetched s)) st =
   (let (err, s', st') = reconcileDelete s st in Ok (Some (close_scope (no_requeue, err, s', st'))))"
  by (auto simp: eval_nat_numeral reconcileDelete_def Let_def split: prod.splits option.splits)

lemma finish_normal:
  assumes "cl_DeletionTimestamp (sc_Cleaner s) = None"
  shows "finish_stages 4 r clk (Inr (Fetched s)) st =
    bind_outcome (reconcileNormal r clk s st) (\<lambda>x. Ok (Some (close_scope x)))"
proof -
  obtain err c2 w where add: "addFinalizer (sc_client (removeOldFinalizer s)) (sc_Cleaner (removeOldFinalizer s))
      CleanerFinalizer (api st) = (err, c2, w)" by (metis prod_cases3)
  obtain result m where get: "GetResult (cl_Name c2) (jobs st) = (result, m)"
    by (cases "GetResult (cl_Name c2) (jobs st)")
  let ?s3 = "report_result result ((removeOldFinalizer s)\<lparr>sc_Cleaner := c2\<rparr>)"
  show ?thesis
  proof (cases err)
    case None
    show ?thesis
    proof (cases "schedule ?s3 (JitterWindowInSeconds r) clk m")
      case (Ok x)
      obtain res s4 m' where x: "x = (res, s4, m')" by (cases x)
      then show ?thesis
        using assms add get None Ok
        by (cases res) (simp_all add: eval_nat_numeral reconcileNormal_def Let_def split: prod.split)
    qed (use assms add get None in \<open>simp_all add: eval_nat_numeral reconcileNormal_def Let_def\<close>)
  next
    case (Some e)
    then show ?thesis
      using assms add by (simp add: eval_nat_numeral reconcileNormal_def Let_def split: prod.split)
  qed
qed

text \<open>
  Run without interruption the stages do what \<open>Reconcile\<close> does, on every path and with every
  error, and four of them are always enough.
\<close>

theorem stages_are_Reconcile:
  "finish_stages 4 r clk (reconcile_begin k name (api st)) st =
   bind_outcome (Reconcile k r clk name st) (\<lambda>x. Ok (Some x))"
proof (cases "k_GetCleaner k name (api st)")
  case (Inl err)
  then show ?thesis by (simp add: reconcile_begin_def Reconcile_def)
next
  case got: (Inr cleaner)
  show ?thesis
  proof (cases "NewCleanerScope
      \<lparr>par_Client = Some k, par_Cleaner = Some cleaner, par_ControllerName = ''cleaner''\<rparr>")
    case (Inl err)
    then show ?thesis using got by (simp add: reconcile_begin_def Reconcile_def)
  next
    case (Inr s)
    then have "sc_Cleaner s = cleaner" by (auto simp: NewCleanerScope_def split: option.splits)
    then show ?thesis
      using got Inr
      by (cases "cl_DeletionTimestamp cleaner = None")
        (simp_all add: reconcile_begin_def Reconcile_def finish_normal finish_delete Let_def
          bind_outcome_assoc
          del: finish_stages.simps split: prod.split outcome.split)
  qed
qed

end
