(* ===== verification/Controller.thy ===== *)
theory Controller
  imports Worker_Safety Run_Stages Reconciler_Stages
begin

text \<open>
  The running program: reconcilers, the pool of workers and the runs of the executor over one job
  manager and one outside state.  A step is a stage of a reconciliation, a worker that takes a
  request, a stage of the run of a worker, or a change of the outside state that is not the program's,
  so that reconciliations and runs interleave at every access to the manager, and between any two
  selectors, resources, notifications and files of a run.  The theory shows that
  the pool of the program makes steps of the pool of \<open>Worker_Pool\<close>, and how the error of a run gets
  from the worker to the status of its Cleaner.
\<close>

section \<open>The steps\<close>

text \<open>
  One slot for every reconciliation that may run at the same time, and the stage of each worker's run.
\<close>

record 'w controller =
  pool :: sys
  outside :: "'w exec"
  slots :: "(string \<times> 'w stage) option list"
  runs :: "nat \<Rightarrow> run_stage"

datatype 'w activity =
    Begins nat string
  | Advances nat clock
  | Takes nat
  | Works nat
  | Ends nat
  | Cancels nat
  | Elsewhere 'w

definition control_at :: "'w controller \<Rightarrow> 'w control" where
  "control_at c = \<lparr>jobs = mgr (pool c), api = world (outside c)\<rparr>"

definition busy :: "string \<Rightarrow> 'w controller \<Rightarrow> bool" where
  "busy name c \<longleftrightarrow> name \<in> fst ` set (keep_some id (slots c))"

fun slot_of :: "string \<Rightarrow> 'w progress \<Rightarrow> (string \<times> 'w stage) option" where
  "slot_of name (Inl _) = None"
| "slot_of name (Inr g) = Some (name, g)"

definition after_stage :: "nat \<Rightarrow> string \<Rightarrow> 'w progress \<Rightarrow> 'w control \<Rightarrow> 'w controller \<Rightarrow> 'w controller" where
  "after_stage j name p st c =
     c\<lparr>pool := (pool c)\<lparr>mgr := jobs st\<rparr>, outside := (outside c)\<lparr>world := api st\<rparr>,
       slots := (slots c)[j := slot_of name p]\<rparr>"

text \<open>
  The queue of the controller library hands a name to one reconciler at a time.  A step whose call
  panics is no step: the process is gone.  A run that returns stores its result in the same step.
\<close>

inductive program_step ::
  "'w kube \<Rightarrow> ('w, 'st, 't) deps \<Rightarrow> CleanerReconciler \<Rightarrow>
   'w controller \<Rightarrow> 'w activity \<Rightarrow> 'w controller \<Rightarrow> bool" for k d r where
  begins: "j < length (slots c) \<Longrightarrow> slots c ! j = None \<Longrightarrow> \<not> busy name c \<Longrightarrow>
    program_step k d r c (Begins j name)
      (c\<lparr>slots := (slots c)[j := slot_of name (reconcile_begin k name (world (outside c)))]\<rparr>)"
| advances: "j < length (slots c) \<Longrightarrow> slots c ! j = Some (name, g) \<Longrightarrow>
    reconcile_stage r clk g (control_at c) = Ok (p, st) \<Longrightarrow>
    program_step k d r c (Advances j clk) (after_stage j name p st c)"
| takes: "sys_step (pool c) (ETake i) p \<Longrightarrow> program_step k d r c (Takes i) (c\<lparr>pool := p\<rparr>)"
| works: "i < length (workers (pool c)) \<Longrightarrow> workers (pool c) ! i = Working key \<Longrightarrow>
    run_stage_step d key (runs c i) (outside c) = Ok (Inr g, out) \<Longrightarrow>
    program_step k d r c (Works i) (c\<lparr>outside := out, runs := (runs c)(i := g)\<rparr>)"
| ends: "i < length (workers (pool c)) \<Longrightarrow> workers (pool c) ! i = Working key \<Longrightarrow>
    run_stage_step d key (runs c i) (outside c) = Ok (Inl err, out) \<Longrightarrow>
    sys_step (pool c) (EFinish i err) p \<Longrightarrow>
    program_step k d r c (Ends i) (c\<lparr>pool := p, outside := out, runs := (runs c)(i := Looking)\<rparr>)"
| cancels: "sys_step (pool c) (ECancel i) p \<Longrightarrow> program_step k d r c (Cancels i) (c\<lparr>pool := p\<rparr>)"
| elsewhere: "program_step k d r c (Elsewhere w) (c\<lparr>outside := (outside c)\<lparr>world := w\<rparr>\<rparr>)"

inductive_cases program_worksE: "program_step k d r c (Works i) c'"
inductive_cases program_endsE: "program_step k d r c (Ends i) c'"
inductive_cases program_advancesE: "program_step k d r c (Advances j clk) c'"

text \<open>Paths of steps that satisfy a condition on the state and the step to come.\<close>

inductive program_path ::
  "'w kube \<Rightarrow> ('w, 'st, 't) deps \<Rightarrow> CleanerReconciler \<Rightarrow>
   ('w controller \<Rightarrow> 'w activity \<Rightarrow> bool) \<Rightarrow> 'w controller \<Rightarrow> 'w controller \<Rightarrow> bool"
  for k d r ok where
  here: "program_path k d r ok c c"
| further: "program_path k d r ok c c1 \<Longrightarrow> ok c1 e \<Longrightarrow> program_step k d r c1 e c2 \<Longrightarrow>
    program_path k d r ok c c2"

lemma program_path_invariant:
  assumes "program_path k d r ok c c'" and "P c"
    and "\<And>c e c'. P c \<Longrightarrow> ok c e \<Longrightarrow> program_step k d r c e c' \<Longrightarrow> P c'"
  shows "P c'"
  using assms(1,2) by induction (auto intro: assms(3))

section \<open>What a stage does to the manager\<close>

lemma schedule_manager:
  "schedule s jitter clk m = Ok (res, s', m') \<Longrightarrow> m' = m \<or> m' = Process (cl_Name (sc_Cleaner s)) m"
  by (auto simp: schedule_def Let_def split: sum.splits if_splits)

lemma report_result_name [simp]: "cl_Name (sc_Cleaner (report_result res s)) = cl_Name (sc_Cleaner s)"
  by (simp add: report_result_def)

fun stage_events :: "'w stage \<Rightarrow> event list set" where
  "stage_events (Fetched s) = {[], [ERemove (cl_Name (sc_Cleaner s))]}"
| "stage_events (Removed s) = {[]}"
| "stage_events (Ready s) = {[EGetResult (cl_Name (sc_Cleaner s))]}"
| "stage_events (Polled s) = {[], [EProcess (cl_Name (sc_Cleaner s))]}"
| "stage_events (Closing _ _ s) = {[]}"

text \<open>The stage that takes the jobs of a deleted Cleaner out of the manager.\<close>

fun removes :: "'w stage \<Rightarrow> bool" where
  "removes (Fetched s) \<longleftrightarrow> cl_DeletionTimestamp (sc_Cleaner s) \<noteq> None"
| "removes _ \<longleftrightarrow> False"

lemma reconcile_stage_manager:
  assumes "reconcile_stage r clk g (control_at c) = Ok (p, st)"
  shows "\<exists>es \<in> stage_events g. exec_trace es (pool c) = Some ((pool c)\<lparr>mgr := jobs st\<rparr>) \<and>
    (\<not> removes g \<longrightarrow> trace_ok no_remove es (pool c))"
proof (cases g)
  case (Fetched s)
  then show ?thesis
    using assms by (auto simp: control_at_def removeQueuedJobs_def Let_def split: if_splits prod.splits)
next
  case (Removed s)
  then show ?thesis using assms by (auto simp: control_at_def Let_def split: prod.splits)
next
  case (Ready s)
  then show ?thesis using assms by (auto simp: control_at_def Let_def split: prod.splits)
next
  case (Polled s)
  then show ?thesis using assms by (auto simp: control_at_def dest!: schedule_manager)
next
  case (Closing res err s)
  then show ?thesis using assms by (auto simp: control_at_def close_scope_def Let_def split: prod.splits)
qed

section \<open>The pool of the program\<close>

fun meets_no_deletion :: "'w controller \<Rightarrow> 'w activity \<Rightarrow> bool" where
  "meets_no_deletion c (Advances j _) =
     (case slots c ! j of None \<Rightarrow> True | Some (_, g) \<Rightarrow> \<not> removes g)"
| "meets_no_deletion c _ = True"

lemma program_step_pool:
  assumes "program_step k d r c e c'"
  shows "\<exists>es. exec_trace es (pool c) = Some (pool c') \<and>
    (meets_no_deletion c e \<longrightarrow> trace_ok no_remove es (pool c))"
  using assms
proof cases
  case (begins j name)
  then show ?thesis by (intro exI [of _ "[]"]) simp
next
  case (advances j name g clk p st)
  then show ?thesis
    using reconcile_stage_manager [OF advances(5)] by (auto simp: after_stage_def)
next
  case (takes i p)
  then show ?thesis by (intro exI [of _ "[ETake i]"]) (simp add: sys_step_exec split: option.split)
next
  case (works i key g out)
  then show ?thesis by (intro exI [of _ "[]"]) simp
next
  case (ends i key err out p)
  then show ?thesis by (intro exI [of _ "[EFinish i err]"]) (simp add: sys_step_exec split: option.split)
next
  case (cancels i p)
  then show ?thesis by (intro exI [of _ "[ECancel i]"]) (simp add: sys_step_exec split: option.split)
next
  case (elsewhere w)
  then show ?thesis by (intro exI [of _ "[]"]) simp
qed

lemma program_path_reach:
  assumes "program_path k d r meets_no_deletion c c'" and "reach no_remove n (pool c)"
  shows "reach no_remove n (pool c')"
proof (rule program_path_invariant [where P = "\<lambda>c. reach no_remove n (pool c)", OF assms])
  show "reach no_remove n (pool c2)"
    if "reach no_remove n (pool c1)" "meets_no_deletion c1 e" "program_step k d r c1 e c2" for c1 e c2
    using program_step_pool [OF that(3)] that(1,2) by (blast intro: reach_exec_trace)
qed

section \<open>The names in the slots\<close>

text \<open>What the API server and the finalizer helpers do to the name of an object: nothing.\<close>

definition kube_names :: "'w kube \<Rightarrow> bool" where
  "kube_names k \<longleftrightarrow>
     (\<forall>n w c. k_GetCleaner k n w = Inr c \<longrightarrow> cl_Name c = n) \<and>
     (\<forall>c w c' w'. k_UpdateCleaner k c w = (Inr c', w') \<longrightarrow> cl_Name c' = cl_Name c) \<and>
     (\<forall>c f. cl_Name (util_AddFinalizer k c f) = cl_Name c \<and>
            cl_Name (util_RemoveFinalizer k c f) = cl_Name c)"

lemma addFinalizer_name:
  "kube_names k \<Longrightarrow> addFinalizer k c f w = (err, c', w') \<Longrightarrow> cl_Name c' = cl_Name c"
  by (auto simp: addFinalizer_def kube_names_def Let_def split: if_splits prod.splits sum.splits) metis+

lemma removeOldFinalizer_name:
  "kube_names (sc_client s) \<Longrightarrow> cl_Name (sc_Cleaner (removeOldFinalizer s)) = cl_Name (sc_Cleaner s)"
  by (simp add: removeOldFinalizer_def kube_names_def)

text \<open>Every reconciliation works with its client on the Cleaner it was called for.\<close>

definition stage_named :: "'w kube \<Rightarrow> string \<Rightarrow> 'w stage \<Rightarrow> bool" where
  "stage_named k name g \<longleftrightarrow> sc_client (stage_scope g) = k \<and> cl_Name (sc_Cleaner (stage_scope g)) = name"

definition slots_named :: "'w kube \<Rightarrow> 'w controller \<Rightarrow> bool" where
  "slots_named k c \<longleftrightarrow> (\<forall>name g. Some (name, g) \<in> set (slots c) \<longrightarrow> stage_named k name g)"

lemma slots_namedD:
  "slots_named k c \<Longrightarrow> j < length (slots c) \<Longrightarrow> slots c ! j = Some (name, g) \<Longrightarrow> stage_named k name g"
  unfolding slots_named_def by (metis nth_mem)

lemma schedule_name:
  "schedule s jitter clk m = Ok (res, s', m') \<Longrightarrow>
   cl_Name (sc_Cleaner s') = cl_Name (sc_Cleaner s) \<and> sc_client s' = sc_client s"
  by (auto simp: schedule_def Let_def split: sum.splits if_splits)

lemma schedule_deletion:
  "schedule s jitter clk m = Ok (res, s', m') \<Longrightarrow>
   cl_DeletionTimestamp (sc_Cleaner s') = cl_DeletionTimestamp (sc_Cleaner s)"
  by (auto simp: schedule_def SetNextScheduleTime_def SetLastRunTime_def with_status_def Let_def
      split: sum.splits if_splits)

lemma reconcile_begin_named:
  "kube_names k \<Longrightarrow> reconcile_begin k name w = Inr g \<Longrightarrow> stage_named k name g"
  by (auto simp: reconcile_begin_def NewCleanerScope_def kube_names_def stage_named_def
      split: sum.splits option.splits)

lemma polled_stage:
  assumes "reconcile_stage r clk (Polled s) st = Ok (p, st')"
  shows "\<exists>result err s'. p = Inr (Closing result err s') \<and> sc_client s' = sc_client s \<and>
    cl_Name (sc_Cleaner s') = cl_Name (sc_Cleaner s) \<and>
    (err = None \<longrightarrow> FailureMessage (cl_Status (sc_Cleaner s')) = FailureMessage (cl_Status (sc_Cleaner s)))"
proof -
  obtain res s' m where sched: "schedule s (JitterWindowInSeconds r) clk (jobs st) = Ok (res, s', m)"
    and p: "p = Inr (case res of
        Inl e \<Rightarrow> Closing no_requeue (Some e) (SetFailureMessage (Some (error_text e)) s')
      | Inr nextRun \<Rightarrow> Closing \<lparr>RequeueAfter = time_Sub nextRun (clock_reconcile clk)\<rparr> None s')"
    using assms by auto
  show ?thesis
    using schedule_name [OF sched] schedule_failure_message [OF sched] p by (cases res) auto
qed

lemma reconcile_stage_named:
  assumes "kube_names k" and "stage_named k name g"
    and "reconcile_stage r clk g st = Ok (Inr g', st')"
  shows "stage_named k name g'"
proof (cases g)
  case (Fetched s)
  have "cl_Name c' = name" if "addFinalizer (sc_client (removeOldFinalizer s))
      (sc_Cleaner (removeOldFinalizer s)) CleanerFinalizer w = (e, c', w')" for c' e w w'
    using addFinalizer_name [OF _ that] removeOldFinalizer_name [of s] assms(1,2) Fetched
    by (simp add: stage_named_def removeOldFinalizer_def)
  then show ?thesis
    using assms Fetched
    by (auto simp: stage_named_def Let_def removeOldFinalizer_def split: if_splits prod.splits)
next
  case (Polled s)
  then show ?thesis
    using assms polled_stage [of r clk s st "Inr g'" st'] by (auto simp: stage_named_def)
qed (use assms in \<open>auto simp: stage_named_def kube_names_def report_result_def Let_def split: prod.splits\<close>)

lemma slots_named_step:
  assumes "kube_names k" and "slots_named k c" and "program_step k d r c e c'"
  shows "slots_named k c'"
  using assms(3)
proof cases
  case (begins j name)
  have "stage_named k n g" if "Some (n, g) = slot_of name (reconcile_begin k name (world (outside c)))" for n g
    using that reconcile_begin_named [OF assms(1)]
    by (cases "reconcile_begin k name (world (outside c))") auto
  then show ?thesis
    using assms(2) begins set_update_subset_insert [of "slots c"] unfolding slots_named_def by fastforce
next
  case (advances j name g clk p st)
  have "stage_named k name g" by (rule slots_namedD [OF assms(2) advances(3,4)])
  then have "stage_named k n h" if "Some (n, h) = slot_of name p" for n h
    using that reconcile_stage_named [OF assms(1)] advances(5) by (cases p) auto
  then show ?thesis
    using assms(2) advances set_update_subset_insert [of "slots c"]
    unfolding slots_named_def after_stage_def by fastforce
qed (use assms(2) in \<open>simp_all add: slots_named_def\<close>)

section \<open>A worker between its steps\<close>

text \<open>Whatever the others do, a worker with a run stays in its stage until it makes a step itself.\<close>

lemma worker_stays:
  assumes "program_step k d r c e c'" and "e \<noteq> Works i" and "e \<noteq> Ends i"
    and "i < length (workers (pool c))" and "workers (pool c) ! i = Working n"
  shows "i < length (workers (pool c')) \<and> workers (pool c') ! i = Working n \<and> runs c' i = runs c i"
  using assms(1)
proof cases
  case (takes j p)
  then have "j < length (workers (pool c))" "workers (pool c) ! j = AtSelect"
    by (auto simp: sys_step_exec split: if_splits)
  moreover from this have "j \<noteq> i" using assms(5) by auto
  ultimately show ?thesis
    using takes assms(4,5) by (auto simp: sys_step_exec split: prod.splits option.splits)
next
  case (ends j key err out p)
  then show ?thesis using assms by (auto simp: sys_step_exec split: if_splits)
next
  case (cancels j p)
  then have "j < length (workers (pool c))" "workers (pool c) ! j = AtSelect"
    by (auto simp: sys_step_exec split: if_splits)
  moreover from this have "j \<noteq> i" using assms(5) by auto
  ultimately show ?thesis using cancels assms(4,5) by (auto simp: sys_step_exec)
qed (use assms in \<open>auto simp: after_stage_def\<close>)

section \<open>The result of a run until it is read\<close>

text \<open>
  The steps that replace or drop the result of a Cleaner: a reconciliation of it asks for the result,
  requests the Cleaner again or removes its jobs, or a worker ends a run of it.
\<close>

fun touches_result :: "CleanerReconciler \<Rightarrow> string \<Rightarrow> 'w controller \<Rightarrow> 'w activity \<Rightarrow> bool" where
  "touches_result r key c (Advances j clk) \<longleftrightarrow>
     (case slots c ! j of
        None \<Rightarrow> False
      | Some (name, Ready s) \<Rightarrow> name = key
      | Some (name, Polled s) \<Rightarrow>
          name = key \<and> (case schedule s (JitterWindowInSeconds r) clk (mgr (pool c)) of
            Ok (_, _, m) \<Rightarrow> m \<noteq> mgr (pool c) | _ \<Rightarrow> False)
      | Some (name, g) \<Rightarrow> name = key \<and> removes g)"
| "touches_result r key c (Ends i) \<longleftrightarrow> workers (pool c) ! i = Working key"
| "touches_result r key c _ \<longleftrightarrow> False"

lemma stage_events_results:
  "es \<in> stage_events g \<Longrightarrow> cl_Name (sc_Cleaner (stage_scope g)) \<noteq> key \<Longrightarrow> exec_trace es s = Some t \<Longrightarrow>
   results (mgr t) key = results (mgr s) key"
  by (cases g) (auto simp: manager_fields)

lemma untouched_manager:
  assumes "slots c ! j = Some (key, g)" and "\<not> touches_result r key c (Advances j clk)"
    and "reconcile_stage r clk g (control_at c) = Ok (p, st)"
  shows "jobs st = mgr (pool c)"
proof (cases g)
  case (Fetched s)
  then have "cl_DeletionTimestamp (sc_Cleaner s) = None" using assms(1,2) by auto
  then show ?thesis
    using assms(3) Fetched by (auto simp: control_at_def Let_def split: prod.splits if_splits)
next
  case (Polled s)
  obtain x s' m where "schedule s (JitterWindowInSeconds r) clk (mgr (pool c)) = Ok (x, s', m)" "jobs st = m"
    using assms(3) Polled by (auto simp: control_at_def)
  then show ?thesis using assms(1,2) Polled by simp
qed (use assms in \<open>auto simp: control_at_def close_scope_def Let_def split: prod.splits\<close>)

lemma program_step_results:
  assumes "slots_named k c" and "program_step k d r c e c'" and "\<not> touches_result r key c e"
  shows "results (mgr (pool c')) key = results (mgr (pool c)) key"
  using assms(2)
proof cases
  case (advances j name g clk p st)
  have "results (jobs st) key = results (mgr (pool c)) key"
  proof (cases "name = key")
    case True
    then show ?thesis using untouched_manager advances assms(3) by metis
  next
    case False
    obtain es where "es \<in> stage_events g" "exec_trace es (pool c) = Some ((pool c)\<lparr>mgr := jobs st\<rparr>)"
      using reconcile_stage_manager [OF advances(5)] by blast
    moreover have "stage_named k name g" by (rule slots_namedD [OF assms(1) advances(3,4)])
    ultimately show ?thesis using False stage_events_results by (fastforce simp: stage_named_def)
  qed
  then show ?thesis using advances by (simp add: after_stage_def)
next
  case (takes i p)
  then show ?thesis
    by (auto simp: sys_step_exec takeRequest_Some_iff takeRequest_None_iff split: if_splits prod.splits option.splits)
next
  case (ends i key' err out p)
  then show ?thesis using assms(3) by (auto simp: sys_step_exec manager_fields)
next
  case (cancels i p)
  then show ?thesis by (auto simp: sys_step_exec split: if_splits)
qed simp_all

lemma program_path_results:
  assumes "program_path k d r (\<lambda>c e. \<not> touches_result r key c e) c c'" and "kube_names k" and "slots_named k c"
  shows "slots_named k c' \<and> results (mgr (pool c')) key = results (mgr (pool c)) key"
proof (rule program_path_invariant [OF assms(1)])
  show "slots_named k c2 \<and> results (mgr (pool c2)) key = results (mgr (pool c)) key"
    if "slots_named k c1 \<and> results (mgr (pool c1)) key = results (mgr (pool c)) key"
      "\<not> touches_result r key c1 e" "program_step k d r c1 e c2" for c1 e c2
    using that slots_named_step [OF assms(2) _ that(3)] program_step_results [OF _ that(3)] by simp
qed (use assms(3) in simp)

section \<open>How the result reaches the status\<close>

text \<open>
  What patching leaves in the API server, for a Cleaner that is not marked for deletion: the text of the
  failure, while times lose their fractions of a second.
\<close>

definition patch_stores_status :: "'w kube \<Rightarrow> bool" where
  "patch_stores_status k \<longleftrightarrow>
     (\<forall>before c w w'. patch_Patch k before c w = (None, w') \<and> cl_DeletionTimestamp c = None \<longrightarrow>
        (\<exists>c'. k_GetCleaner k (cl_Name c) w' = Inr c' \<and>
          FailureMessage (cl_Status c') = FailureMessage (cl_Status c)))"

lemma ready_stage_ok: "\<exists>p st'. reconcile_stage r clk (Ready s) st = Ok (p, st')"
  by (simp add: case_prod_beta)

lemma ready_stage_reports:
  assumes "reconcile_stage r clk (Ready s) st = Ok (p, st')"
    and "results (jobs st) (cl_Name (sc_Cleaner s)) = Some err"
  shows "\<exists>s'. p = Inr (Polled s') \<and>
    FailureMessage (cl_Status (sc_Cleaner s')) = map_option error_text err"
  using assms
  by (cases err) (auto simp: GetResult_def getRequestStatus_def report_result_def)

text \<open>A reconciliation that has read the result, until it closes its scope.\<close>

fun message_of :: "'w stage \<Rightarrow> string option \<Rightarrow> bool" where
  "message_of (Polled s) m = (FailureMessage (cl_Status (sc_Cleaner s)) = m)"
| "message_of (Closing _ err s) m = (err = None \<longrightarrow> FailureMessage (cl_Status (sc_Cleaner s)) = m)"
| "message_of _ m = False"

definition carries :: "nat \<Rightarrow> string \<Rightarrow> string option \<Rightarrow> 'w controller \<Rightarrow> bool" where
  "carries j key m c \<longleftrightarrow>
     j < length (slots c) \<and> (\<exists>g. slots c ! j = Some (key, g) \<and> message_of g m)"

fun closes :: "nat \<Rightarrow> 'w controller \<Rightarrow> 'w activity \<Rightarrow> bool" where
  "closes j c (Advances i _) = (i = j \<and> (\<exists>name res err s. slots c ! j = Some (name, Closing res err s)))"
| "closes j c _ = False"

lemma carries_step:
  assumes "carries j key m c" and "\<not> closes j c e" and "program_step k d r c e c'"
  shows "carries j key m c'"
  using assms(3)
proof cases
  case (begins i name)
  then have "i \<noteq> j" using assms(1) by (auto simp: carries_def)
  then show ?thesis using assms(1) begins by (auto simp: carries_def)
next
  case (advances i name g clk p st)
  show ?thesis
  proof (cases "i = j")
    case True
    then have here: "name = key" "message_of g m" using assms(1) advances by (auto simp: carries_def)
    moreover have "\<exists>g'. p = Inr g' \<and> message_of g' m"
    proof (cases g)
      case (Polled s)
      then show ?thesis using polled_stage [of r clk s "control_at c" p st] advances(5) here by auto
    qed (use here advances assms(2) True in auto)
    ultimately show ?thesis using advances True by (auto simp: carries_def after_stage_def)
  next
    case False
    then show ?thesis using assms(1) advances by (auto simp: carries_def after_stage_def)
  qed
qed (use assms(1) in \<open>simp_all add: carries_def\<close>)

lemma close_stores_message:
  assumes "patch_stores_status k" and "stage_named k key (Closing res None s)"
    and "reconcile_stage r clk (Closing res None s) st = Ok (Inl (result, None), st')"
    and "cl_DeletionTimestamp (sc_Cleaner s) = None"
  shows "\<exists>cleaner. k_GetCleaner k key (api st') = Inr cleaner \<and>
    FailureMessage (cl_Status cleaner) = FailureMessage (cl_Status (sc_Cleaner s))"
proof -
  have "patch_Patch k (sc_patchHelper s) (sc_Cleaner s) (api st) = (None, api st')"
    using assms(2,3)
    by (auto simp: stage_named_def close_scope_def Close_def PatchObject_def Let_def split: prod.splits if_splits)
  then show ?thesis using assms(1,2,4) unfolding patch_stores_status_def stage_named_def by fastforce
qed

section \<open>A program to run\<close>

lemma ref_kube_names: "kube_names ref_kube"
  by (auto simp: kube_names_def ref_kube_def split: option.splits if_splits)

lemma ref_kube_patch: "patch_stores_status ref_kube"
  by (auto simp: patch_stores_status_def ref_kube_def)

lemma polled_late:
  "\<exists>s4. schedule (report_result result (ref_scope (finalized late_cleaner))) 15 (at_time (30 * second)) m =
     Ok (Inr (60 * second), s4, m) \<and> sc_client s4 = ref_kube \<and> cl_DeletionTimestamp (sc_Cleaner s4) = None"
proof -
  let ?s = "ref_scope (finalized late_cleaner)"
  obtain f where "cl_Status (sc_Cleaner (report_result result ?s)) =
      \<lparr>NextScheduleTime = Some (600 * second), LastRunTime = None, FailureMessage = f\<rparr>"
    by (cases "Status result = Unavailable") (auto simp: report_result_def ref_scope_def)
  then have "\<exists>s4. schedule (report_result result ?s) 15 (at_time (30 * second)) m = Ok (Inr (60 * second), s4, m)"
    by (intro schedule_late)
      (auto simp: report_result_def SetFailureMessage_def with_status_def ref_scope_def)
  then obtain s4 where sched: "schedule (report_result result ?s) 15 (at_time (30 * second)) m =
      Ok (Inr (60 * second), s4, m)" by blast
  have "cl_DeletionTimestamp (sc_Cleaner (report_result result ?s)) = None"
    by (simp add: report_result_def SetFailureMessage_def with_status_def ref_scope_def finalized_def late_cleaner_def)
  with sched show ?thesis
    using schedule_name [OF sched] schedule_deletion [OF sched] by (auto simp: report_result_def ref_scope_def)
qed

lemma ref_close:
  "sc_client s = ref_kube \<Longrightarrow>
   \<exists>st'. reconcile_stage r clk (Closing res None s) st = Ok (Inl (res, None), st')"
  by (simp add: close_scope_def Close_def PatchObject_def) (simp add: ref_kube_def)

definition flaky_deps :: "(cluster_state, unit, ref_table) deps" where
  "flaky_deps =
     \<lparr>d_cluster = ref_cluster, d_vm = example_vm, d_notifier = ref_notifier,
      d_disk = \<lparr>fs_statNotExist = (\<lambda>st p. None), fs_mkdirAll = (\<lambda>p st. (None, st)),
        fs_openAppend = (\<lambda>p st. (None, st)),
        fs_writeFile = (\<lambda>p c st. (None, st\<lparr>nd_files := (nd_files st)(p \<mapsto> c)\<rparr>)),
        yaml_Marshal = (\<lambda>m. Inr ''yaml''), meta_Accessor = (\<lambda>_. None),
        u_SetResourceVersion = (\<lambda>v u. u\<lparr>u_resourceVersion := v\<rparr>),
        u_SetGroupVersionKind = (\<lambda>gvk u. u\<lparr>u_kind := gvk_Kind gvk\<rparr>)\<rparr>,
      d_getCleaner = (\<lambda>n w. Inl (PlainError ''timeout'')), d_now = (\<lambda>_. ''noon''), d_zeroTime = 0\<rparr>"

definition busy_program :: "cluster_state controller" where
  "busy_program =
     \<lparr>pool = \<lparr>mgr = startWorkloadWorkers\<lparr>inProgress := [''c1'']\<rparr>, workers = [Working ''c1'']\<rparr>,
      outside = \<lparr>world = empty_state\<lparr>cs_cleaner := Some (finalized late_cleaner)\<rparr>,
        counters = zero_metrics\<rparr>,
      slots = [Some (''c1'', Ready (ref_scope (finalized late_cleaner)))], runs = (\<lambda>_. Looking)\<rparr>"

lemma flaky_run: "run_stage_step flaky_deps n Looking s = Ok (Inl (Some (PlainError ''timeout'')), s)"
  by (simp add: getCleanerInstance_def flaky_deps_def)

lemma ready_to_closing:
  assumes "slots c = [Some (''c1'', Ready (ref_scope (finalized late_cleaner)))]"
  shows "\<exists>c3 c4 res s4.
    program_step k d ref_reconciler c (Advances 0 (at_time (30 * second))) c3 \<and>
    program_step k d ref_reconciler c3 (Advances 0 (at_time (30 * second))) c4 \<and>
    \<not> closes 0 c3 (Advances 0 (at_time (30 * second))) \<and>
    slots c4 ! 0 = Some (''c1'', Closing res None s4) \<and> sc_client s4 = ref_kube \<and>
    cl_DeletionTimestamp (sc_Cleaner s4) = None"
proof -
  let ?s = "ref_scope (finalized late_cleaner)" and ?t = "at_time (30 * second)"
  obtain result m where "GetResult (cl_Name (sc_Cleaner ?s)) (jobs (control_at c)) = (result, m)"
    by (cases "GetResult (cl_Name (sc_Cleaner ?s)) (jobs (control_at c))")
  then have stage: "reconcile_stage ref_reconciler ?t (Ready ?s) (control_at c) =
      Ok (Inr (Polled (report_result result ?s)), (control_at c)\<lparr>jobs := m\<rparr>)" by simp
  obtain c3 where step3: "program_step k d ref_reconciler c (Advances 0 ?t) c3"
    and slots3: "slots c3 = [Some (''c1'', Polled (report_result result ?s))]"
    using program_step.advances [OF _ _ stage, of 0 "''c1''" k d] assms by (auto simp: after_stage_def)
  obtain s4 where sched: "schedule (report_result result ?s) 15 ?t (jobs (control_at c3)) =
      Ok (Inr (60 * second), s4, jobs (control_at c3))" and client: "sc_client s4 = ref_kube"
    "cl_DeletionTimestamp (sc_Cleaner s4) = None"
    using polled_late by blast
  obtain res where stage: "reconcile_stage ref_reconciler ?t (Polled (report_result result ?s)) (control_at c3) =
      Ok (Inr (Closing res None s4), control_at c3)"
    using sched by (simp add: ref_reconciler_def)
  obtain c4 where "program_step k d ref_reconciler c3 (Advances 0 ?t) c4"
    "slots c4 = [Some (''c1'', Closing res None s4)]"
    using program_step.advances [OF _ _ stage, of 0 "''c1''" k d] slots3 by (auto simp: after_stage_def)
  then show ?thesis using step3 slots3 client by (intro exI conjI) auto
qed

text \<open>A reconciliation that begins, up to the stage that asks for the result.\<close>

lemma late_cleaner_scope:
  "reconcile_begin ref_kube ''c1'' w = Inr (Fetched (ref_scope (finalized late_cleaner)))"
  "reconcile_stage r clk (Fetched (ref_scope (finalized late_cleaner))) st =
     Ok (Inr (Ready (ref_scope (finalized late_cleaner))), st)"
  if "cs_cleaner w = Some (finalized late_cleaner)"
proof -
  let ?s = "ref_scope (finalized late_cleaner)"
  have "CleanerFinalizer \<noteq> oldFinalizer" by (simp add: CleanerFinalizer_def oldFinalizer_def)
  then have fin: "\<not> util_ContainsFinalizer ref_kube (finalized late_cleaner) oldFinalizer"
    "util_ContainsFinalizer ref_kube (finalized late_cleaner) CleanerFinalizer"
    by (simp_all add: finalized_def ref_kube_def)
  have name: "cl_Name (finalized late_cleaner) = ''c1''" "cl_DeletionTimestamp (finalized late_cleaner) = None"
    by (simp_all add: finalized_def late_cleaner_def)
  have get: "k_GetCleaner ref_kube ''c1'' w = Inr (finalized late_cleaner)"
    using that name(1) by (simp add: ref_kube_def)
  have helper: "patch_NewHelper ref_kube (finalized late_cleaner) = None" by (simp add: ref_kube_def)
  show "reconcile_begin ref_kube ''c1'' w = Inr (Fetched ?s)"
    by (simp add: reconcile_begin_def get NewCleanerScope_def helper ref_scope_def)
  have "removeOldFinalizer ?s = ?s" "sc_Cleaner ?s = finalized late_cleaner" "sc_client ?s = ref_kube"
    using fin by (simp_all add: removeOldFinalizer_def ref_scope_def)
  then show "reconcile_stage r clk (Fetched ?s) st = Ok (Inr (Ready ?s), st)"
    using name fin by (simp add: addFinalizer_def)
qed

lemma begin_to_ready:
  assumes "slots c = [None]" and "cs_cleaner (world (outside c)) = Some (finalized late_cleaner)"
    and "ok c (Begins 0 ''c1'')" and "\<And>c s. slots c = [Some (''c1'', Fetched s)] \<Longrightarrow>
      cl_DeletionTimestamp (sc_Cleaner s) = None \<Longrightarrow> ok c (Advances 0 clk)"
  shows "\<exists>c'. program_path ref_kube d r ok c c' \<and>
    slots c' = [Some (''c1'', Ready (ref_scope (finalized late_cleaner)))]"
proof -
  let ?s = "ref_scope (finalized late_cleaner)"
  note scope = late_cleaner_scope [OF assms(2)]
  let ?c1 = "c\<lparr>slots := (slots c)[0 := Some (''c1'', Fetched ?s)]\<rparr>"
  have "\<not> busy ''c1'' c" using assms(1) by (simp add: busy_def)
  then have begins: "program_step ref_kube d r c (Begins 0 ''c1'') ?c1"
    using program_step.begins [of 0 c "''c1''" ref_kube d r] assms(1) scope(1) by simp
  have slots1: "slots ?c1 = [Some (''c1'', Fetched ?s)]" using assms(1) by simp
  have advances: "program_step ref_kube d r ?c1 (Advances 0 clk)
      (after_stage 0 ''c1'' (Inr (Ready ?s)) (control_at ?c1) ?c1)"
    by (rule program_step.advances [OF _ _ scope(2)]) (simp_all add: assms(1))
  have "cl_DeletionTimestamp (sc_Cleaner ?s) = None" by (simp add: ref_scope_def finalized_def late_cleaner_def)
  then have "ok ?c1 (Advances 0 clk)" using assms(4) slots1 by blast
  then have path: "program_path ref_kube d r ok c (after_stage 0 ''c1'' (Inr (Ready ?s)) (control_at ?c1) ?c1)"
    by (rule program_path.further [OF program_path.further [where c = c and ok = ok, OF program_path.here assms(3) begins] _ advances])
  have "slots (after_stage 0 ''c1'' (Inr (Ready ?s)) (control_at ?c1) ?c1) = [Some (''c1'', Ready ?s)]"
    by (simp add: after_stage_def assms(1))
  with path show ?thesis by blast
qed

end
