(* ===== verification/Run_Safety.thy ===== *)
theory Run_Safety
  imports Controller Executor_Properties
begin

text \<open>
  What interleaved runs do to the resources of the cluster: every resource that a step of the program
  takes out was selected, at some moment, by a selector of the Cleaner in whose run it is taken out;
  but it need not be selected any more at that moment.
\<close>

section \<open>What a run has seen\<close>

text \<open>
  The Cleaner a run works on was looked up in one of the states \<open>W\<close>, and a resource was selected in
  one of them.
\<close>

definition looked_up :: "('w, 'st, 't) deps \<Rightarrow> 'w set \<Rightarrow> string \<Rightarrow> Cleaner \<Rightarrow> bool" where
  "looked_up d W n cleaner \<longleftrightarrow> (\<exists>w \<in> W. getCleanerInstance d n w = (cleaner, None))"

definition selected_once :: "('w, 'st, 't) deps \<Rightarrow> 'w set \<Rightarrow> Cleaner \<Rightarrow> ResourceResult \<Rightarrow> bool" where
  "selected_once d W cleaner r \<longleftrightarrow>
     (\<exists>w \<in> W. \<exists>sr \<in> set (ResourceSelectors (spec_ResourcePolicySet (cl_Spec cleaner))). \<exists>rs.
        getMatchingResources (d_cluster d) (d_vm d) w sr = Ok rs \<and> r \<in> set rs)"

lemma selected_onceI:
  "getMatchingResources (d_cluster d) (d_vm d) w sr = Ok rs \<Longrightarrow> r \<in> set rs \<Longrightarrow> w \<in> W \<Longrightarrow>
   sr \<in> set (ResourceSelectors (spec_ResourcePolicySet (cl_Spec cleaner))) \<Longrightarrow> selected_once d W cleaner r"
  unfolding selected_once_def by blast

text \<open>
  What a run acts on is what its selectors selected, or what its aggregated selection made of that: a
  script of the user's, which may return any object it likes.
\<close>

definition chosen :: "('w, 'st, 't) deps \<Rightarrow> 'w set \<Rightarrow> Cleaner \<Rightarrow> ResourceResult \<Rightarrow> bool" where
  "chosen d W cleaner r \<longleftrightarrow>
     (let script = AggregatedSelection (spec_ResourcePolicySet (cl_Spec cleaner)) in
      if script = [] then selected_once d W cleaner r
      else \<exists>acc rs. (\<forall>a \<in> set acc. selected_once d W cleaner a) \<and>
             aggregatedSelection (d_vm d) script acc = Ok rs \<and> r \<in> set rs)"

lemma chosenI:
  assumes "aggregate d cleaner acc = Ok rs" and "\<forall>a \<in> set acc. selected_once d W cleaner a" and "r \<in> set rs"
  shows "chosen d W cleaner r"
proof (cases "AggregatedSelection (spec_ResourcePolicySet (cl_Spec cleaner)) = []")
  case True
  then show ?thesis using assms by (simp add: aggregate_def chosen_def)
next
  case False
  then have "aggregatedSelection (d_vm d) (AggregatedSelection (spec_ResourcePolicySet (cl_Spec cleaner))) acc = Ok rs"
    using assms(1) by (simp add: aggregate_def)
  then show ?thesis using assms(2,3) False unfolding chosen_def Let_def by (metis (full_types))
qed

fun stage_justified :: "('w, 'st, 't) deps \<Rightarrow> 'w set \<Rightarrow> string \<Rightarrow> run_stage \<Rightarrow> bool" where
  "stage_justified d W n (Selecting cleaner srs acc) \<longleftrightarrow>
     looked_up d W n cleaner \<and>
     set srs \<subseteq> set (ResourceSelectors (spec_ResourcePolicySet (cl_Spec cleaner))) \<and>
     (\<forall>r \<in> set acc. selected_once d W cleaner r)"
| "stage_justified d W n (Acting cleaner rs ps es) \<longleftrightarrow>
     looked_up d W n cleaner \<and> (\<forall>r \<in> set rs. chosen d W cleaner r)"
| "stage_justified d W n _ \<longleftrightarrow> True"

lemma run_stage_step_justified:
  assumes "run_stage_step d n g s = Ok (Inr g', s')" and "stage_justified d W n g" and "world s \<in> W"
  shows "stage_justified d W n g'"
  using assms(1)
proof (cases rule: run_stage_step.cases [of "(d, n, g, s)"])
  case (1 d' n' s1)
  then show ?thesis using assms by (auto simp: looked_up_def split: prod.splits option.splits)
next
  case (2 d' n' cleaner sr srs acc s1)
  then show ?thesis using assms by (auto intro: selected_onceI split: outcome.splits)
next
  case (3 d' n' cleaner acc s1)
  then obtain rs where "aggregate d cleaner acc = Ok rs" "g' = Acting cleaner rs [] []"
    using assms(1) by (auto simp: aggregate_def split: outcome.splits)
  then show ?thesis using assms(2) 3 by (auto intro: chosenI)
next
  case (4 d' n' cleaner r rs ps es s1)
  then show ?thesis using assms by auto
next
  case (6 d' n' cleaner rep nt nts ps err s1)
  then show ?thesis using assms by (auto split: option.splits prod.splits sum.splits)
next
  case (7 d' n' cleaner rep ps err s1)
  then show ?thesis using assms by (auto split: sum.splits if_splits)
next
  case (8 d' n' folder r rs err s1)
  then show ?thesis using assms by auto
qed (use assms in auto)

section \<open>What a run takes out\<close>

lemma run_stage_keeps:
  assumes "others_keep d live" and "run_stage_step d n g s = Ok (p, s')"
    and "\<And>cleaner r rs ps es. g \<noteq> Acting cleaner (r # rs) ps es"
  shows "live (world s') = live (world s)"
  using assms(2)
proof (cases rule: run_stage_step.cases [of "(d, n, g, s)"])
  case (1 d' n' s1)
  then show ?thesis using assms by (auto split: prod.splits option.splits)
next
  case (2 d' n' cleaner sr srs acc s1)
  then show ?thesis using assms by (auto split: outcome.splits)
next
  case (3 d' n' cleaner acc s1)
  then show ?thesis using assms by (auto split: outcome.splits)
next
  case (6 d' n' cleaner rep nt nts ps err s1)
  then obtain send where send: "deliver (d_notifier d) cleaner ps rep (notification_message cleaner) nt = Some send"
    and s': "world s' = snd (send (world s))"
    using assms by (auto split: option.splits prod.splits sum.splits)
  then show ?thesis using deliver_keeps [OF assms(1) send] by (simp add: act_keeps_def)
next
  case (7 d' n' cleaner rep ps err s1)
  then show ?thesis using assms by (auto split: sum.splits if_splits)
next
  case (8 d' n' folder r rs err s1)
  then show ?thesis using assms dumpObject_keeps [OF assms(1)] by fastforce
qed (use assms in auto)

text \<open>The step of the action takes out a resource only when the action is to delete, and then that resource.\<close>

lemma act_step_removes:
  assumes "delete_removes (d_cluster d) live" and "updates_remove_nothing (d_cluster d) live"
    and "act_step d n cleaner r s = Ok (a, s')" and "x \<in> live (world s)" and "x \<notin> live (world s')"
  shows "spec_Action (cl_Spec cleaner) = ActionDelete \<and> res_id r = x"
proof (cases "spec_Action (cl_Spec cleaner)")
  case ActionDelete
  then have del: "delete_step (d_cluster d) n (spec_DeleteOptions (cl_Spec cleaner)) r s = Ok (a, s')"
    using assms(3) by (simp add: act_step_def)
  then have "x \<in> res_id ` set (done_of a)" using delete_step_live(1) [OF assms(1) del] assms(4,5) by blast
  then show ?thesis using delete_step_counts(3) [OF del] ActionDelete by auto
next
  case ActionTransform
  then have "update_step (d_cluster d) (d_vm d) n (spec_Transform (cl_Spec cleaner)) r s = Ok (a, s')"
    using assms(3) by (simp add: act_step_def)
  from update_step_keeps [OF assms(2) this] show ?thesis using assms(4,5) by blast
qed (use assms in \<open>auto simp: act_step_def scan_step_def\<close>)

section \<open>The program\<close>

text \<open>What the reconcilers write is Cleaners and Reports, and leaves the resources alone.\<close>

definition kube_keeps :: "'w kube \<Rightarrow> ('w \<Rightarrow> 'v) \<Rightarrow> bool" where
  "kube_keeps k v \<longleftrightarrow>
     (\<forall>c w. v (snd (k_UpdateCleaner k c w)) = v w) \<and>
     (\<forall>r w. v (snd (k_DeleteReport k r w)) = v w) \<and>
     (\<forall>b c w. v (snd (patch_Patch k b c w)) = v w)"

lemma kube_keepsD:
  "kube_keeps k v \<Longrightarrow> k_UpdateCleaner k c w = (r, w') \<Longrightarrow> v w' = v w"
  "kube_keeps k v \<Longrightarrow> k_DeleteReport k rep w = (e, w') \<Longrightarrow> v w' = v w"
  "kube_keeps k v \<Longrightarrow> patch_Patch k b c w = (e, w') \<Longrightarrow> v w' = v w"
  unfolding kube_keeps_def by (metis snd_conv)+

lemma addFinalizer_keeps: "kube_keeps k v \<Longrightarrow> addFinalizer k c f w = (err, c', w') \<Longrightarrow> v w' = v w"
  by (auto simp: addFinalizer_def Let_def dest: kube_keepsD split: if_splits prod.splits sum.splits)

lemma reconcile_stage_keeps:
  assumes "kube_keeps k v" and "stage_named k name g" and "reconcile_stage r clk g st = Ok (p, st')"
  shows "v (api st') = v (api st)"
proof (cases g)
  case (Fetched s)
  have "sc_client (removeOldFinalizer s) = k"
    using assms(2) Fetched by (simp add: stage_named_def removeOldFinalizer_def)
  then show ?thesis
    using assms Fetched addFinalizer_keeps [OF assms(1)] by (fastforce simp: Let_def split: if_splits prod.splits)
next
  case (Removed s)
  then show ?thesis
    using assms
    by (auto simp: stage_named_def removeReport_def Let_def dest: kube_keepsD
        split: prod.splits sum.splits option.splits if_splits)
next
  case (Closing res err s)
  then show ?thesis
    using assms
    by (auto simp: stage_named_def close_scope_def Close_def PatchObject_def Let_def dest: kube_keepsD
        split: prod.splits)
qed (use assms in \<open>auto simp: Let_def split: prod.splits\<close>)

fun worker_justified :: "('w, 'st, 't) deps \<Rightarrow> 'w set \<Rightarrow> worker \<Rightarrow> run_stage \<Rightarrow> bool" where
  "worker_justified d W (Working n) g \<longleftrightarrow> stage_justified d W n g"
| "worker_justified d W _ g \<longleftrightarrow> g = Looking"

definition runs_justified :: "('w, 'st, 't) deps \<Rightarrow> 'w set \<Rightarrow> 'w controller \<Rightarrow> bool" where
  "runs_justified d W c \<longleftrightarrow>
     (\<forall>i < length (workers (pool c)). worker_justified d W (workers (pool c) ! i) (runs c i))"

lemma looking_justified: "worker_justified d W wk Looking"
  by (cases wk) simp_all

lemma runs_justified_step:
  assumes "runs_justified d W c" and "world (outside c) \<in> W" and "program_step k d r c e c'"
  shows "runs_justified d W c'"
  using assms(3)
proof cases
  case (takes i p)
  then have "worker_justified d W (workers p ! i) (runs c i)"
    using assms(1) by (auto simp: runs_justified_def sys_step_exec split: if_splits prod.splits option.splits)
  then show ?thesis
    using assms(1) takes
    by (auto simp: runs_justified_def sys_step_exec nth_list_update split: if_splits prod.splits option.splits)
next
  case (works i key g out)
  have "worker_justified d W (Working key) (runs c i)"
    using assms(1) works unfolding runs_justified_def by metis
  then have "stage_justified d W key g"
    using run_stage_step_justified [OF works(5) _ assms(2)] by simp
  then show ?thesis using assms(1) works by (simp add: runs_justified_def)
next
  case (ends i key err out p)
  then show ?thesis
    using assms(1)
    by (auto simp: runs_justified_def sys_step_exec nth_list_update looking_justified split: if_splits)
next
  case (cancels i p)
  then have "runs c i = Looking" using assms(1) by (auto simp: runs_justified_def sys_step_exec split: if_splits)
  then show ?thesis
    using assms(1) cancels
    by (auto simp: runs_justified_def sys_step_exec nth_list_update split: if_splits)
qed (use assms(1) in \<open>simp_all add: runs_justified_def after_stage_def\<close>)

text \<open>The program when it starts: idle workers, no reconciliation, and counters of no events.\<close>

definition started :: "nat \<Rightarrow> nat \<Rightarrow> 'w \<Rightarrow> 'w controller" where
  "started numOfWorker concurrentReconciles w =
     \<lparr>pool = init_sys numOfWorker, outside = \<lparr>world = w, counters = zero_metrics\<rparr>,
      slots = replicate concurrentReconciles None, runs = (\<lambda>_. Looking)\<rparr>"

lemma started_idle:
  "slots_named k (started n j w)" "\<forall>i. runs (started n j w) i = Looking"
  "pool (started n j w) = init_sys n"
  by (auto simp: started_def slots_named_def in_set_replicate)

lemma program_step_removes:
  assumes "kube_keeps k live" and "others_keep d live" and "slots_named k c"
    and "program_step k d r c e c'" and "\<forall>w. e \<noteq> Elsewhere w"
    and "live (world (outside c')) \<noteq> live (world (outside c))"
  shows "\<exists>i n cleaner res rs ps es a out. e = Works i \<and> i < length (workers (pool c)) \<and>
    workers (pool c) ! i = Working n \<and> runs c i = Acting cleaner (res # rs) ps es \<and>
    act_step d n cleaner res (outside c) = Ok (a, out) \<and> outside c' = out"
  using assms(4)
proof cases
  case (advances j name g clk p st)
  have "live (api st) = live (api (control_at c))"
    by (rule reconcile_stage_keeps [OF assms(1) slots_namedD [OF assms(3) advances(3,4)] advances(5)])
  then show ?thesis using assms(6) advances by (simp add: after_stage_def control_at_def)
next
  case (works i key g out)
  have "\<exists>cleaner res rs ps es. runs c i = Acting cleaner (res # rs) ps es"
  proof (rule ccontr)
    assume "\<not> ?thesis"
    then have "live (world out) = live (world (outside c))" by (intro run_stage_keeps [OF assms(2) works(5)]) blast
    then show False using assms(6) works by simp
  qed
  then obtain cleaner res rs ps es where acting: "runs c i = Acting cleaner (res # rs) ps es" by blast
  then show ?thesis using works by auto
next
  case (ends i key err out p)
  have "runs c i \<noteq> Acting cleaner (res # rs) ps es" for cleaner res rs ps es
    using ends(5) by auto
  then show ?thesis using run_stage_keeps [OF assms(2) ends(5)] assms(6) ends by simp
qed (use assms(5,6) in auto)

text \<open>
  C2. Whatever the reconcilers and the runs do and however their steps interleave with each other and
  with changes from outside, a resource that a step of the program takes out of the cluster is taken
  out by the delete call for that resource, in the run of a Cleaner whose action is to delete and that
  was looked up in a state the program went through; and the resource was matched by a selector of that
  Cleaner in such a state or, when the Cleaner has an aggregated selection, returned by this script for
  resources matched so (the script itself may return any object).
\<close>

theorem removal_traces_to_selector:
  assumes "kube_names k" and "kube_keeps k live" and "others_keep d live"
    and "delete_removes (d_cluster d) live" and "updates_remove_nothing (d_cluster d) live"
    and "slots_named k c0" and "\<forall>i. runs c0 i = Looking"
    and "program_path k d r (\<lambda>c e. world (outside c) \<in> W) c0 c" and "world (outside c) \<in> W"
    and "program_step k d r c e c'" and "\<forall>w. e \<noteq> Elsewhere w"
    and "x \<in> live (world (outside c))" and "x \<notin> live (world (outside c'))"
  shows "\<exists>i n cleaner res rs ps es. e = Works i \<and> workers (pool c) ! i = Working n \<and>
    runs c i = Acting cleaner (res # rs) ps es \<and> looked_up d W n cleaner \<and>
    spec_Action (cl_Spec cleaner) = ActionDelete \<and> res_id res = x \<and>
    (let script = AggregatedSelection (spec_ResourcePolicySet (cl_Spec cleaner)) in
     if script = [] then selected_once d W cleaner res
     else \<exists>acc sel. (\<forall>a \<in> set acc. selected_once d W cleaner a) \<and>
            aggregatedSelection (d_vm d) script acc = Ok sel \<and> res \<in> set sel)"
proof -
  have "slots_named k c \<and> runs_justified d W c"
  proof (rule program_path_invariant [OF assms(8)])
    show "slots_named k c0 \<and> runs_justified d W c0"
      using assms(6,7) by (simp add: runs_justified_def looking_justified)
    show "slots_named k c2 \<and> runs_justified d W c2"
      if "slots_named k c1 \<and> runs_justified d W c1" "world (outside c1) \<in> W"
        "program_step k d r c1 e1 c2" for c1 e1 c2
      using that slots_named_step [OF assms(1)] runs_justified_step by blast
  qed
  then have named: "slots_named k c" and just: "runs_justified d W c" by blast+
  have "live (world (outside c')) \<noteq> live (world (outside c))" using assms(12,13) by blast
  from program_step_removes [OF assms(2,3) named assms(10,11) this]
  obtain i n cleaner res rs ps es a out where
    at: "e = Works i" "i < length (workers (pool c))" "workers (pool c) ! i = Working n"
      "runs c i = Acting cleaner (res # rs) ps es"
    and step: "act_step d n cleaner res (outside c) = Ok (a, out)" "outside c' = out" by (elim exE conjE)
  have "worker_justified d W (Working n) (Acting cleaner (res # rs) ps es)"
    using just at unfolding runs_justified_def by metis
  then have "looked_up d W n cleaner" "chosen d W cleaner res" by simp_all
  moreover have "spec_Action (cl_Spec cleaner) = ActionDelete \<and> res_id res = x"
    using act_step_removes [OF assms(4,5) step(1) assms(12)] assms(13) step(2) by blast
  ultimately show ?thesis unfolding chosen_def using at by blast
qed

section \<open>A resource that is not selected any more\<close>

text \<open>
  A program with one worker, on the node of the examples.  The namespaces are then labelled the other
  way round, so that the Cleaner selects another pod.
\<close>

definition node_kube :: "node kube" where
  "node_kube =
     \<lparr>k_GetCleaner = (\<lambda>n w. Inl (NotFoundError n)), k_UpdateCleaner = (\<lambda>c w. (Inr c, w)),
      k_GetReport = (\<lambda>n w. Inl (NotFoundError n)), k_DeleteReport = (\<lambda>r w. (None, w)),
      patch_NewHelper = (\<lambda>c. None), patch_Patch = (\<lambda>before c w. (None, w)),
      util_ContainsFinalizer = (\<lambda>c f. f \<in> set (cl_Finalizers c)),
      util_AddFinalizer = (\<lambda>c f. c\<lparr>cl_Finalizers := cl_Finalizers c @ [f]\<rparr>),
      util_RemoveFinalizer = (\<lambda>c f. c\<lparr>cl_Finalizers := filter (\<lambda>g. g \<noteq> f) (cl_Finalizers c)\<rparr>),
      cron_ParseStandard = cron_minute, fmt_quote = (\<lambda>s. s), fmt_name = (\<lambda>n. ''/'' @ n)\<rparr>"

definition relabelled_node :: node where
  "relabelled_node = (world example_node)
     \<lparr>w_namespaces :=
        [\<lparr>ns_Name = ''a'', ns_DeletionTimestamp = None, ns_Labels = [(''team'', ''y'')]\<rparr>,
         \<lparr>ns_Name = ''c'', ns_DeletionTimestamp = None, ns_Labels = [(''team'', ''x'')]\<rparr>]\<rparr>"

definition node_program :: "run_stage \<Rightarrow> node \<Rightarrow> node controller" where
  "node_program g w =
     \<lparr>pool = \<lparr>mgr = startWorkloadWorkers\<lparr>inProgress := [''c1'']\<rparr>, workers = [Working ''c1'']\<rparr>,
      outside = example_node\<lparr>world := w\<rparr>, slots = [], runs = (\<lambda>_. Looking)(0 := g)\<rparr>"

lemma node_kube_laws: "kube_names node_kube" "kube_keeps node_kube v"
  by (auto simp: kube_names_def kube_keeps_def node_kube_def)

lemma node_program_works:
  assumes "run_stage_step d ''c1'' g (example_node\<lparr>world := w\<rparr>) = Ok (Inr g', example_node\<lparr>world := w\<rparr>)"
  shows "program_step k d r (node_program g w) (Works 0) (node_program g' w)"
proof -
  have "program_step k d r (node_program g w) (Works 0)
      ((node_program g w)\<lparr>outside := example_node\<lparr>world := w\<rparr>, runs := (runs (node_program g w))(0 := g')\<rparr>)"
    by (rule program_step.works [where key = "''c1''"])
      (simp_all add: node_program_def assms del: run_stage_step.simps)
  then show ?thesis by (simp add: node_program_def)
qed

lemma node_program_extend:
  "program_path k d r ok c (node_program g w) \<Longrightarrow> ok (node_program g w) (Works 0) \<Longrightarrow>
   run_stage_step d ''c1'' g (example_node\<lparr>world := w\<rparr>) = Ok (Inr g', example_node\<lparr>world := w\<rparr>) \<Longrightarrow>
   program_path k d r ok c (node_program g' w)"
  by (blast intro: program_path.further node_program_works)

lemma node_program_elsewhere: "program_step k d r (node_program g w) (Elsewhere w') (node_program g w')"
  using program_step.elsewhere [of k d r "node_program g w" w'] by (simp add: node_program_def)

abbreviation "first_pod \<equiv> as_result (example_pod ''a'' ''p1'')"

lemma example_stages:
  fixes tys :: "NotificationType list"
  defines "c \<equiv> deleting_cleaner tys"
  shows "run_stage_step (example_deps tys) ''c1'' Looking (example_node\<lparr>world := w\<rparr>) =
      Ok (Inr (Selecting c [example_selector] []), example_node\<lparr>world := w\<rparr>)"
    and "run_stage_step (example_deps tys) ''c1'' (Selecting c [example_selector] []) example_node =
      Ok (Inr (Selecting c [] [first_pod]), example_node)"
    and "run_stage_step (example_deps tys) ''c1'' (Selecting c [] [first_pod]) (example_node\<lparr>world := w\<rparr>) =
      Ok (Inr (Acting c [first_pod] [] []), example_node\<lparr>world := w\<rparr>)"
  using example_matching
  by (simp_all add: c_def getCleanerInstance_def example_deps_def deleting_cleaner_def)

lemma example_path:
  fixes tys :: "NotificationType list"
  defines "c \<equiv> deleting_cleaner tys" and "w \<equiv> world example_node"
  assumes "\<And>g. g \<in> {Looking, Selecting c [example_selector] [], Selecting c [] [first_pod]} \<Longrightarrow>
    ok (node_program g w) (Works 0)"
  shows "program_path k (example_deps tys) r ok (node_program Looking w)
    (node_program (Acting c [first_pod] [] []) w)"
proof -
  have w: "example_node\<lparr>world := w\<rparr> = example_node" by (simp add: w_def)
  note stages = example_stages(1) [of tys w] example_stages(2) [of tys] example_stages(3) [of tys w]
  have "program_path k (example_deps tys) r ok (node_program Looking w)
      (node_program (Selecting c [example_selector] []) w)"
    by (rule node_program_extend [OF program_path.here], rule assms(3))
      (use stages in \<open>simp_all add: c_def del: run_stage_step.simps\<close>)
  then have "program_path k (example_deps tys) r ok (node_program Looking w)
      (node_program (Selecting c [] [first_pod]) w)"
    by (rule node_program_extend, intro assms(3))
      (use stages in \<open>simp_all add: c_def w del: run_stage_step.simps\<close>)
  then show ?thesis
    by (rule node_program_extend, intro assms(3))
      (use stages in \<open>simp_all add: c_def del: run_stage_step.simps\<close>)
qed

lemma relabelled_selection:
  "select_resources (example_deps tys) (deleting_cleaner tys) relabelled_node =
     Ok [as_result (example_pod ''c'' ''p3'')]"
proof -
  have objs: "w_objects relabelled_node = w_objects example_world"
    by (simp add: relabelled_node_def example_node_world)
  have "getNamespaces ref_cluster relabelled_node example_selector = Ok [''c'']"
    by (simp add: getNamespaces_def ref_cluster_def cluster_reader.defs ref_reader_def
        example_selector_def relabelled_node_def)
  then have "fetchResources ref_cluster relabelled_node example_selector = Ok (Some [example_pod ''c'' ''p3''])"
    by (simp add: fetchResources_def ref_cluster_def cluster_reader.defs ref_reader_def
        example_selector_def collectFromNamespaces_def collectWithOptions_def Let_def
        objs field_namespace_def)
      (simp add: example_world_def example_pod_def)
  then have "getMatchingResources ref_cluster example_vm relabelled_node example_selector =
      Ok [as_result (example_pod ''c'' ''p3'')]"
    by (simp add: getMatchingResources_def match_resource_verdict verdict_no_script as_result_def
        example_pod_def example_selector_def)
  then show ?thesis by (simp add: select_resources_def example_deps_def deleting_cleaner_def)
qed

lemma relabelled_delete:
  fixes tys :: "NotificationType list"
  defines "c \<equiv> deleting_cleaner tys" and "live \<equiv> \<lambda>w. obj_id ` set (w_objects w)"
  shows "\<exists>c'. program_step k (example_deps tys) r (node_program (Acting c [first_pod] [] []) relabelled_node)
      (Works 0) c' \<and> obj_id (example_pod ''a'' ''p1'') \<in> live relabelled_node \<and>
    obj_id (example_pod ''a'' ''p1'') \<notin> live (world (outside c'))"
proof -
  let ?s = "example_node\<lparr>world := relabelled_node\<rparr>"
  have objs: "w_objects relabelled_node = w_objects example_world"
    by (simp add: relabelled_node_def example_node_world)
  have "\<exists>out. act_step (example_deps tys) ''c1'' c first_pod ?s = Ok (Done first_pod, out) \<and>
      obj_id (example_pod ''a'' ''p1'') \<notin> live (world out)"
    by (simp add: act_step_def c_def deleting_cleaner_def example_deps_def delete_step_def ref_cluster_def
        cluster_reader.defs as_result_def objs live_def)
      (auto simp: example_world_def example_pod_def)
  then obtain out where act: "act_step (example_deps tys) ''c1'' c first_pod ?s = Ok (Done first_pod, out)"
    and gone: "obj_id (example_pod ''a'' ''p1'') \<notin> live (world out)" by (elim exE conjE)
  let ?g = "Acting c [first_pod] [] []"
  let ?c' = "(node_program ?g relabelled_node)\<lparr>outside := out,
    runs := (runs (node_program ?g relabelled_node))(0 := Acting c [] [first_pod] [])\<rparr>"
  have "program_step k (example_deps tys) r (node_program ?g relabelled_node) (Works 0) ?c'"
    by (rule program_step.works [where key = "''c1''"]) (simp_all add: node_program_def act)
  moreover have "obj_id (example_pod ''a'' ''p1'') \<in> live relabelled_node"
    by (simp add: live_def objs example_world_def)
  ultimately show ?thesis using gone by (intro exI conjI) auto
qed

text \<open>
  C33. A run deletes what it selected, whether or not it is selected any more: whatever the others do and
  the outside makes of the cluster once a run has a resource to delete, when the run comes to it and the
  API server accepts the call, the object that then has its name is gone, and nothing is looked at again.
\<close>

theorem stale_selection_deleted:
  assumes "delete_removes (d_cluster d) live"
    and "i < length (workers (pool c))" and "workers (pool c) ! i = Working n"
    and "runs c i = Acting cleaner (res # rs) ps es" and "spec_Action (cl_Spec cleaner) = ActionDelete"
    and "program_path k d r (\<lambda>_ e. e \<noteq> Works i) c c1"
    and "api_delete (d_cluster d) (world (outside c1)) (rr_Resource res)
      (delete_options (spec_DeleteOptions (cl_Spec cleaner))) = (None, w)"
  shows "\<exists>c2. program_step k d r c1 (Works i) c2 \<and> world (outside c2) = w \<and>
    live w = live (world (outside c1)) - {res_id res}"
proof -
  let ?P = "\<lambda>c. i < length (workers (pool c)) \<and> workers (pool c) ! i = Working n \<and>
    runs c i = Acting cleaner (res # rs) ps es"
  have at: "?P c1"
  proof (rule program_path_invariant [where P = ?P, OF assms(6)])
    show "?P c2" if "?P c1" "e \<noteq> Works i" "program_step k d r c1 e c2" for c1 e c2
    proof -
      have "e \<noteq> Ends i"
      proof
        assume "e = Ends i"
        then have "program_step k d r c1 (Ends i) c2" using that(3) by simp
        then show False using that(1) by (auto elim: program_endsE split: prod.splits)
      qed
      then show ?thesis using worker_stays [OF that(3,2), of n] that(1) by auto
    qed
  qed (use assms(2-4) in simp)
  let ?s = "outside c1"
  have "act_step d n cleaner res ?s =
      Ok (Done res, count_event reportDeletionEvent n res (?s\<lparr>world := w\<rparr>))"
    using assms(5,7) by (simp add: act_step_def delete_step_def)
  then have stage: "run_stage_step d n (runs c1 i) ?s = Ok (Inr (Acting cleaner rs (ps @ [res]) es),
      count_event reportDeletionEvent n res (?s\<lparr>world := w\<rparr>))"
    using at by simp
  have step: "program_step k d r c1 (Works i) (c1\<lparr>outside := count_event reportDeletionEvent n res (?s\<lparr>world := w\<rparr>),
      runs := (runs c1)(i := Acting cleaner rs (ps @ [res]) es)\<rparr>)"
    by (rule program_step.works [OF _ _ stage]) (use at in simp_all)
  have "live w = live (world ?s) - {res_id res}"
    using assms(1) [unfolded delete_removes_def, THEN spec, THEN spec, THEN spec,
        of "world ?s" "rr_Resource res" "delete_options (spec_DeleteOptions (cl_Spec cleaner))"] assms(7)
    by (simp add: res_id_def)
  with step show ?thesis by (intro exI conjI) (rule step, simp)
qed

text \<open>
  On the node of the examples, between the selection and the deletion of a pod the namespaces change
  their labels, so that the Cleaner selects another pod; the first one is deleted all the same.
\<close>

theorem stale_selection_deleted_witness:
  "\<exists>c2. program_path node_kube (example_deps []) ref_reconciler (\<lambda>_ _. True)
       (node_program Looking (world example_node))
       (node_program (Acting (deleting_cleaner []) [first_pod] [] []) relabelled_node) \<and>
     select_resources (example_deps []) (deleting_cleaner []) relabelled_node =
       Ok [as_result (example_pod ''c'' ''p3'')] \<and>
     program_step node_kube (example_deps []) ref_reconciler
       (node_program (Acting (deleting_cleaner []) [first_pod] [] []) relabelled_node) (Works 0) c2 \<and>
     res_id first_pod \<in> obj_id ` set (w_objects relabelled_node) \<and>
     res_id first_pod \<notin> obj_id ` set (w_objects (world (outside c2)))"
proof -
  let ?g = "Acting (deleting_cleaner []) [first_pod] [] []" and ?live = "\<lambda>w. obj_id ` set (w_objects w)"
  let ?d = "example_deps []" and ?w0 = "world example_node"
  let ?c = "node_program ?g ?w0" and ?c1 = "node_program ?g relabelled_node"
  have path: "program_path node_kube ?d ref_reconciler (\<lambda>_ _. True) (node_program Looking ?w0) ?c1"
    using example_path [where ok = "\<lambda>_ _. True" and k = node_kube and tys = "[]" and r = ref_reconciler]
      node_program_elsewhere by (blast intro: program_path.further)
  have waits: "program_path node_kube ?d ref_reconciler (\<lambda>_ e. e \<noteq> Works 0) ?c ?c1"
    by (rule program_path.further [OF program_path.here _ node_program_elsewhere]) simp
  have at: "0 < length (workers (pool ?c))" "workers (pool ?c) ! 0 = Working ''c1''" "runs ?c 0 = ?g"
    "spec_Action (cl_Spec (deleting_cleaner [])) = ActionDelete"
    by (simp_all add: node_program_def deleting_cleaner_def)
  have objs: "w_objects relabelled_node = w_objects example_world"
    by (simp add: relabelled_node_def example_node_world)
  have here: "world (outside ?c1) = relabelled_node" by (simp add: node_program_def)
  have del: "delete_removes (d_cluster ?d) ?live" by (simp add: example_deps_def ref_cluster_deletes)
  obtain w where "api_delete (d_cluster ?d) (world (outside ?c1)) (rr_Resource first_pod)
      (delete_options (spec_DeleteOptions (cl_Spec (deleting_cleaner [])))) = (None, w)"
    unfolding here
    by (simp add: example_deps_def ref_cluster_def cluster_reader.defs as_result_def objs)
      (simp add: example_world_def example_pod_def)
  from stale_selection_deleted [OF del at waits this] obtain c2 where
    step: "program_step node_kube ?d ref_reconciler ?c1 (Works 0) c2"
    and left: "?live (world (outside c2)) = ?live (world (outside ?c1)) - {res_id first_pod}"
    by (elim exE conjE) simp
  have "res_id first_pod \<notin> ?live (world (outside c2))" unfolding left by blast
  moreover have "res_id first_pod \<in> ?live relabelled_node"
    by (simp add: objs example_world_def res_id_def as_result_def)
  ultimately show ?thesis using path step relabelled_selection [of "[]"] by (intro exI conjI)
qed

text \<open>The pod of that run was selected by the Cleaner's selector when the run began.\<close>

theorem removal_traces_to_selector_witness:
  "looked_up (example_deps []) {world example_node, relabelled_node} ''c1'' (deleting_cleaner []) \<and>
   selected_once (example_deps []) {world example_node, relabelled_node} (deleting_cleaner []) first_pod"
proof -
  let ?c = "deleting_cleaner []" and ?W = "{world example_node, relabelled_node}"
  let ?g = "Acting ?c [first_pod] [] []" and ?live = "\<lambda>w. obj_id ` set (w_objects w)"
  let ?x = "obj_id (example_pod ''a'' ''p1'')" and ?w0 = "world example_node"
  have ok: "world (outside (node_program h w)) \<in> ?W" if "w \<in> ?W" for h w
    using that by (simp add: node_program_def)
  have path: "program_path node_kube (example_deps []) ref_reconciler (\<lambda>c e. world (outside c) \<in> ?W)
      (node_program Looking ?w0) (node_program ?g relabelled_node)"
    using program_path.further [OF example_path _ node_program_elsewhere] ok [OF insertI1] by simp
  obtain c' where step: "program_step node_kube (example_deps []) ref_reconciler
      (node_program ?g relabelled_node) (Works 0) c'"
    and live: "?x \<in> ?live relabelled_node" "?x \<notin> ?live (world (outside c'))"
    using relabelled_delete [of node_kube "[]" ref_reconciler] by (elim exE conjE)
  have del: "delete_removes (d_cluster (example_deps [])) ?live" by (simp add: example_deps_def ref_cluster_deletes)
  have upd: "updates_remove_nothing (d_cluster (example_deps [])) ?live"
    by (simp add: example_deps_def ref_cluster_updates_keep)
  have start: "slots_named node_kube (node_program Looking ?w0)" "\<forall>i. runs (node_program Looking ?w0) i = Looking"
    by (simp_all add: slots_named_def node_program_def)
  have here: "world (outside (node_program ?g relabelled_node)) \<in> ?W" by (rule ok) simp
  have in': "?x \<in> ?live (world (outside (node_program ?g relabelled_node)))"
    using live(1) by (simp add: node_program_def)
  have "\<forall>w. Works 0 \<noteq> Elsewhere w" by simp
  from removal_traces_to_selector [OF node_kube_laws example_deps_keep del upd start path here step this in' live(2)]
  show ?thesis by (auto simp: node_program_def deleting_cleaner_def)
qed

end
