(* ===== verification/Run_Counters.thy ===== *)
theory Run_Counters
  imports Run_Safety
begin

text \<open>
  The counter of deleted resources in the interleaved program: runs that overlap on the same resources
  never count a deletion twice, as long as a delete call takes the resource out at once.
\<close>

section \<open>The counters of a run\<close>

lemma run_stage_counters:
  assumes "run_stage_step d n g s = Ok (p, s')"
    and "\<And>cleaner r rs ps es. g \<noteq> Acting cleaner (r # rs) ps es"
  shows "counters s' = counters s"
  using assms(1)
proof (cases rule: run_stage_step.cases [of "(d, n, g, s)"])
  case (2 d' n' cleaner sr srs acc s1)
  then show ?thesis using assms by (auto split: outcome.splits)
next
  case (3 d' n' cleaner acc s1)
  then show ?thesis using assms by (auto split: outcome.splits)
qed (use assms in \<open>auto split: prod.splits option.splits sum.splits if_splits\<close>)

text \<open>The resources of a kind among some.\<close>

definition of_kind ::
  "string \<Rightarrow> string \<Rightarrow> (string \<times> string \<times> string \<times> string) set \<Rightarrow> (string \<times> string \<times> string \<times> string) set" where
  "of_kind v k X = {x \<in> X. fst x = v \<and> fst (snd x) = k}"

text \<open>
  What is assumed of the delete calls, about one kind of resource: none of them brings a resource of that
  kind into being, and one that succeeds for a resource of that kind finds it there and leaves it gone.
  So it is documented for kinds whose objects are deleted at once, without a grace period, as long as they
  carry no finalizers (ConfigMaps and Secrets, say; not Pods).
\<close>

definition deletes_at_once ::
  "('w, 'x) cluster_scheme \<Rightarrow> ('w \<Rightarrow> (string \<times> string \<times> string \<times> string) set) \<Rightarrow> string \<Rightarrow> string \<Rightarrow> bool" where
  "deletes_at_once cl live v k \<longleftrightarrow>
     (\<forall>w u opts. case api_delete cl w u opts of (err, w') \<Rightarrow>
        of_kind v k (live w') \<subseteq> of_kind v k (live w) \<and>
        (err = None \<and> u_apiVersion u = v \<and> u_kind u = k \<longrightarrow> obj_id u \<in> live w \<and> obj_id u \<notin> live w'))"

text \<open>The deletions of a kind counted for some Cleaners, and with the resources of that kind that are left.\<close>

definition deleted_count :: "string set \<Rightarrow> string \<Rightarrow> string \<Rightarrow> metrics \<Rightarrow> nat" where
  "deleted_count N v k m = (\<Sum>n \<in> N. deletedResourceCounter m (n, v, k))"

definition balance ::
  "('w \<Rightarrow> (string \<times> string \<times> string \<times> string) set) \<Rightarrow> string set \<Rightarrow> string \<Rightarrow> string \<Rightarrow> 'w exec \<Rightarrow> nat" where
  "balance live N v k s = deleted_count N v k (counters s) + card (of_kind v k (live (world s)))"

lemma deleted_count_step:
  assumes "finite N"
    and "\<And>l. deletedResourceCounter m' l = deletedResourceCounter m l + count_list [(n, v', k')] l"
  shows "deleted_count N v k m' \<le> deleted_count N v k m + (if v' = v \<and> k' = k then 1 else 0)"
proof -
  have "deleted_count N v k m' = deleted_count N v k m + (\<Sum>j \<in> N. count_list [(n, v', k')] (j, v, k))"
    by (simp add: deleted_count_def assms(2) sum.distrib)
  also have "(\<Sum>j \<in> N. count_list [(n, v', k')] (j, v, k)) =
      (\<Sum>j \<in> N. if n = j then (if v' = v \<and> k' = k then 1 else 0) else 0)"
    by (rule sum.cong) simp_all
  also have "\<dots> \<le> (if v' = v \<and> k' = k then 1 else 0)" using assms(1) by simp
  finally show ?thesis by (simp only: add_le_cancel_left)
qed

lemma of_kind_remove:
  assumes "finite (of_kind v k X)" and "of_kind v k Y \<subseteq> of_kind v k X"
    and "fst x = v \<and> fst (snd x) = k \<Longrightarrow> x \<in> X \<and> x \<notin> Y"
  shows "card (of_kind v k Y) + (if fst x = v \<and> fst (snd x) = k then 1 else 0) \<le> card (of_kind v k X)"
proof (cases "fst x = v \<and> fst (snd x) = k")
  case True
  then have "x \<in> of_kind v k X" "x \<notin> of_kind v k Y" using assms(3) by (simp_all add: of_kind_def)
  then have "of_kind v k Y \<subset> of_kind v k X" using assms(2) by blast
  from psubset_card_mono [OF assms(1) this] show ?thesis unfolding if_P [OF True] by simp
next
  case False
  from card_mono [OF assms(1,2)] show ?thesis unfolding if_not_P [OF False] by simp
qed

text \<open>Whatever moves the counter of a kind and its resources so that their balance does not grow.\<close>

definition kept_balance ::
  "('w \<Rightarrow> (string \<times> string \<times> string \<times> string) set) \<Rightarrow> string set \<Rightarrow> string \<Rightarrow> string \<Rightarrow> 'w exec \<Rightarrow> 'w exec \<Rightarrow> bool" where
  "kept_balance live N v k s s' \<longleftrightarrow>
     balance live N v k s' \<le> balance live N v k s \<and>
     of_kind v k (live (world s')) \<subseteq> of_kind v k (live (world s))"

lemma delete_step_balance:
  assumes "deletes_at_once cl live v k" and "finite N" and "finite (of_kind v k (live (world s)))"
    and "delete_step cl n opts r s = Ok (a, s')"
  shows "kept_balance live N v k s s'"
proof -
  have law: "case api_delete cl (world s) (rr_Resource r) (delete_options opts) of (err, w') \<Rightarrow>
      of_kind v k (live w') \<subseteq> of_kind v k (live (world s)) \<and>
      (err = None \<and> u_apiVersion (rr_Resource r) = v \<and> u_kind (rr_Resource r) = k \<longrightarrow>
        res_id r \<in> live (world s) \<and> res_id r \<notin> live w')"
    using assms(1) [unfolded deletes_at_once_def, THEN spec, THEN spec, THEN spec]
    unfolding res_id_def .
  obtain err w' where api: "api_delete cl (world s) (rr_Resource r) (delete_options opts) = (err, w')"
    by (cases "api_delete cl (world s) (rr_Resource r) (delete_options opts)")
  then have sub: "of_kind v k (live w') \<subseteq> of_kind v k (live (world s))" using law by simp
  show ?thesis
  proof (cases err)
    case None
    then have s': "s' = count_event reportDeletionEvent n r (s\<lparr>world := w'\<rparr>)"
      using assms(4) api by (simp add: delete_step_def)
    have "deleted_count N v k (counters s') \<le> deleted_count N v k (counters s) +
        (if fst (res_id r) = v \<and> fst (snd (res_id r)) = k then 1 else 0)"
      using deleted_count_step [OF assms(2), of "counters s'" "counters s" n]
      by (simp add: s' metric_of_def res_id_def obj_id_def)
    moreover have "card (of_kind v k (live w')) + (if fst (res_id r) = v \<and> fst (snd (res_id r)) = k then 1 else 0) \<le>
        card (of_kind v k (live (world s)))"
      using law api None by (intro of_kind_remove [OF assms(3) sub]) (auto simp: res_id_def obj_id_def)
    ultimately show ?thesis using sub by (simp add: kept_balance_def balance_def s')
  next
    case (Some e)
    then have "world s' = w'" "deletedResourceCounter (counters s') = deletedResourceCounter (counters s)"
      using assms(4) api by (auto simp: delete_step_def split: if_splits)
    then show ?thesis using sub assms(3) by (simp add: kept_balance_def balance_def deleted_count_def card_mono)
  qed
qed

section \<open>The counters of the program\<close>

text \<open>
  No resource of the kind comes into being, and nothing is transformed: the counter of deletions also
  counts updates.
\<close>

fun only_deletes ::
  "('w \<Rightarrow> (string \<times> string \<times> string \<times> string) set) \<Rightarrow> string \<Rightarrow> string \<Rightarrow> 'w controller \<Rightarrow> 'w activity \<Rightarrow> bool" where
  "only_deletes live v k c (Elsewhere w) \<longleftrightarrow> of_kind v k (live w) \<subseteq> of_kind v k (live (world (outside c)))"
| "only_deletes live v k c (Works i) \<longleftrightarrow>
     (case runs c i of Acting cleaner _ _ _ \<Rightarrow> spec_Action (cl_Spec cleaner) \<noteq> ActionTransform | _ \<Rightarrow> True)"
| "only_deletes live v k c _ \<longleftrightarrow> True"

lemma act_step_balance:
  assumes "deletes_at_once (d_cluster d) live v k" and "finite N" and "finite (of_kind v k (live (world s)))"
    and "act_step d n cleaner r s = Ok (a, s')" and "spec_Action (cl_Spec cleaner) \<noteq> ActionTransform"
  shows "kept_balance live N v k s s'"
proof (cases "spec_Action (cl_Spec cleaner)")
  case ActionDelete
  then show ?thesis using assms(4) delete_step_balance [OF assms(1-3)] by (simp add: act_step_def)
next
  case ActionScan
  then have "s' = count_event reportScanEvent n r s" using assms(4) by (simp add: act_step_def scan_step_def)
  then show ?thesis
    by (simp add: kept_balance_def balance_def deleted_count_def count_event_def reportScanEvent_def
        getScanResourcesCounterVec_def)
qed (use assms(4,5) in \<open>simp_all add: act_step_def kept_balance_def\<close>)

lemma kept_balance_same:
  "counters s' = counters s \<Longrightarrow> live (world s') = live (world s) \<Longrightarrow> kept_balance live N v k s s'"
  by (simp add: kept_balance_def balance_def)

lemma program_step_balance:
  assumes "kube_keeps k live" and "others_keep d live" and "deletes_at_once (d_cluster d) live v kd"
    and "slots_named k c" and "finite N" and "finite (of_kind v kd (live (world (outside c))))"
    and "only_deletes live v kd c e" and "program_step k d r c e c'"
  shows "kept_balance live N v kd (outside c) (outside c')"
  using assms(8)
proof cases
  case (advances j name g clk p st)
  have "live (api st) = live (api (control_at c))"
    by (rule reconcile_stage_keeps [OF assms(1) slots_namedD [OF assms(4) advances(3,4)] advances(5)])
  then show ?thesis using advances by (intro kept_balance_same) (simp_all add: after_stage_def control_at_def)
next
  case (works i key g out)
  show ?thesis
  proof (cases "\<exists>cleaner res rs ps es. runs c i = Acting cleaner (res # rs) ps es")
    case True
    then obtain cleaner res rs ps es where acting: "runs c i = Acting cleaner (res # rs) ps es" by blast
    then obtain a where "act_step d key cleaner res (outside c) = Ok (a, out)"
      using works(5) by (auto split: prod.splits)
    moreover have "spec_Action (cl_Spec cleaner) \<noteq> ActionTransform" using assms(7) works(1) acting by simp
    ultimately show ?thesis using act_step_balance [OF assms(3,5,6)] works(2) by simp
  next
    case False
    then have "counters out = counters (outside c)" "live (world out) = live (world (outside c))"
      using run_stage_counters [OF works(5)] run_stage_keeps [OF assms(2) works(5)] by blast+
    then show ?thesis using works(2) by (intro kept_balance_same) simp_all
  qed
next
  case (ends i key err out p)
  have "runs c i \<noteq> Acting cleaner (res # rs) ps es" for cleaner res rs ps es
    using ends(5) by auto
  then have "counters out = counters (outside c)" "live (world out) = live (world (outside c))"
    using run_stage_counters [OF ends(5)] run_stage_keeps [OF assms(2) ends(5)] by blast+
  then show ?thesis using ends(2) by (intro kept_balance_same) simp_all
next
  case (elsewhere w)
  then show ?thesis using assms(6,7) by (simp add: kept_balance_def balance_def card_mono)
qed (simp_all add: kept_balance_def)

text \<open>
  C25. Deletions are not counted twice, for a kind of resource that delete calls take out at once: however
  runs overlap on the same resources, along every path of the program on which no run transforms and
  nobody creates a resource of that kind, the deletions of the kind that the counter shows, summed over any
  Cleaners, grow by no more than the number of resources of the kind that have gone.
\<close>

theorem deletions_not_overcounted:
  assumes "kube_names k" and "kube_keeps k live" and "others_keep d live"
    and "deletes_at_once (d_cluster d) live v kind" and "slots_named k c0"
    and "finite (of_kind v kind (live (world (outside c0))))" and "finite N"
    and "program_path k d r (only_deletes live v kind) c0 c"
  shows "deleted_count N v kind (counters (outside c)) + card (of_kind v kind (live (world (outside c)))) \<le>
    deleted_count N v kind (counters (outside c0)) + card (of_kind v kind (live (world (outside c0))))"
proof -
  let ?P = "\<lambda>c. slots_named k c \<and> finite (of_kind v kind (live (world (outside c)))) \<and>
    balance live N v kind (outside c) \<le> balance live N v kind (outside c0)"
  have "?P c"
  proof (rule program_path_invariant [where P = ?P, OF assms(8)])
    show "?P c0" using assms(5,6) by simp
    show "?P c2" if "?P c1" "only_deletes live v kind c1 e" "program_step k d r c1 e c2" for c1 e c2
    proof -
      have named: "slots_named k c1" and fin: "finite (of_kind v kind (live (world (outside c1))))"
        using that(1) by blast+
      from program_step_balance [OF assms(2-4) named assms(7) fin that(2,3)]
      have "balance live N v kind (outside c2) \<le> balance live N v kind (outside c1)"
        "of_kind v kind (live (world (outside c2))) \<subseteq> of_kind v kind (live (world (outside c1)))"
        by (simp_all add: kept_balance_def)
      then show ?thesis
        using that(1) slots_named_step [OF assms(1) named that(3)] finite_subset by (meson order_trans)
    qed
  qed
  then show ?thesis by (simp add: balance_def)
qed

text \<open>The resource of the example node, deleted and counted.\<close>

lemma ref_cluster_at_once: "deletes_at_once ref_cluster (\<lambda>w. obj_id ` set (w_objects w)) v k"
  by (auto simp: deletes_at_once_def of_kind_def ref_cluster_def cluster_reader.defs list_ex_iff) (metis image_eqI)

theorem deletions_not_overcounted_witness:
  "\<exists>c. program_path node_kube (example_deps []) ref_reconciler
       (only_deletes (\<lambda>w. obj_id ` set (w_objects w)) ''v1'' ''Pod'') (node_program Looking (world example_node)) c \<and>
     deleted_count {''c1''} ''v1'' ''Pod'' (counters (outside c)) +
       card (of_kind ''v1'' ''Pod'' (obj_id ` set (w_objects (world (outside c))))) \<le>
     deleted_count {''c1''} ''v1'' ''Pod'' (counters example_node) +
       card (of_kind ''v1'' ''Pod'' (obj_id ` set (w_objects (world example_node))))"
proof -
  let ?live = "\<lambda>w. obj_id ` set (w_objects w)" and ?w0 = "world example_node"
  let ?g = "Acting (deleting_cleaner []) [first_pod] [] []"
  let ?path = "program_path node_kube (example_deps []) ref_reconciler (only_deletes ?live ''v1'' ''Pod'')"
  have start: "?path (node_program Looking ?w0) (node_program ?g ?w0)"
    by (rule example_path) (auto simp: node_program_def)
  have "w_objects relabelled_node = w_objects ?w0" by (simp add: relabelled_node_def)
  then have "only_deletes ?live ''v1'' ''Pod'' (node_program ?g ?w0) (Elsewhere relabelled_node)"
    by (simp add: node_program_def)
  from program_path.further [OF start this node_program_elsewhere]
  have path: "?path (node_program Looking ?w0) (node_program ?g relabelled_node)" .
  obtain c' where step: "program_step node_kube (example_deps []) ref_reconciler
      (node_program ?g relabelled_node) (Works 0) c'"
    using relabelled_delete [of node_kube "[]" ref_reconciler] by (elim exE conjE)
  have "only_deletes ?live ''v1'' ''Pod'' (node_program ?g relabelled_node) (Works 0)"
    by (simp add: node_program_def deleting_cleaner_def)
  from program_path.further [OF path this step] have whole: "?path (node_program Looking ?w0) c'" .
  have del: "deletes_at_once (d_cluster (example_deps [])) ?live ''v1'' ''Pod''"
    by (simp add: example_deps_def ref_cluster_at_once)
  have named: "slots_named node_kube (node_program Looking ?w0)"
    "finite (of_kind ''v1'' ''Pod'' (?live (world (outside (node_program Looking ?w0)))))"
    by (simp_all add: slots_named_def node_program_def of_kind_def)
  have "finite {''c1''}" by simp
  from deletions_not_overcounted [OF node_kube_laws example_deps_keep del named this whole]
  show ?thesis using whole by (intro exI conjI) (simp_all add: node_program_def)
qed

end
