(* ===== verification/Run_Progress.thy ===== *)
theory Run_Progress
  imports Run_Safety
begin

text \<open>
  Whether runs come to an end: the code gives the Lua interpreter neither a context nor a time limit, so a
  user's script that does not end keeps its worker for ever.  The theory shows what becomes of the program
  when every worker has met such a script.
\<close>

section \<open>Stages that never return\<close>



section \<open>A program without a worker\<close>










end
