(* ===== verification/Deep_Copy.thy ===== *)
theory Deep_Copy
  imports Prelude
begin

text \<open>
  What it takes to copy Go values deeply: an explicit memory, the two shapes in which the generated
  functions of \<open>zz_generated.deepcopy.go\<close> copy through a reference (a pointer to a new variable, a
  slice of a new array), and the contract \<open>deep_copy\<close>, which both shapes and the composition of
  struct fields carry from the parts to the whole.
\<close>

section \<open>Memory\<close>

text \<open>
  A variable or an array is one cell.  Cells from the limit on are free, and a new one is taken there;
  an operation that follows a reference to no cell of the right kind has no result.
\<close>

record 'c mem =
  cells :: "nat \<Rightarrow> 'c option"
  limit :: nat

type_synonym ('c, 'a) mem_op = "'c mem \<Rightarrow> ('a \<times> 'c mem) option"

definition valid :: "'c mem \<Rightarrow> bool" where
  "valid m \<longleftrightarrow> (\<forall>a \<ge> limit m. cells m a = None)"

definition alloc :: "'c \<Rightarrow> 'c mem \<Rightarrow> 'c mem" where
  "alloc c m = m\<lparr>cells := (cells m)(limit m \<mapsto> c), limit := Suc (limit m)\<rparr>"

definition store :: "nat \<Rightarrow> 'c \<Rightarrow> 'c mem \<Rightarrow> 'c mem" where
  "store a c m = m\<lparr>cells := (cells m)(a \<mapsto> c)\<rparr>"

definition load :: "('c \<Rightarrow> 'a option) \<Rightarrow> nat \<Rightarrow> 'c mem \<Rightarrow> 'a option" where
  "load unwrap a m = (case cells m a of None \<Rightarrow> None | Some c \<Rightarrow> unwrap c)"

definition grows :: "'c mem \<Rightarrow> 'c mem \<Rightarrow> bool" where
  "grows m m' \<longleftrightarrow> valid m' \<and> limit m \<le> limit m' \<and> (\<forall>a < limit m. cells m' a = cells m a)"

lemma grows_refl: "valid m \<Longrightarrow> grows m m"
  by (simp add: grows_def)

lemma grows_trans: "grows m m1 \<Longrightarrow> grows m1 m2 \<Longrightarrow> grows m m2"
  by (simp add: grows_def)

lemma grows_valid: "grows m m' \<Longrightarrow> valid m'"
  by (simp add: grows_def)

lemma grows_alloc: "valid m \<Longrightarrow> grows m (alloc c m)"
  by (simp add: grows_def valid_def alloc_def)

lemma alloc_limit [simp]: "limit (alloc c m) = Suc (limit m)"
  by (simp add: alloc_def)

lemma store_limit [simp]: "limit (store a c m) = limit m"
  by (simp add: store_def)

lemma store_cells [simp]: "cells (store a c m) = (cells m)(a \<mapsto> c)"
  by (simp add: store_def)

lemma valid_below: "valid m \<Longrightarrow> cells m a = Some c \<Longrightarrow> a < limit m"
  unfolding valid_def by (metis not_le option.distinct(1))

lemma grows_store_new: "grows (alloc c m) m2 \<Longrightarrow> valid m \<Longrightarrow> grows m (store (limit m) c' m2)"
  by (auto simp: grows_def valid_def alloc_def)

lemma load_Some_cell: "load unwrap a m = Some x \<Longrightarrow> a \<in> dom (cells m)"
  by (auto simp: load_def split: option.splits)

lemma load_cong: "cells m' a = cells m a \<Longrightarrow> load unwrap a m' = load unwrap a m"
  by (simp add: load_def)

section \<open>Copying operations\<close>

definition mem_return :: "'a \<Rightarrow> ('c, 'a) mem_op" where
  "mem_return x m = Some (x, m)"

definition mem_bind :: "('c, 'a) mem_op \<Rightarrow> ('a \<Rightarrow> ('c, 'b) mem_op) \<Rightarrow> ('c, 'b) mem_op" where
  "mem_bind f g m = (case f m of None \<Rightarrow> None | Some (x, m') \<Rightarrow> g x m')"

lemma mem_bind_simps [simp]:
  "mem_bind (mem_return x) g = g x"
  "mem_bind (mem_bind f g) h = mem_bind f (\<lambda>x. mem_bind (g x) h)"
  by (auto simp: fun_eq_iff mem_bind_def mem_return_def split: option.split)

fun copy_each :: "('r \<Rightarrow> ('c, 'r) mem_op) \<Rightarrow> 'r list \<Rightarrow> ('c, 'r list) mem_op" where
  "copy_each copy [] = mem_return []"
| "copy_each copy (x # xs) =
     mem_bind (copy x) (\<lambda>y. mem_bind (copy_each copy xs) (\<lambda>ys. mem_return (y # ys)))"

text \<open>
  \<open>*out = new(T)\<close> and the copy of what the pointer points to: a new variable with the same contents,
  which are then replaced by their copy.  A nil pointer stays nil.
\<close>

definition copy_pointer ::
  "('r \<Rightarrow> 'c) \<Rightarrow> ('c \<Rightarrow> 'r option) \<Rightarrow> ('r \<Rightarrow> ('c, 'r) mem_op) \<Rightarrow> nat option \<Rightarrow> ('c, nat option) mem_op" where
  "copy_pointer wrap unwrap copy p m =
     (case p of
        None \<Rightarrow> Some (None, m)
      | Some a \<Rightarrow>
          (case load unwrap a m of
             None \<Rightarrow> None
           | Some x \<Rightarrow>
               (case copy x (alloc (wrap x) m) of
                  None \<Rightarrow> None
                | Some (y, m') \<Rightarrow> Some (Some (limit m), store (limit m) (wrap y) m'))))"

text \<open>
  A slice is nil, or a part of an array, with its offset and length.  \<open>*out = make([]T, len(*in))\<close>
  and the loop over the elements: a new array of just that length.
\<close>

datatype slice = NilSlice | Slice nat nat nat

definition slice_elements :: "('c \<Rightarrow> 'r list option) \<Rightarrow> nat \<Rightarrow> nat \<Rightarrow> nat \<Rightarrow> 'c mem \<Rightarrow> 'r list option" where
  "slice_elements unwrap a off len m =
     (case load unwrap a m of
        None \<Rightarrow> None
      | Some xs \<Rightarrow> if off + len \<le> length xs then Some (take len (drop off xs)) else None)"

definition copy_slice ::
  "('r list \<Rightarrow> 'c) \<Rightarrow> ('c \<Rightarrow> 'r list option) \<Rightarrow> ('r \<Rightarrow> ('c, 'r) mem_op) \<Rightarrow> slice \<Rightarrow> ('c, slice) mem_op" where
  "copy_slice wrap unwrap copy s m =
     (case s of
        NilSlice \<Rightarrow> Some (NilSlice, m)
      | Slice a off len \<Rightarrow>
          (case slice_elements unwrap a off len m of
             None \<Rightarrow> None
           | Some xs \<Rightarrow>
               (case copy_each copy xs (alloc (wrap xs) m) of
                  None \<Rightarrow> None
                | Some (ys, m') \<Rightarrow> Some (Slice (limit m) 0 len, store (limit m) (wrap ys) m'))))"

section \<open>Reading a value through its references\<close>

text \<open>What is read, and the cells it was read from.\<close>

type_synonym ('c, 'r, 'v) mem_reader = "'c mem \<Rightarrow> 'r \<Rightarrow> ('v \<times> nat set) option"

definition read_plain :: "('c, 'r, 'r) mem_reader" where
  "read_plain m x = Some (x, {})"

definition read_pair ::
  "('c, 'r, 'v) mem_reader \<Rightarrow> ('c, 's, 'w) mem_reader \<Rightarrow> ('c, 'r \<times> 's, 'v \<times> 'w) mem_reader" where
  "read_pair rd1 rd2 m r =
     (case rd1 m (fst r) of
        None \<Rightarrow> None
      | Some (v, A) \<Rightarrow>
          (case rd2 m (snd r) of None \<Rightarrow> None | Some (w, B) \<Rightarrow> Some ((v, w), A \<union> B)))"

definition read_as :: "('s \<Rightarrow> 'r) \<Rightarrow> ('s \<Rightarrow> 'v \<Rightarrow> 'u) \<Rightarrow> ('c, 'r, 'v) mem_reader \<Rightarrow> ('c, 's, 'u) mem_reader" where
  "read_as get mk rd m s = (case rd m (get s) of None \<Rightarrow> None | Some (v, A) \<Rightarrow> Some (mk s v, A))"

fun read_each :: "('c, 'r, 'v) mem_reader \<Rightarrow> ('c, 'r list, 'v list) mem_reader" where
  "read_each rd m [] = Some ([], {})"
| "read_each rd m (x # xs) =
     (case rd m x of
        None \<Rightarrow> None
      | Some (v, A) \<Rightarrow>
          (case read_each rd m xs of None \<Rightarrow> None | Some (vs, B) \<Rightarrow> Some (v # vs, A \<union> B)))"

definition read_pointer ::
  "('c \<Rightarrow> 'r option) \<Rightarrow> ('c, 'r, 'v) mem_reader \<Rightarrow> ('c, nat option, 'v option) mem_reader" where
  "read_pointer unwrap rd m p =
     (case p of
        None \<Rightarrow> Some (None, {})
      | Some a \<Rightarrow>
          (case load unwrap a m of
             None \<Rightarrow> None
           | Some x \<Rightarrow> (case rd m x of None \<Rightarrow> None | Some (v, A) \<Rightarrow> Some (Some v, insert a A))))"

definition read_slice ::
  "('c \<Rightarrow> 'r list option) \<Rightarrow> ('c, 'r, 'v) mem_reader \<Rightarrow> ('c, slice, 'v list) mem_reader" where
  "read_slice unwrap rd m s =
     (case s of
        NilSlice \<Rightarrow> Some ([], {})
      | Slice a off len \<Rightarrow>
          (case slice_elements unwrap a off len m of
             None \<Rightarrow> None
           | Some xs \<Rightarrow>
               (case read_each rd m xs of None \<Rightarrow> None | Some (vs, A) \<Rightarrow> Some (vs, insert a A))))"

section \<open>The contract of a copy\<close>

locale reader =
  fixes read :: "('c, 'r, 'v) mem_reader"
  assumes allocated: "read m r = Some (v, A) \<Longrightarrow> A \<subseteq> dom (cells m)"
    and local: "read m r = Some (v, A) \<Longrightarrow> (\<And>a. a \<in> A \<Longrightarrow> cells m' a = cells m a) \<Longrightarrow>
      read m' r = Some (v, A)"
begin

lemma below: "valid m \<Longrightarrow> read m r = Some (v, A) \<Longrightarrow> A \<subseteq> {..<limit m}"
  using allocated valid_below by fastforce

lemma kept:
  assumes "valid m" and "read m r = Some (v, A)" and "grows m m'"
  shows "read m' r = Some (v, A)"
proof (rule local [OF assms(2)])
  show "cells m' a = cells m a" if "a \<in> A" for a
    using that below [OF assms(1,2)] assms(3) by (auto simp: grows_def)
qed

text \<open>A write outside of what was read is not seen.\<close>

lemma store_outside:
  assumes "read m r = Some (v, A)" and "a \<notin> A"
  shows "read (store a c m) r = Some (v, A)"
proof (rule local [OF assms(1)])
  show "cells (store a c m) b = cells m b" if "b \<in> A" for b
    using that assms(2) by (cases "b = a") simp_all
qed

end

text \<open>A copy of \<open>r\<close> reads the same and lies in new cells, and what was there is as it was.\<close>

definition copies_of :: "('c, 'r, 'v) mem_reader \<Rightarrow> ('r \<Rightarrow> ('c, 'r) mem_op) \<Rightarrow> 'r \<Rightarrow> bool" where
  "copies_of read copy r \<longleftrightarrow>
     (\<forall>m v A. valid m \<longrightarrow> read m r = Some (v, A) \<longrightarrow>
        (\<exists>r' m' A'. copy r m = Some (r', m') \<and> grows m m' \<and> read m' r' = Some (v, A') \<and>
           A' \<subseteq> {limit m..<limit m'}))"

lemma copies_ofD:
  "copies_of read copy r \<Longrightarrow> valid m \<Longrightarrow> read m r = Some (v, A) \<Longrightarrow>
   \<exists>r' m' A'. copy r m = Some (r', m') \<and> grows m m' \<and> read m' r' = Some (v, A') \<and> A' \<subseteq> {limit m..<limit m'}"
  by (simp add: copies_of_def)

locale deep_copy = reader read
  for read :: "('c, 'r, 'v) mem_reader" +
  fixes copy :: "'r \<Rightarrow> ('c, 'r) mem_op"
  assumes copies: "copies_of read copy r"

text \<open>The consequence for its users: the copy reads the same, and neither can be changed through the other.\<close>

definition independent_copy ::
  "('r \<Rightarrow> ('c, 'r) mem_op) \<Rightarrow> ('c, 'r, 'v) mem_reader \<Rightarrow> bool" where
  "independent_copy copy read \<longleftrightarrow>
     (\<forall>m r v A. valid m \<longrightarrow> read m r = Some (v, A) \<longrightarrow>
        (\<exists>r' m' A'. copy r m = Some (r', m') \<and> valid m' \<and>
           read m' r = Some (v, A) \<and> read m' r' = Some (v, A') \<and> A \<inter> A' = {} \<and>
           (\<forall>a c. a \<notin> A \<longrightarrow> read (store a c m') r = Some (v, A)) \<and>
           (\<forall>a c. a \<notin> A' \<longrightarrow> read (store a c m') r' = Some (v, A'))))"

context deep_copy begin

lemma independent: "independent_copy copy read"
  unfolding independent_copy_def
proof (intro allI impI)
  fix m r v A
  assume m: "valid m" and orig: "read m r = Some (v, A)"
  obtain r' m' A' where cp: "copy r m = Some (r', m')" "grows m m'" "read m' r' = Some (v, A')"
    and new: "A' \<subseteq> {limit m..<limit m'}" using copies_ofD [OF copies m orig] by blast
  have "read m' r = Some (v, A)" using kept [OF m orig cp(2)] .
  moreover have "A \<inter> A' = {}" using below [OF m orig] new by fastforce
  ultimately show "\<exists>r' m' A'. copy r m = Some (r', m') \<and> valid m' \<and>
      read m' r = Some (v, A) \<and> read m' r' = Some (v, A') \<and> A \<inter> A' = {} \<and>
      (\<forall>a c. a \<notin> A \<longrightarrow> read (store a c m') r = Some (v, A)) \<and>
      (\<forall>a c. a \<notin> A' \<longrightarrow> read (store a c m') r' = Some (v, A'))"
    using cp grows_valid store_outside by (intro exI conjI allI impI) blast+
qed

end

section \<open>Parts and wholes\<close>

lemma reader_of: "deep_copy rd copy \<Longrightarrow> reader rd"
  by (simp add: deep_copy_def)

lemma deep_copy_plain: "deep_copy read_plain mem_return"
  by unfold_locales (auto simp: copies_of_def read_plain_def mem_return_def grows_refl)

text \<open>Two fields, one after the other.\<close>

definition copy_pair ::
  "('r \<Rightarrow> ('c, 'r) mem_op) \<Rightarrow> ('s \<Rightarrow> ('c, 's) mem_op) \<Rightarrow> 'r \<times> 's \<Rightarrow> ('c, 'r \<times> 's) mem_op" where
  "copy_pair c1 c2 r = mem_bind (c1 (fst r)) (\<lambda>x. mem_bind (c2 (snd r)) (\<lambda>y. mem_return (x, y)))"

lemma read_pair_Some:
  "read_pair rd1 rd2 m r = Some (v, A) \<longleftrightarrow>
   (\<exists>B C. rd1 m (fst r) = Some (fst v, B) \<and> rd2 m (snd r) = Some (snd v, C) \<and> A = B \<union> C)"
  by (auto simp: read_pair_def split: option.splits)

lemma reader_pair:
  assumes "reader rd1" and "reader rd2"
  shows "reader (read_pair rd1 rd2)"
proof
  fix m r v A
  assume "read_pair rd1 rd2 m r = Some (v, A)"
  then obtain B C where parts: "rd1 m (fst r) = Some (fst v, B)" "rd2 m (snd r) = Some (snd v, C)"
    and A: "A = B \<union> C" by (auto simp: read_pair_Some)
  show "A \<subseteq> dom (cells m)"
    using reader.allocated [OF assms(1) parts(1)] reader.allocated [OF assms(2) parts(2)] A by blast
  show "read_pair rd1 rd2 m' r = Some (v, A)" if "\<And>a. a \<in> A \<Longrightarrow> cells m' a = cells m a" for m'
    using reader.local [OF assms(1) parts(1), of m'] reader.local [OF assms(2) parts(2), of m'] that A
    by (auto simp: read_pair_Some)
qed

text \<open>One copy after another: both are new, and the first is still there.\<close>

lemma copy_then:
  assumes "reader rd1" and "reader rd2" and "copies_of rd1 c1 x" and "copies_of rd2 c2 y" and "valid m"
    and "rd1 m x = Some (v, B)" and "rd2 m y = Some (w, C)"
  shows "\<exists>x' y' m1 m2 B' C'. c1 x m = Some (x', m1) \<and> c2 y m1 = Some (y', m2) \<and> grows m m2 \<and>
    rd1 m2 x' = Some (v, B') \<and> rd2 m2 y' = Some (w, C') \<and> B' \<union> C' \<subseteq> {limit m..<limit m2}"
proof -
  obtain x' m1 B' where one: "c1 x m = Some (x', m1)" "grows m m1" "rd1 m1 x' = Some (v, B')"
    "B' \<subseteq> {limit m..<limit m1}" using copies_ofD [OF assms(3,5,6)] by blast
  have "rd2 m1 y = Some (w, C)" by (rule reader.kept [OF assms(2,5,7) one(2)])
  then obtain y' m2 C' where two: "c2 y m1 = Some (y', m2)" "grows m1 m2" "rd2 m2 y' = Some (w, C')"
    "C' \<subseteq> {limit m1..<limit m2}" using copies_ofD [OF assms(4) grows_valid [OF one(2)]] by blast
  have "rd1 m2 x' = Some (v, B')"
    by (rule reader.kept [OF assms(1) grows_valid [OF one(2)] one(3) two(2)])
  moreover have "B' \<union> C' \<subseteq> {limit m..<limit m2}" using one(2,4) two(2,4) by (fastforce simp: grows_def)
  ultimately show ?thesis using one(1) two(1,3) grows_trans [OF one(2) two(2)] by blast
qed

lemma copies_of_pair:
  assumes "reader rd1" and "reader rd2" and "copies_of rd1 c1 x" and "copies_of rd2 c2 y"
  shows "copies_of (read_pair rd1 rd2) (copy_pair c1 c2) (x, y)"
  unfolding copies_of_def
proof (intro allI impI)
  fix m v A
  assume m: "valid m" and "read_pair rd1 rd2 m (x, y) = Some (v, A)"
  then obtain B C where parts: "rd1 m x = Some (fst v, B)" "rd2 m y = Some (snd v, C)"
    by (auto simp: read_pair_Some)
  from copy_then [OF assms m parts]
  obtain x' y' m1 m2 B' C' where "c1 x m = Some (x', m1)" "c2 y m1 = Some (y', m2)" "grows m m2"
    "rd1 m2 x' = Some (fst v, B')" "rd2 m2 y' = Some (snd v, C')" "B' \<union> C' \<subseteq> {limit m..<limit m2}"
    by (elim exE conjE)
  then show "\<exists>r' m' A'. copy_pair c1 c2 (x, y) m = Some (r', m') \<and> grows m m' \<and>
      read_pair rd1 rd2 m' r' = Some (v, A') \<and> A' \<subseteq> {limit m..<limit m'}"
    by (intro exI [of _ "(x', y')"] exI [of _ m2] exI [of _ "B' \<union> C'"])
      (auto simp: copy_pair_def mem_bind_def mem_return_def read_pair_Some)
qed

lemma deep_copyI: "reader rd \<Longrightarrow> (\<And>r. copies_of rd copy r) \<Longrightarrow> deep_copy rd copy"
  by (simp add: deep_copy_def deep_copy_axioms_def)

lemma deep_copy_pair:
  assumes "deep_copy rd1 c1" and "deep_copy rd2 c2"
  shows "deep_copy (read_pair rd1 rd2) (copy_pair c1 c2)"
proof (rule deep_copyI)
  show "reader (read_pair rd1 rd2)" by (rule reader_pair [OF reader_of [OF assms(1)] reader_of [OF assms(2)]])
  show "copies_of (read_pair rd1 rd2) (copy_pair c1 c2) r" for r
    using copies_of_pair [OF reader_of [OF assms(1)] reader_of [OF assms(2)]]
      deep_copy.copies [OF assms(1)] deep_copy.copies [OF assms(2)] by (cases r) simp
qed

text \<open>A struct whose reference fields \<open>get\<close> reads and \<open>put\<close> replaces.\<close>

lemma read_as_Some:
  "read_as get mk rd m s = Some (u, A) \<longleftrightarrow> (\<exists>v. rd m (get s) = Some (v, A) \<and> u = mk s v)"
  by (auto simp: read_as_def split: option.splits)

lemma reader_as:
  assumes "reader rd"
  shows "reader (read_as get mk rd)"
  by unfold_locales (auto simp: read_as_Some dest: reader.allocated [OF assms] intro: reader.local [OF assms])

lemma deep_copy_fields:
  assumes "deep_copy rd copy" and "\<And>s x. get (put s x) = x" and "\<And>s x v. mk (put s x) v = mk s v"
  shows "deep_copy (read_as get mk rd) (\<lambda>s. mem_bind (copy (get s)) (\<lambda>x. mem_return (put s x)))"
proof (rule deep_copyI [OF reader_as [OF reader_of [OF assms(1)]]], unfold copies_of_def, intro allI impI)
  fix m s u A
  assume m: "valid m" and "read_as get mk rd m s = Some (u, A)"
  then obtain v where v: "rd m (get s) = Some (v, A)" "u = mk s v" by (auto simp: read_as_Some)
  obtain x m' A' where "copy (get s) m = Some (x, m')" "grows m m'" "rd m' x = Some (v, A')"
    "A' \<subseteq> {limit m..<limit m'}" using copies_ofD [OF deep_copy.copies [OF assms(1)] m v(1)] by blast
  then show "\<exists>s' m' A'. mem_bind (copy (get s)) (\<lambda>x. mem_return (put s x)) m = Some (s', m') \<and> grows m m' \<and>
      read_as get mk rd m' s' = Some (u, A') \<and> A' \<subseteq> {limit m..<limit m'}"
    using assms(2,3) v(2)
    by (intro exI [of _ "put s x"] exI [of _ m'] exI [of _ A']) (simp add: mem_bind_def mem_return_def read_as_def)
qed

lemma deep_copy_struct:
  assumes "deep_copy rd copy" and "\<And>s x. get (put s x) = x" and "\<And>s x v. mk (put s x) v = mk s v"
    and "\<And>s. copy_struct s = mem_bind (copy (get s)) (\<lambda>x. mem_return (put s x))"
  shows "deep_copy (read_as get mk rd) copy_struct"
proof -
  have "copy_struct = (\<lambda>s. mem_bind (copy (get s)) (\<lambda>x. mem_return (put s x)))" using assms(4) by (rule ext)
  then show ?thesis using deep_copy_fields [of rd copy get put mk, OF assms(1-3)] by simp
qed

text \<open>Elements, one after the other.\<close>

lemma read_each_Cons_Some:
  "read_each rd m (x # xs) = Some (vs, A) \<longleftrightarrow>
   (\<exists>p. read_pair rd (read_each rd) m (x, xs) = Some (p, A) \<and> vs = fst p # snd p)"
  by (auto simp: read_pair_def split: option.splits)

lemma copy_each_Cons:
  "copy_each copy (x # xs) m =
   (case copy_pair copy (copy_each copy) (x, xs) m of None \<Rightarrow> None | Some (p, m') \<Rightarrow> Some (fst p # snd p, m'))"
  by (simp add: copy_pair_def mem_bind_def mem_return_def split: option.split prod.split)

lemma reader_each:
  assumes "reader rd"
  shows "reader (read_each rd)"
proof
  fix m xs vs A
  show "A \<subseteq> dom (cells m)" if "read_each rd m xs = Some (vs, A)"
    using that
  proof (induction xs arbitrary: vs A)
    case (Cons x xs)
    then show ?case
      using reader.allocated [OF assms] unfolding read_each_Cons_Some read_pair_Some by fastforce
  qed simp
  show "read_each rd m' xs = Some (vs, A)"
    if "read_each rd m xs = Some (vs, A)" and "\<And>a. a \<in> A \<Longrightarrow> cells m' a = cells m a" for m'
    using that
  proof (induction xs arbitrary: vs A)
    case (Cons x xs)
    obtain v ws B C where parts: "rd m x = Some (v, B)" "read_each rd m xs = Some (ws, C)"
      and whole: "vs = v # ws" "A = B \<union> C" using Cons.prems(1) unfolding read_each_Cons_Some read_pair_Some by auto
    have "rd m' x = Some (v, B)" by (rule reader.local [OF assms parts(1)]) (use Cons.prems(2) whole in blast)
    moreover have "read_each rd m' xs = Some (ws, C)"
      by (rule Cons.IH [OF parts(2)]) (use Cons.prems(2) whole in blast)
    ultimately show ?case using whole by simp
  qed simp
qed

lemma copies_of_each:
  assumes "deep_copy rd copy"
  shows "copies_of (read_each rd) (copy_each copy) xs"
proof (induction xs)
  case Nil
  then show ?case by (simp add: copies_of_def mem_return_def grows_refl)
next
  case (Cons x xs)
  have pair: "copies_of (read_pair rd (read_each rd)) (copy_pair copy (copy_each copy)) (x, xs)"
    using copies_of_pair [OF reader_of [OF assms] reader_each [OF reader_of [OF assms]]
        deep_copy.copies [OF assms] Cons.IH] .
  show ?case
    unfolding copies_of_def
  proof (intro allI impI)
    fix m vs A
    assume m: "valid m" and "read_each rd m (x # xs) = Some (vs, A)"
    then obtain p where p: "read_pair rd (read_each rd) m (x, xs) = Some (p, A)" "vs = fst p # snd p"
      unfolding read_each_Cons_Some by blast
    obtain q m' A' where "copy_pair copy (copy_each copy) (x, xs) m = Some (q, m')" "grows m m'"
      "read_pair rd (read_each rd) m' q = Some (p, A')" "A' \<subseteq> {limit m..<limit m'}"
      using copies_ofD [OF pair m p(1)] by blast
    moreover from this have "read_each rd m' (fst q # snd q) = Some (vs, A')"
      unfolding read_each_Cons_Some using p(2) by simp
    ultimately show "\<exists>ys m' A'. copy_each copy (x # xs) m = Some (ys, m') \<and> grows m m' \<and>
        read_each rd m' ys = Some (vs, A') \<and> A' \<subseteq> {limit m..<limit m'}"
      unfolding copy_each_Cons by (intro exI [of _ "fst q # snd q"] exI [of _ m'] exI [of _ A']) simp
  qed
qed

lemma deep_copy_each: "deep_copy rd copy \<Longrightarrow> deep_copy (read_each rd) (copy_each copy)"
  by (rule deep_copyI [OF reader_each [OF reader_of] copies_of_each])

text \<open>Through a pointer.\<close>

lemma read_pointer_None: "read_pointer unwrap rd m None = Some (None, {})"
  by (simp add: read_pointer_def)

lemma read_pointer_Some:
  "read_pointer unwrap rd m (Some a) = Some (v, A) \<longleftrightarrow>
   (\<exists>x u B. load unwrap a m = Some x \<and> rd m x = Some (u, B) \<and> v = Some u \<and> A = insert a B)"
  by (auto simp: read_pointer_def split: option.splits)

lemma reader_pointer:
  assumes "reader rd"
  shows "reader (read_pointer unwrap rd)"
proof
  fix m p v A
  assume read: "read_pointer unwrap rd m p = Some (v, A)"
  show "A \<subseteq> dom (cells m)"
    using read load_Some_cell reader.allocated [OF assms]
    by (cases p) (fastforce simp: read_pointer_None read_pointer_Some)+
  show "read_pointer unwrap rd m' p = Some (v, A)" if same: "\<And>a. a \<in> A \<Longrightarrow> cells m' a = cells m a" for m'
  proof (cases p)
    case (Some a)
    then obtain x u B where at: "load unwrap a m = Some x" "rd m x = Some (u, B)" "v = Some u" "A = insert a B"
      using read by (auto simp: read_pointer_Some)
    have "rd m' x = Some (u, B)" by (rule reader.local [OF assms at(2)]) (use same at in blast)
    moreover have "load unwrap a m' = Some x" using load_cong [OF same] at by (metis insertI1)
    ultimately show ?thesis using Some at by (simp add: read_pointer_Some)
  qed (use read in \<open>simp add: read_pointer_None\<close>)
qed

text \<open>A new cell, and a copy made after it that is then put into it.\<close>

lemma copy_into_new:
  assumes "reader rd" and "copies_of rd copy x" and "valid m" and "rd m x = Some (v, A)"
  shows "\<exists>y m' A'. copy x (alloc c m) = Some (y, m') \<and> grows m (store (limit m) (c' y) m') \<and>
    rd (store (limit m) (c' y) m') y = Some (v, A') \<and> insert (limit m) A' \<subseteq> {limit m..<limit m'}"
proof -
  have grow: "grows m (alloc c m)" by (rule grows_alloc [OF assms(3)])
  have "rd (alloc c m) x = Some (v, A)" by (rule reader.kept [OF assms(1,3,4) grow])
  then obtain y m' A' where cp: "copy x (alloc c m) = Some (y, m')" "grows (alloc c m) m'" "rd m' y = Some (v, A')"
    and new: "A' \<subseteq> {limit (alloc c m)..<limit m'}"
    using copies_ofD [OF assms(2) grows_valid [OF grow]] by blast
  have "limit m \<notin> A'" using new by auto
  then have "rd (store (limit m) (c' y) m') y = Some (v, A')"
    by (rule reader.store_outside [OF assms(1) cp(3)])
  moreover have "insert (limit m) A' \<subseteq> {limit m..<limit m'}" using new cp(2) by (auto simp: grows_def)
  ultimately show ?thesis using cp grows_store_new [OF cp(2) assms(3)] by blast
qed

lemma deep_copy_pointer:
  assumes "deep_copy rd copy" and "\<And>x. unwrap (wrap x) = Some x"
  shows "deep_copy (read_pointer unwrap rd) (copy_pointer wrap unwrap copy)"
proof (rule deep_copyI [OF reader_pointer [OF reader_of [OF assms(1)]]], unfold copies_of_def, intro allI impI)
  fix p m v A
  assume m: "valid m" and read: "read_pointer unwrap rd m p = Some (v, A)"
  show "\<exists>q m' A'. copy_pointer wrap unwrap copy p m = Some (q, m') \<and> grows m m' \<and>
      read_pointer unwrap rd m' q = Some (v, A') \<and> A' \<subseteq> {limit m..<limit m'}"
  proof (cases p)
    case None
    then show ?thesis using m read by (simp add: copy_pointer_def grows_refl read_pointer_None)
  next
    case (Some a)
    then obtain x u B where at: "load unwrap a m = Some x" "rd m x = Some (u, B)" "v = Some u"
      using read by (auto simp: read_pointer_Some)
    from copy_into_new [OF reader_of [OF assms(1)] deep_copy.copies [OF assms(1)] m at(2), of "wrap x" wrap]
    obtain y m' A' where "copy x (alloc (wrap x) m) = Some (y, m')" "grows m (store (limit m) (wrap y) m')"
      "rd (store (limit m) (wrap y) m') y = Some (u, A')" "insert (limit m) A' \<subseteq> {limit m..<limit m'}"
      by (elim exE conjE)
    then show ?thesis
      using Some at assms(2)
      by (intro exI [of _ "Some (limit m)"] exI [of _ "store (limit m) (wrap y) m'"] exI [of _ "insert (limit m) A'"])
        (simp add: copy_pointer_def read_pointer_Some load_def)
  qed
qed

lemma copy_each_length: "copy_each copy xs m = Some (ys, m') \<Longrightarrow> length ys = length xs"
  by (induction xs arbitrary: ys m m') (auto simp: mem_bind_def mem_return_def split: option.splits prod.splits)

text \<open>Through a slice.\<close>

lemma read_slice_Nil: "read_slice unwrap rd m NilSlice = Some ([], {})"
  by (simp add: read_slice_def)

lemma read_slice_Some:
  "read_slice unwrap rd m (Slice a off len) = Some (vs, A) \<longleftrightarrow>
   (\<exists>xs B. slice_elements unwrap a off len m = Some xs \<and> read_each rd m xs = Some (vs, B) \<and> A = insert a B)"
  by (auto simp: read_slice_def split: option.splits)

lemma slice_elements_cell: "slice_elements unwrap a off len m = Some xs \<Longrightarrow> a \<in> dom (cells m) \<and> length xs = len"
  by (auto simp: slice_elements_def dest: load_Some_cell split: option.splits if_splits)

lemma slice_elements_cong: "cells m' a = cells m a \<Longrightarrow> slice_elements unwrap a off len m' = slice_elements unwrap a off len m"
  by (simp add: slice_elements_def load_def)

lemma reader_slice:
  assumes "reader rd"
  shows "reader (read_slice unwrap rd)"
proof
  note each = reader_each [OF assms]
  fix m s vs A
  assume read: "read_slice unwrap rd m s = Some (vs, A)"
  show "A \<subseteq> dom (cells m)"
    using read slice_elements_cell reader.allocated [OF each]
    by (cases s) (fastforce simp: read_slice_Nil read_slice_Some)+
  show "read_slice unwrap rd m' s = Some (vs, A)" if same: "\<And>a. a \<in> A \<Longrightarrow> cells m' a = cells m a" for m'
  proof (cases s)
    case (Slice a off len)
    then obtain xs B where at: "slice_elements unwrap a off len m = Some xs" "read_each rd m xs = Some (vs, B)"
      "A = insert a B" using read by (auto simp: read_slice_Some)
    have "read_each rd m' xs = Some (vs, B)" by (rule reader.local [OF each at(2)]) (use same at in blast)
    moreover have "slice_elements unwrap a off len m' = Some xs" using slice_elements_cong [OF same] at by (metis insertI1)
    ultimately show ?thesis using Slice at by (simp add: read_slice_Some)
  qed (use read in \<open>simp add: read_slice_Nil\<close>)
qed

lemma deep_copy_slice:
  assumes "deep_copy rd copy" and "\<And>xs. unwrap (wrap xs) = Some xs"
  shows "deep_copy (read_slice unwrap rd) (copy_slice wrap unwrap copy)"
proof (rule deep_copyI [OF reader_slice [OF reader_of [OF assms(1)]]], unfold copies_of_def, intro allI impI)
  note each = deep_copy_each [OF assms(1)]
  fix s m vs A
  assume m: "valid m" and read: "read_slice unwrap rd m s = Some (vs, A)"
  show "\<exists>t m' A'. copy_slice wrap unwrap copy s m = Some (t, m') \<and> grows m m' \<and>
      read_slice unwrap rd m' t = Some (vs, A') \<and> A' \<subseteq> {limit m..<limit m'}"
  proof (cases s)
    case NilSlice
    then show ?thesis using m read by (simp add: copy_slice_def grows_refl read_slice_Nil)
  next
    case (Slice a off len)
    then obtain xs B where at: "slice_elements unwrap a off len m = Some xs" "read_each rd m xs = Some (vs, B)"
      using read by (auto simp: read_slice_Some)
    from copy_into_new [OF reader_of [OF each] deep_copy.copies [OF each] m at(2), of "wrap xs" wrap]
    obtain ys m' A' where cp: "copy_each copy xs (alloc (wrap xs) m) = Some (ys, m')"
      "grows m (store (limit m) (wrap ys) m')" "read_each rd (store (limit m) (wrap ys) m') ys = Some (vs, A')"
      "insert (limit m) A' \<subseteq> {limit m..<limit m'}" by (elim exE conjE)
    have "length ys = len"
      using copy_each_length [OF cp(1)] slice_elements_cell [OF at(1)] by simp
    then have "slice_elements unwrap (limit m) 0 len (store (limit m) (wrap ys) m') = Some ys"
      using assms(2) by (simp add: slice_elements_def load_def)
    then show ?thesis
      using Slice at cp
      by (intro exI [of _ "Slice (limit m) 0 len"] exI [of _ "store (limit m) (wrap ys) m'"]
          exI [of _ "insert (limit m) A'"]) (simp add: copy_slice_def read_slice_Some)
  qed
qed

end
