(* ===== verification/Deep_Copy_Types.thy ===== *)
theory Deep_Copy_Types
  imports Deep_Copy Api_Types
begin

text \<open>
  The structs of \<open>api/v1alpha1\<close> as they lie in memory, with references where the Go structs have
  pointers and slices, and the \<open>DeepCopyInto\<close>, \<open>DeepCopy\<close> and \<open>DeepCopyObject\<close> methods that
  \<open>zz_generated.deepcopy.go\<close> gives them.  Reading a struct through its references gives the struct of
  \<open>Api_Types\<close>.
\<close>

section \<open>The structs in memory\<close>

record TypeMeta =
  tm_Kind :: string
  tm_APIVersion :: string

record m_DeleteOptions =
  md_GracePeriodSeconds :: "nat option"
  md_PropagationPolicy :: "nat option"

record m_ResourceSelector =
  ms_Namespace :: string
  ms_NamespaceSelector :: string
  ms_Group :: string
  ms_Version :: string
  ms_Kind :: string
  ms_LabelFilters :: slice
  ms_Evaluate :: string
  ms_ExcludeDeleted :: bool

record m_ResourcePolicySet =
  mp_ResourceSelectors :: slice
  mp_AggregatedSelection :: string

record m_Notification =
  mn_Name :: string
  mn_Type :: NotificationType
  mn_NotificationRef :: "nat option"

record m_CleanerSpec =
  mc_ResourcePolicySet :: m_ResourcePolicySet
  mc_Action :: Action
  mc_DeleteOptions :: "nat option"
  mc_Transform :: string
  mc_Schedule :: string
  mc_StartingDeadlineSeconds :: "nat option"
  mc_Notifications :: slice
  mc_StoreResourcePath :: string

record m_CleanerStatus =
  mt_NextScheduleTime :: "nat option"
  mt_LastRunTime :: "nat option"
  mt_FailureMessage :: "nat option"

text \<open>The metadata of an object and of a list are structs of a library, \<open>'m\<close> and \<open>'l\<close>.\<close>

record 'm m_Cleaner =
  mx_TypeMeta :: TypeMeta
  mx_ObjectMeta :: 'm
  mx_Spec :: m_CleanerSpec
  mx_Status :: m_CleanerStatus

record 'l m_CleanerList =
  ml_TypeMeta :: TypeMeta
  ml_ListMeta :: 'l
  ml_Items :: slice

record m_ResourceInfo =
  mi_Resource :: ObjectReference
  mi_FullResource :: slice
  mi_Message :: string

record m_ReportSpec =
  mr_ResourceInfo :: slice
  mr_Action :: Action

record 'm m_Report =
  my_TypeMeta :: TypeMeta
  my_ObjectMeta :: 'm
  my_Spec :: m_ReportSpec

record 'l m_ReportList =
  mz_TypeMeta :: TypeMeta
  mz_ListMeta :: 'l
  mz_Items :: slice

text \<open>What a cell can hold: a variable a pointer points to, an array, or something of the library's.\<close>

datatype ('m, 'l, 'x) cell =
    Cell_int64 int64
  | Cell_string string
  | Cell_Time time
  | Cell_ObjectReference ObjectReference
  | Cell_DeleteOptions m_DeleteOptions
  | Cell_ResourceSelector m_ResourceSelector
  | Cell_ResourcePolicySet m_ResourcePolicySet
  | Cell_Notification m_Notification
  | Cell_CleanerSpec m_CleanerSpec
  | Cell_CleanerStatus m_CleanerStatus
  | Cell_Cleaner "'m m_Cleaner"
  | Cell_CleanerList "'l m_CleanerList"
  | Cell_ResourceInfo m_ResourceInfo
  | Cell_ReportSpec m_ReportSpec
  | Cell_Report "'m m_Report"
  | Cell_ReportList "'l m_ReportList"
  | Cells_byte "char list"
  | Cells_LabelFilter "LabelFilter list"
  | Cells_ResourceSelector "m_ResourceSelector list"
  | Cells_Notification "m_Notification list"
  | Cells_Cleaner "'m m_Cleaner list"
  | Cells_ResourceInfo "m_ResourceInfo list"
  | Cells_Report "'m m_Report list"
  | Cell_other 'x

text \<open>Reading a cell of a given kind.\<close>

definition un_int64 :: "('m, 'l, 'x) cell \<Rightarrow> (int64) option" where
  "un_int64 c = (case c of Cell_int64 x \<Rightarrow> Some x | _ \<Rightarrow> None)"

definition un_string :: "('m, 'l, 'x) cell \<Rightarrow> (string) option" where
  "un_string c = (case c of Cell_string x \<Rightarrow> Some x | _ \<Rightarrow> None)"

definition un_Time :: "('m, 'l, 'x) cell \<Rightarrow> (time) option" where
  "un_Time c = (case c of Cell_Time x \<Rightarrow> Some x | _ \<Rightarrow> None)"

definition un_ObjectReference :: "('m, 'l, 'x) cell \<Rightarrow> (ObjectReference) option" where
  "un_ObjectReference c = (case c of Cell_ObjectReference x \<Rightarrow> Some x | _ \<Rightarrow> None)"

definition un_DeleteOptions :: "('m, 'l, 'x) cell \<Rightarrow> (m_DeleteOptions) option" where
  "un_DeleteOptions c = (case c of Cell_DeleteOptions x \<Rightarrow> Some x | _ \<Rightarrow> None)"

definition un_ResourceSelector :: "('m, 'l, 'x) cell \<Rightarrow> (m_ResourceSelector) option" where
  "un_ResourceSelector c = (case c of Cell_ResourceSelector x \<Rightarrow> Some x | _ \<Rightarrow> None)"

definition un_ResourcePolicySet :: "('m, 'l, 'x) cell \<Rightarrow> (m_ResourcePolicySet) option" where
  "un_ResourcePolicySet c = (case c of Cell_ResourcePolicySet x \<Rightarrow> Some x | _ \<Rightarrow> None)"

definition un_Notification :: "('m, 'l, 'x) cell \<Rightarrow> (m_Notification) option" where
  "un_Notification c = (case c of Cell_Notification x \<Rightarrow> Some x | _ \<Rightarrow> None)"

definition un_CleanerSpec :: "('m, 'l, 'x) cell \<Rightarrow> (m_CleanerSpec) option" where
  "un_CleanerSpec c = (case c of Cell_CleanerSpec x \<Rightarrow> Some x | _ \<Rightarrow> None)"

definition un_CleanerStatus :: "('m, 'l, 'x) cell \<Rightarrow> (m_CleanerStatus) option" where
  "un_CleanerStatus c = (case c of Cell_CleanerStatus x \<Rightarrow> Some x | _ \<Rightarrow> None)"

definition un_Cleaner :: "('m, 'l, 'x) cell \<Rightarrow> ('m m_Cleaner) option" where
  "un_Cleaner c = (case c of Cell_Cleaner x \<Rightarrow> Some x | _ \<Rightarrow> None)"

definition un_CleanerList :: "('m, 'l, 'x) cell \<Rightarrow> ('l m_CleanerList) option" where
  "un_CleanerList c = (case c of Cell_CleanerList x \<Rightarrow> Some x | _ \<Rightarrow> None)"

definition un_ResourceInfo :: "('m, 'l, 'x) cell \<Rightarrow> (m_ResourceInfo) option" where
  "un_ResourceInfo c = (case c of Cell_ResourceInfo x \<Rightarrow> Some x | _ \<Rightarrow> None)"

definition un_ReportSpec :: "('m, 'l, 'x) cell \<Rightarrow> (m_ReportSpec) option" where
  "un_ReportSpec c = (case c of Cell_ReportSpec x \<Rightarrow> Some x | _ \<Rightarrow> None)"

definition un_Report :: "('m, 'l, 'x) cell \<Rightarrow> ('m m_Report) option" where
  "un_Report c = (case c of Cell_Report x \<Rightarrow> Some x | _ \<Rightarrow> None)"

definition un_ReportList :: "('m, 'l, 'x) cell \<Rightarrow> ('l m_ReportList) option" where
  "un_ReportList c = (case c of Cell_ReportList x \<Rightarrow> Some x | _ \<Rightarrow> None)"

definition un_array_byte :: "('m, 'l, 'x) cell \<Rightarrow> (char list) option" where
  "un_array_byte c = (case c of Cells_byte x \<Rightarrow> Some x | _ \<Rightarrow> None)"

definition un_array_LabelFilter :: "('m, 'l, 'x) cell \<Rightarrow> (LabelFilter list) option" where
  "un_array_LabelFilter c = (case c of Cells_LabelFilter x \<Rightarrow> Some x | _ \<Rightarrow> None)"

definition un_array_ResourceSelector :: "('m, 'l, 'x) cell \<Rightarrow> (m_ResourceSelector list) option" where
  "un_array_ResourceSelector c = (case c of Cells_ResourceSelector x \<Rightarrow> Some x | _ \<Rightarrow> None)"

definition un_array_Notification :: "('m, 'l, 'x) cell \<Rightarrow> (m_Notification list) option" where
  "un_array_Notification c = (case c of Cells_Notification x \<Rightarrow> Some x | _ \<Rightarrow> None)"

definition un_array_Cleaner :: "('m, 'l, 'x) cell \<Rightarrow> ('m m_Cleaner list) option" where
  "un_array_Cleaner c = (case c of Cells_Cleaner x \<Rightarrow> Some x | _ \<Rightarrow> None)"

definition un_array_ResourceInfo :: "('m, 'l, 'x) cell \<Rightarrow> (m_ResourceInfo list) option" where
  "un_array_ResourceInfo c = (case c of Cells_ResourceInfo x \<Rightarrow> Some x | _ \<Rightarrow> None)"

definition un_array_Report :: "('m, 'l, 'x) cell \<Rightarrow> ('m m_Report list) option" where
  "un_array_Report c = (case c of Cells_Report x \<Rightarrow> Some x | _ \<Rightarrow> None)"

lemma un_cell [simp]:
  "un_int64 (Cell_int64 x1) = Some x1"
  "un_string (Cell_string x2) = Some x2"
  "un_Time (Cell_Time x3) = Some x3"
  "un_ObjectReference (Cell_ObjectReference x4) = Some x4"
  "un_DeleteOptions (Cell_DeleteOptions x5) = Some x5"
  "un_ResourceSelector (Cell_ResourceSelector x6) = Some x6"
  "un_ResourcePolicySet (Cell_ResourcePolicySet x7) = Some x7"
  "un_Notification (Cell_Notification x8) = Some x8"
  "un_CleanerSpec (Cell_CleanerSpec x9) = Some x9"
  "un_CleanerStatus (Cell_CleanerStatus x10) = Some x10"
  "un_Cleaner (Cell_Cleaner x11) = Some x11"
  "un_CleanerList (Cell_CleanerList x12) = Some x12"
  "un_ResourceInfo (Cell_ResourceInfo x13) = Some x13"
  "un_ReportSpec (Cell_ReportSpec x14) = Some x14"
  "un_Report (Cell_Report x15) = Some x15"
  "un_ReportList (Cell_ReportList x16) = Some x16"
  "un_array_byte (Cells_byte x17) = Some x17"
  "un_array_LabelFilter (Cells_LabelFilter x18) = Some x18"
  "un_array_ResourceSelector (Cells_ResourceSelector x19) = Some x19"
  "un_array_Notification (Cells_Notification x20) = Some x20"
  "un_array_Cleaner (Cells_Cleaner x21) = Some x21"
  "un_array_ResourceInfo (Cells_ResourceInfo x22) = Some x22"
  "un_array_Report (Cells_Report x23) = Some x23"
  by (simp_all add: un_int64_def un_string_def un_Time_def un_ObjectReference_def
      un_DeleteOptions_def un_ResourceSelector_def un_ResourcePolicySet_def un_Notification_def
      un_CleanerSpec_def un_CleanerStatus_def un_Cleaner_def un_CleanerList_def
      un_ResourceInfo_def un_ReportSpec_def un_Report_def un_ReportList_def un_array_byte_def
      un_array_LabelFilter_def un_array_ResourceSelector_def un_array_Notification_def
      un_array_Cleaner_def un_array_ResourceInfo_def un_array_Report_def)

section \<open>The copies\<close>

type_synonym ('m, 'l, 'x, 'a) copied = "(('m, 'l, 'x) cell, 'a) mem_op"

text \<open>The methods of the library's structs: metadata, and \<open>metav1.Time\<close> through its pointer.\<close>

record ('m, 'l, 'x) library =
  ObjectMeta_DeepCopyInto :: "'m \<Rightarrow> ('m, 'l, 'x, 'm) copied"
  ListMeta_DeepCopyInto :: "'l \<Rightarrow> ('m, 'l, 'x, 'l) copied"
  Time_DeepCopy :: "nat option \<Rightarrow> ('m, 'l, 'x, nat option) copied"

text \<open>
  A method \<open>in.DeepCopyInto(out)\<close> begins with \<open>*out = *in\<close>; its model takes what \<open>in\<close> points to and
  returns what \<open>out\<close> then points to, with the reference fields replaced in the order of the code.
\<close>

definition DeepCopyInto_DeleteOptions :: "m_DeleteOptions \<Rightarrow> ('m, 'l, 'x, m_DeleteOptions) copied" where
  "DeepCopyInto_DeleteOptions i =
     mem_bind (copy_pointer Cell_int64 un_int64 mem_return (md_GracePeriodSeconds i)) (\<lambda>seconds.
     mem_bind (copy_pointer Cell_string un_string mem_return (md_PropagationPolicy i)) (\<lambda>policy.
       mem_return (i\<lparr>md_GracePeriodSeconds := seconds, md_PropagationPolicy := policy\<rparr>)))"

definition DeepCopyInto_ResourceSelector :: "m_ResourceSelector \<Rightarrow> ('m, 'l, 'x, m_ResourceSelector) copied" where
  "DeepCopyInto_ResourceSelector i =
     mem_bind (copy_slice Cells_LabelFilter un_array_LabelFilter mem_return (ms_LabelFilters i)) (\<lambda>filters.
       mem_return (i\<lparr>ms_LabelFilters := filters\<rparr>))"

definition DeepCopyInto_ResourcePolicySet :: "m_ResourcePolicySet \<Rightarrow> ('m, 'l, 'x, m_ResourcePolicySet) copied"
  where
  "DeepCopyInto_ResourcePolicySet i =
     mem_bind (copy_slice Cells_ResourceSelector un_array_ResourceSelector DeepCopyInto_ResourceSelector
       (mp_ResourceSelectors i)) (\<lambda>selectors.
       mem_return (i\<lparr>mp_ResourceSelectors := selectors\<rparr>))"

definition DeepCopyInto_Notification :: "m_Notification \<Rightarrow> ('m, 'l, 'x, m_Notification) copied" where
  "DeepCopyInto_Notification i =
     mem_bind (copy_pointer Cell_ObjectReference un_ObjectReference mem_return (mn_NotificationRef i)) (\<lambda>ref.
       mem_return (i\<lparr>mn_NotificationRef := ref\<rparr>))"

definition DeepCopyInto_CleanerSpec :: "m_CleanerSpec \<Rightarrow> ('m, 'l, 'x, m_CleanerSpec) copied" where
  "DeepCopyInto_CleanerSpec i =
     mem_bind (DeepCopyInto_ResourcePolicySet (mc_ResourcePolicySet i)) (\<lambda>policy.
     mem_bind (copy_pointer Cell_DeleteOptions un_DeleteOptions DeepCopyInto_DeleteOptions (mc_DeleteOptions i))
       (\<lambda>options.
     mem_bind (copy_pointer Cell_int64 un_int64 mem_return (mc_StartingDeadlineSeconds i)) (\<lambda>deadline.
     mem_bind (copy_slice Cells_Notification un_array_Notification DeepCopyInto_Notification (mc_Notifications i))
       (\<lambda>notifications.
       mem_return (i\<lparr>mc_ResourcePolicySet := policy, mc_DeleteOptions := options,
         mc_StartingDeadlineSeconds := deadline, mc_Notifications := notifications\<rparr>)))))"

definition DeepCopyInto_CleanerStatus ::
  "('m, 'l, 'x) library \<Rightarrow> m_CleanerStatus \<Rightarrow> ('m, 'l, 'x, m_CleanerStatus) copied" where
  "DeepCopyInto_CleanerStatus lib i =
     mem_bind (Time_DeepCopy lib (mt_NextScheduleTime i)) (\<lambda>schedule.
     mem_bind (Time_DeepCopy lib (mt_LastRunTime i)) (\<lambda>run.
     mem_bind (copy_pointer Cell_string un_string mem_return (mt_FailureMessage i)) (\<lambda>message.
       mem_return (i\<lparr>mt_NextScheduleTime := schedule, mt_LastRunTime := run, mt_FailureMessage := message\<rparr>))))"

definition DeepCopyInto_Cleaner ::
  "('m, 'l, 'x) library \<Rightarrow> 'm m_Cleaner \<Rightarrow> ('m, 'l, 'x, 'm m_Cleaner) copied" where
  "DeepCopyInto_Cleaner lib i =
     mem_bind (ObjectMeta_DeepCopyInto lib (mx_ObjectMeta i)) (\<lambda>meta.
     mem_bind (DeepCopyInto_CleanerSpec (mx_Spec i)) (\<lambda>spec.
     mem_bind (DeepCopyInto_CleanerStatus lib (mx_Status i)) (\<lambda>status.
       mem_return (i\<lparr>mx_ObjectMeta := meta, mx_Spec := spec, mx_Status := status\<rparr>))))"

definition DeepCopyInto_CleanerList ::
  "('m, 'l, 'x) library \<Rightarrow> 'l m_CleanerList \<Rightarrow> ('m, 'l, 'x, 'l m_CleanerList) copied" where
  "DeepCopyInto_CleanerList lib i =
     mem_bind (ListMeta_DeepCopyInto lib (ml_ListMeta i)) (\<lambda>meta.
     mem_bind (copy_slice Cells_Cleaner un_array_Cleaner (DeepCopyInto_Cleaner lib) (ml_Items i)) (\<lambda>items.
       mem_return (i\<lparr>ml_ListMeta := meta, ml_Items := items\<rparr>)))"

definition DeepCopyInto_ResourceInfo :: "m_ResourceInfo \<Rightarrow> ('m, 'l, 'x, m_ResourceInfo) copied" where
  "DeepCopyInto_ResourceInfo i =
     mem_bind (copy_slice Cells_byte un_array_byte mem_return (mi_FullResource i)) (\<lambda>full.
       mem_return (i\<lparr>mi_FullResource := full\<rparr>))"

definition DeepCopyInto_ReportSpec :: "m_ReportSpec \<Rightarrow> ('m, 'l, 'x, m_ReportSpec) copied" where
  "DeepCopyInto_ReportSpec i =
     mem_bind (copy_slice Cells_ResourceInfo un_array_ResourceInfo DeepCopyInto_ResourceInfo (mr_ResourceInfo i))
       (\<lambda>info. mem_return (i\<lparr>mr_ResourceInfo := info\<rparr>))"

definition DeepCopyInto_Report ::
  "('m, 'l, 'x) library \<Rightarrow> 'm m_Report \<Rightarrow> ('m, 'l, 'x, 'm m_Report) copied" where
  "DeepCopyInto_Report lib i =
     mem_bind (ObjectMeta_DeepCopyInto lib (my_ObjectMeta i)) (\<lambda>meta.
     mem_bind (DeepCopyInto_ReportSpec (my_Spec i)) (\<lambda>spec.
       mem_return (i\<lparr>my_ObjectMeta := meta, my_Spec := spec\<rparr>)))"

definition DeepCopyInto_ReportList ::
  "('m, 'l, 'x) library \<Rightarrow> 'l m_ReportList \<Rightarrow> ('m, 'l, 'x, 'l m_ReportList) copied" where
  "DeepCopyInto_ReportList lib i =
     mem_bind (ListMeta_DeepCopyInto lib (mz_ListMeta i)) (\<lambda>meta.
     mem_bind (copy_slice Cells_Report un_array_Report (DeepCopyInto_Report lib) (mz_Items i)) (\<lambda>items.
       mem_return (i\<lparr>mz_ListMeta := meta, mz_Items := items\<rparr>)))"

text \<open>A method \<open>in.DeepCopy()\<close> takes a pointer and returns one to a new struct; nil gives nil.\<close>

definition DeepCopy_DeleteOptions :: "nat option \<Rightarrow> ('m, 'l, 'x, nat option) copied" where
  "DeepCopy_DeleteOptions = copy_pointer Cell_DeleteOptions un_DeleteOptions DeepCopyInto_DeleteOptions"

definition DeepCopy_ResourceSelector :: "nat option \<Rightarrow> ('m, 'l, 'x, nat option) copied" where
  "DeepCopy_ResourceSelector = copy_pointer Cell_ResourceSelector un_ResourceSelector DeepCopyInto_ResourceSelector"

definition DeepCopy_ResourcePolicySet :: "nat option \<Rightarrow> ('m, 'l, 'x, nat option) copied" where
  "DeepCopy_ResourcePolicySet =
     copy_pointer Cell_ResourcePolicySet un_ResourcePolicySet DeepCopyInto_ResourcePolicySet"

definition DeepCopy_Notification :: "nat option \<Rightarrow> ('m, 'l, 'x, nat option) copied" where
  "DeepCopy_Notification = copy_pointer Cell_Notification un_Notification DeepCopyInto_Notification"

definition DeepCopy_CleanerSpec :: "nat option \<Rightarrow> ('m, 'l, 'x, nat option) copied" where
  "DeepCopy_CleanerSpec = copy_pointer Cell_CleanerSpec un_CleanerSpec DeepCopyInto_CleanerSpec"

definition DeepCopy_CleanerStatus ::
  "('m, 'l, 'x) library \<Rightarrow> nat option \<Rightarrow> ('m, 'l, 'x, nat option) copied" where
  "DeepCopy_CleanerStatus lib =
     copy_pointer Cell_CleanerStatus un_CleanerStatus (DeepCopyInto_CleanerStatus lib)"

definition DeepCopy_Cleaner :: "('m, 'l, 'x) library \<Rightarrow> nat option \<Rightarrow> ('m, 'l, 'x, nat option) copied" where
  "DeepCopy_Cleaner lib = copy_pointer Cell_Cleaner un_Cleaner (DeepCopyInto_Cleaner lib)"

definition DeepCopy_CleanerList :: "('m, 'l, 'x) library \<Rightarrow> nat option \<Rightarrow> ('m, 'l, 'x, nat option) copied" where
  "DeepCopy_CleanerList lib = copy_pointer Cell_CleanerList un_CleanerList (DeepCopyInto_CleanerList lib)"

definition DeepCopy_ResourceInfo :: "nat option \<Rightarrow> ('m, 'l, 'x, nat option) copied" where
  "DeepCopy_ResourceInfo = copy_pointer Cell_ResourceInfo un_ResourceInfo DeepCopyInto_ResourceInfo"

definition DeepCopy_ReportSpec :: "nat option \<Rightarrow> ('m, 'l, 'x, nat option) copied" where
  "DeepCopy_ReportSpec = copy_pointer Cell_ReportSpec un_ReportSpec DeepCopyInto_ReportSpec"

definition DeepCopy_Report :: "('m, 'l, 'x) library \<Rightarrow> nat option \<Rightarrow> ('m, 'l, 'x, nat option) copied" where
  "DeepCopy_Report lib = copy_pointer Cell_Report un_Report (DeepCopyInto_Report lib)"

definition DeepCopy_ReportList :: "('m, 'l, 'x) library \<Rightarrow> nat option \<Rightarrow> ('m, 'l, 'x, nat option) copied" where
  "DeepCopy_ReportList lib = copy_pointer Cell_ReportList un_ReportList (DeepCopyInto_ReportList lib)"

text \<open>
  \<open>DeepCopyObject\<close> returns an interface.  An interface that holds a nil pointer is not the nil
  interface: the test in the code is what turns the one into the other.
\<close>

datatype runtime_Object =
    Object_Cleaner "nat option"
  | Object_CleanerList "nat option"
  | Object_Report "nat option"
  | Object_ReportList "nat option"

definition DeepCopyObject_Cleaner ::
  "('m, 'l, 'x) library \<Rightarrow> nat option \<Rightarrow> ('m, 'l, 'x, runtime_Object option) copied" where
  "DeepCopyObject_Cleaner lib i =
     mem_bind (DeepCopy_Cleaner lib i) (\<lambda>c. mem_return (if c \<noteq> None then Some (Object_Cleaner c) else None))"

definition DeepCopyObject_CleanerList ::
  "('m, 'l, 'x) library \<Rightarrow> nat option \<Rightarrow> ('m, 'l, 'x, runtime_Object option) copied" where
  "DeepCopyObject_CleanerList lib i =
     mem_bind (DeepCopy_CleanerList lib i)
       (\<lambda>c. mem_return (if c \<noteq> None then Some (Object_CleanerList c) else None))"

definition DeepCopyObject_Report ::
  "('m, 'l, 'x) library \<Rightarrow> nat option \<Rightarrow> ('m, 'l, 'x, runtime_Object option) copied" where
  "DeepCopyObject_Report lib i =
     mem_bind (DeepCopy_Report lib i) (\<lambda>c. mem_return (if c \<noteq> None then Some (Object_Report c) else None))"

definition DeepCopyObject_ReportList ::
  "('m, 'l, 'x) library \<Rightarrow> nat option \<Rightarrow> ('m, 'l, 'x, runtime_Object option) copied" where
  "DeepCopyObject_ReportList lib i =
     mem_bind (DeepCopy_ReportList lib i)
       (\<lambda>c. mem_return (if c \<noteq> None then Some (Object_ReportList c) else None))"

end
