(* ===== verification/Deep_Copy_Properties.thy ===== *)
theory Deep_Copy_Properties
  imports Deep_Copy_Types
begin

text \<open>
  Every \<open>DeepCopy\<close> of \<open>api/v1alpha1\<close> keeps the contract \<open>deep_copy\<close>: the copy reads the same as
  the original and shares no memory with it, so that neither can be changed through the other.
\<close>

section \<open>Reading the structs\<close>

type_synonym ('m, 'l, 'x, 'r, 'v) reads = "(('m, 'l, 'x) cell, 'r, 'v) mem_reader"

definition read_DeleteOptions :: "('m, 'l, 'x, m_DeleteOptions, DeleteOptions) reads" where
  "read_DeleteOptions =
     read_as (\<lambda>i. (md_GracePeriodSeconds i, md_PropagationPolicy i))
       (\<lambda>i v. \<lparr>GracePeriodSeconds = fst v, PropagationPolicy = snd v\<rparr>)
       (read_pair (read_pointer un_int64 read_plain) (read_pointer un_string read_plain))"

definition read_ResourceSelector :: "('m, 'l, 'x, m_ResourceSelector, ResourceSelector) reads" where
  "read_ResourceSelector =
     read_as ms_LabelFilters
       (\<lambda>i fs. \<lparr>rs_Namespace = ms_Namespace i, rs_NamespaceSelector = ms_NamespaceSelector i,
         rs_Group = ms_Group i, rs_Version = ms_Version i, rs_Kind = ms_Kind i, rs_LabelFilters = fs,
         rs_Evaluate = ms_Evaluate i, rs_ExcludeDeleted = ms_ExcludeDeleted i\<rparr>)
       (read_slice un_array_LabelFilter read_plain)"

definition read_ResourcePolicySet :: "('m, 'l, 'x, m_ResourcePolicySet, ResourcePolicySet) reads" where
  "read_ResourcePolicySet =
     read_as mp_ResourceSelectors
       (\<lambda>i srs. \<lparr>ResourceSelectors = srs, AggregatedSelection = mp_AggregatedSelection i\<rparr>)
       (read_slice un_array_ResourceSelector read_ResourceSelector)"

definition read_Notification :: "('m, 'l, 'x, m_Notification, Notification) reads" where
  "read_Notification =
     read_as mn_NotificationRef (\<lambda>i ref. \<lparr>nt_Name = mn_Name i, nt_Type = mn_Type i, nt_Ref = ref\<rparr>)
       (read_pointer un_ObjectReference read_plain)"

definition read_CleanerSpec :: "('m, 'l, 'x, m_CleanerSpec, CleanerSpec) reads" where
  "read_CleanerSpec =
     read_as (\<lambda>i. (mc_ResourcePolicySet i, mc_DeleteOptions i, mc_StartingDeadlineSeconds i, mc_Notifications i))
       (\<lambda>i v. \<lparr>spec_ResourcePolicySet = fst v, spec_Action = mc_Action i,
         spec_DeleteOptions = fst (snd v), spec_Transform = mc_Transform i, spec_Schedule = mc_Schedule i,
         spec_StartingDeadlineSeconds = fst (snd (snd v)), spec_Notifications = snd (snd (snd v)),
         spec_StoreResourcePath = mc_StoreResourcePath i\<rparr>)
       (read_pair read_ResourcePolicySet
         (read_pair (read_pointer un_DeleteOptions read_DeleteOptions)
           (read_pair (read_pointer un_int64 read_plain) (read_slice un_array_Notification read_Notification))))"

definition read_CleanerStatus :: "('m, 'l, 'x, m_CleanerStatus, CleanerStatus) reads" where
  "read_CleanerStatus =
     read_as (\<lambda>i. (mt_NextScheduleTime i, mt_LastRunTime i, mt_FailureMessage i))
       (\<lambda>i v. \<lparr>NextScheduleTime = fst v, LastRunTime = fst (snd v), FailureMessage = snd (snd v)\<rparr>)
       (read_pair (read_pointer un_Time read_plain)
         (read_pair (read_pointer un_Time read_plain) (read_pointer un_string read_plain)))"

text \<open>A Cleaner or a Report with its type and the value of its metadata.\<close>

definition read_Cleaner ::
  "('m, 'l, 'x, 'm, 'mv) reads \<Rightarrow> ('m, 'l, 'x, 'm m_Cleaner, TypeMeta \<times> 'mv \<times> CleanerSpec \<times> CleanerStatus) reads"
  where
  "read_Cleaner rm =
     read_as (\<lambda>i. (mx_ObjectMeta i, mx_Spec i, mx_Status i)) (\<lambda>i v. (mx_TypeMeta i, v))
       (read_pair rm (read_pair read_CleanerSpec read_CleanerStatus))"

definition read_CleanerList ::
  "('m, 'l, 'x, 'm, 'mv) reads \<Rightarrow> ('m, 'l, 'x, 'l, 'lv) reads \<Rightarrow>
   ('m, 'l, 'x, 'l m_CleanerList, TypeMeta \<times> 'lv \<times> (TypeMeta \<times> 'mv \<times> CleanerSpec \<times> CleanerStatus) list) reads"
  where
  "read_CleanerList rm rl =
     read_as (\<lambda>i. (ml_ListMeta i, ml_Items i)) (\<lambda>i v. (ml_TypeMeta i, v))
       (read_pair rl (read_slice un_array_Cleaner (read_Cleaner rm)))"

definition read_ResourceInfo :: "('m, 'l, 'x, m_ResourceInfo, ResourceInfo) reads" where
  "read_ResourceInfo =
     read_as mi_FullResource
       (\<lambda>i bytes. \<lparr>ri_Resource = mi_Resource i, ri_FullResource = bytes, ri_Message = mi_Message i\<rparr>)
       (read_slice un_array_byte read_plain)"

definition read_ReportSpec :: "('m, 'l, 'x, m_ReportSpec, ReportSpec) reads" where
  "read_ReportSpec =
     read_as mr_ResourceInfo (\<lambda>i infos. \<lparr>rep_ResourceInfo = infos, rep_Action = mr_Action i\<rparr>)
       (read_slice un_array_ResourceInfo read_ResourceInfo)"

definition read_Report ::
  "('m, 'l, 'x, 'm, 'mv) reads \<Rightarrow> ('m, 'l, 'x, 'm m_Report, TypeMeta \<times> 'mv \<times> ReportSpec) reads" where
  "read_Report rm =
     read_as (\<lambda>i. (my_ObjectMeta i, my_Spec i)) (\<lambda>i v. (my_TypeMeta i, v)) (read_pair rm read_ReportSpec)"

definition read_ReportList ::
  "('m, 'l, 'x, 'm, 'mv) reads \<Rightarrow> ('m, 'l, 'x, 'l, 'lv) reads \<Rightarrow>
   ('m, 'l, 'x, 'l m_ReportList, TypeMeta \<times> 'lv \<times> (TypeMeta \<times> 'mv \<times> ReportSpec) list) reads" where
  "read_ReportList rm rl =
     read_as (\<lambda>i. (mz_ListMeta i, mz_Items i)) (\<lambda>i v. (mz_TypeMeta i, v))
       (read_pair rl (read_slice un_array_Report (read_Report rm)))"

section \<open>The copies keep the contract\<close>

lemma deep_copy_int64: "deep_copy (read_pointer un_int64 read_plain) (copy_pointer Cell_int64 un_int64 mem_return)"
  and deep_copy_string: "deep_copy (read_pointer un_string read_plain) (copy_pointer Cell_string un_string mem_return)"
  and deep_copy_ref: "deep_copy (read_pointer un_ObjectReference read_plain)
    (copy_pointer Cell_ObjectReference un_ObjectReference mem_return)"
  and deep_copy_bytes: "deep_copy (read_slice un_array_byte read_plain) (copy_slice Cells_byte un_array_byte mem_return)"
  and deep_copy_filters: "deep_copy (read_slice un_array_LabelFilter read_plain)
    (copy_slice Cells_LabelFilter un_array_LabelFilter mem_return)"
  by (simp_all add: deep_copy_pointer deep_copy_slice deep_copy_plain)

interpretation delete_options: deep_copy
    "read_DeleteOptions :: ('m, 'l, 'x, m_DeleteOptions, DeleteOptions) reads" DeepCopyInto_DeleteOptions
  unfolding read_DeleteOptions_def
  by (rule deep_copy_struct [OF deep_copy_pair [OF deep_copy_int64 deep_copy_string],
        where put = "\<lambda>i v. i\<lparr>md_GracePeriodSeconds := fst v, md_PropagationPolicy := snd v\<rparr>"])
    (simp_all add: DeepCopyInto_DeleteOptions_def copy_pair_def)

interpretation selectors: deep_copy
    "read_ResourceSelector :: ('m, 'l, 'x, m_ResourceSelector, ResourceSelector) reads"
    DeepCopyInto_ResourceSelector
  unfolding read_ResourceSelector_def
  by (rule deep_copy_struct [OF deep_copy_filters, where put = "\<lambda>i v. i\<lparr>ms_LabelFilters := v\<rparr>"])
    (simp_all add: DeepCopyInto_ResourceSelector_def)

interpretation policies: deep_copy
    "read_ResourcePolicySet :: ('m, 'l, 'x, m_ResourcePolicySet, ResourcePolicySet) reads"
    DeepCopyInto_ResourcePolicySet
  unfolding read_ResourcePolicySet_def
  by (rule deep_copy_struct [OF deep_copy_slice [OF selectors.deep_copy_axioms un_cell(19)],
        where put = "\<lambda>i v. i\<lparr>mp_ResourceSelectors := v\<rparr>"])
    (simp_all add: DeepCopyInto_ResourcePolicySet_def)

interpretation notifications: deep_copy
    "read_Notification :: ('m, 'l, 'x, m_Notification, Notification) reads" DeepCopyInto_Notification
  unfolding read_Notification_def
  by (rule deep_copy_struct [OF deep_copy_ref, where put = "\<lambda>i v. i\<lparr>mn_NotificationRef := v\<rparr>"])
    (simp_all add: DeepCopyInto_Notification_def)

interpretation specs: deep_copy
    "read_CleanerSpec :: ('m, 'l, 'x, m_CleanerSpec, CleanerSpec) reads" DeepCopyInto_CleanerSpec
  unfolding read_CleanerSpec_def
  by (rule deep_copy_struct [OF deep_copy_pair [OF policies.deep_copy_axioms
            deep_copy_pair [OF deep_copy_pointer [OF delete_options.deep_copy_axioms un_cell(5)]
              deep_copy_pair [OF deep_copy_int64 deep_copy_slice [OF notifications.deep_copy_axioms un_cell(20)]]]],
        where put = "\<lambda>i v. i\<lparr>mc_ResourcePolicySet := fst v, mc_DeleteOptions := fst (snd v),
          mc_StartingDeadlineSeconds := fst (snd (snd v)), mc_Notifications := snd (snd (snd v))\<rparr>"])
    (simp_all add: DeepCopyInto_CleanerSpec_def copy_pair_def)

interpretation resource_infos: deep_copy
    "read_ResourceInfo :: ('m, 'l, 'x, m_ResourceInfo, ResourceInfo) reads" DeepCopyInto_ResourceInfo
  unfolding read_ResourceInfo_def
  by (rule deep_copy_struct [OF deep_copy_bytes, where put = "\<lambda>i v. i\<lparr>mi_FullResource := v\<rparr>"])
    (simp_all add: DeepCopyInto_ResourceInfo_def)

interpretation report_specs: deep_copy
    "read_ReportSpec :: ('m, 'l, 'x, m_ReportSpec, ReportSpec) reads" DeepCopyInto_ReportSpec
  unfolding read_ReportSpec_def
  by (rule deep_copy_struct [OF deep_copy_slice [OF resource_infos.deep_copy_axioms un_cell(22)],
        where put = "\<lambda>i v. i\<lparr>mr_ResourceInfo := v\<rparr>"])
    (simp_all add: DeepCopyInto_ReportSpec_def)

text \<open>The structs with metadata keep it when the methods of the library do.\<close>

definition library_copies ::
  "('m, 'l, 'x) library \<Rightarrow> ('m, 'l, 'x, 'm, 'mv) reads \<Rightarrow> ('m, 'l, 'x, 'l, 'lv) reads \<Rightarrow> bool" where
  "library_copies lib rm rl \<longleftrightarrow>
     deep_copy rm (ObjectMeta_DeepCopyInto lib) \<and> deep_copy rl (ListMeta_DeepCopyInto lib) \<and>
     deep_copy (read_pointer un_Time read_plain) (Time_DeepCopy lib)"

lemma copies_status:
  assumes "library_copies lib rm rl"
  shows "deep_copy read_CleanerStatus (DeepCopyInto_CleanerStatus lib)"
proof -
  have time: "deep_copy (read_pointer un_Time read_plain) (Time_DeepCopy lib)"
    using assms by (simp add: library_copies_def)
  show ?thesis
    unfolding read_CleanerStatus_def
    by (rule deep_copy_struct [OF deep_copy_pair [OF time deep_copy_pair [OF time deep_copy_string]],
          where put = "\<lambda>i v. i\<lparr>mt_NextScheduleTime := fst v, mt_LastRunTime := fst (snd v),
            mt_FailureMessage := snd (snd v)\<rparr>"])
      (simp_all add: DeepCopyInto_CleanerStatus_def copy_pair_def)
qed

lemma copies_cleaner:
  assumes "library_copies lib rm rl"
  shows "deep_copy (read_Cleaner rm) (DeepCopyInto_Cleaner lib)"
proof -
  have meta: "deep_copy rm (ObjectMeta_DeepCopyInto lib)" using assms by (simp add: library_copies_def)
  show ?thesis
    unfolding read_Cleaner_def
    by (rule deep_copy_struct [OF deep_copy_pair [OF meta deep_copy_pair [OF specs.deep_copy_axioms copies_status [OF assms]]],
          where put = "\<lambda>i v. i\<lparr>mx_ObjectMeta := fst v, mx_Spec := fst (snd v), mx_Status := snd (snd v)\<rparr>"])
      (simp_all add: DeepCopyInto_Cleaner_def copy_pair_def)
qed

lemma copies_cleaner_list:
  assumes "library_copies lib rm rl"
  shows "deep_copy (read_CleanerList rm rl) (DeepCopyInto_CleanerList lib)"
proof -
  have meta: "deep_copy rl (ListMeta_DeepCopyInto lib)" using assms by (simp add: library_copies_def)
  show ?thesis
    unfolding read_CleanerList_def
    by (rule deep_copy_struct [OF deep_copy_pair [OF meta deep_copy_slice [OF copies_cleaner [OF assms] un_cell(21)]],
          where put = "\<lambda>i v. i\<lparr>ml_ListMeta := fst v, ml_Items := snd v\<rparr>"])
      (simp_all add: DeepCopyInto_CleanerList_def copy_pair_def)
qed

lemma copies_report:
  assumes "library_copies lib rm rl"
  shows "deep_copy (read_Report rm) (DeepCopyInto_Report lib)"
proof -
  have meta: "deep_copy rm (ObjectMeta_DeepCopyInto lib)" using assms by (simp add: library_copies_def)
  show ?thesis
    unfolding read_Report_def
    by (rule deep_copy_struct [OF deep_copy_pair [OF meta report_specs.deep_copy_axioms],
          where put = "\<lambda>i v. i\<lparr>my_ObjectMeta := fst v, my_Spec := snd v\<rparr>"])
      (simp_all add: DeepCopyInto_Report_def copy_pair_def)
qed

lemma copies_report_list:
  assumes "library_copies lib rm rl"
  shows "deep_copy (read_ReportList rm rl) (DeepCopyInto_ReportList lib)"
proof -
  have meta: "deep_copy rl (ListMeta_DeepCopyInto lib)" using assms by (simp add: library_copies_def)
  show ?thesis
    unfolding read_ReportList_def
    by (rule deep_copy_struct [OF deep_copy_pair [OF meta deep_copy_slice [OF copies_report [OF assms] un_cell(23)]],
          where put = "\<lambda>i v. i\<lparr>mz_ListMeta := fst v, mz_Items := snd v\<rparr>"])
      (simp_all add: DeepCopyInto_ReportList_def copy_pair_def)
qed

text \<open>A pointer to a spec, as the accessors of a Cleaner hand it out.\<close>

interpretation spec_pointers: reader
    "read_pointer un_CleanerSpec (read_CleanerSpec :: ('m, 'l, 'x, m_CleanerSpec, CleanerSpec) reads)"
  by (rule reader_pointer [OF specs.reader_axioms])

section \<open>Copies are independent\<close>

lemma copied_pointer:
  "deep_copy rd copy \<Longrightarrow> (\<And>x. unwrap (wrap x) = Some x) \<Longrightarrow>
   independent_copy (copy_pointer wrap unwrap copy) (read_pointer unwrap rd)"
  by (rule deep_copy.independent [OF deep_copy_pointer])

text \<open>
  C14. What \<open>DeepCopy\<close> returns, for every struct of the API, reads the same as what it was called on and
  lies in memory of its own: the call always returns, leaves the original as it was, and afterwards a
  write through the one is never seen through the other.
\<close>

theorem deep_copies_independent:
  assumes "library_copies lib rm rl"
  shows "independent_copy DeepCopy_DeleteOptions (read_pointer un_DeleteOptions read_DeleteOptions) \<and>
    independent_copy DeepCopy_ResourceSelector (read_pointer un_ResourceSelector read_ResourceSelector) \<and>
    independent_copy DeepCopy_ResourcePolicySet (read_pointer un_ResourcePolicySet read_ResourcePolicySet) \<and>
    independent_copy DeepCopy_Notification (read_pointer un_Notification read_Notification) \<and>
    independent_copy DeepCopy_CleanerSpec (read_pointer un_CleanerSpec read_CleanerSpec) \<and>
    independent_copy (DeepCopy_CleanerStatus lib) (read_pointer un_CleanerStatus read_CleanerStatus) \<and>
    independent_copy (DeepCopy_Cleaner lib) (read_pointer un_Cleaner (read_Cleaner rm)) \<and>
    independent_copy (DeepCopy_CleanerList lib) (read_pointer un_CleanerList (read_CleanerList rm rl)) \<and>
    independent_copy DeepCopy_ResourceInfo (read_pointer un_ResourceInfo read_ResourceInfo) \<and>
    independent_copy DeepCopy_ReportSpec (read_pointer un_ReportSpec read_ReportSpec) \<and>
    independent_copy (DeepCopy_Report lib) (read_pointer un_Report (read_Report rm)) \<and>
    independent_copy (DeepCopy_ReportList lib) (read_pointer un_ReportList (read_ReportList rm rl))"
  unfolding DeepCopy_DeleteOptions_def DeepCopy_ResourceSelector_def DeepCopy_ResourcePolicySet_def
    DeepCopy_Notification_def DeepCopy_CleanerSpec_def DeepCopy_CleanerStatus_def DeepCopy_Cleaner_def
    DeepCopy_CleanerList_def DeepCopy_ResourceInfo_def DeepCopy_ReportSpec_def DeepCopy_Report_def
    DeepCopy_ReportList_def
  by (intro conjI copied_pointer un_cell delete_options.deep_copy_axioms selectors.deep_copy_axioms
      policies.deep_copy_axioms notifications.deep_copy_axioms specs.deep_copy_axioms
      copies_status [OF assms] copies_cleaner [OF assms] copies_cleaner_list [OF assms]
      resource_infos.deep_copy_axioms report_specs.deep_copy_axioms copies_report [OF assms]
      copies_report_list [OF assms])

text \<open>Metadata of a name and a pointer to labels, with the methods the library would have for it.\<close>

definition un_labels :: "('m, 'l, (string \<times> string) list) cell \<Rightarrow> (string \<times> string) list option" where
  "un_labels c = (case c of Cell_other ls \<Rightarrow> Some ls | _ \<Rightarrow> None)"

abbreviation copy_meta ::
  "string \<times> nat option \<Rightarrow> ('m, 'l, (string \<times> string) list, string \<times> nat option) copied" where
  "copy_meta \<equiv> copy_pair mem_return (copy_pointer Cell_other un_labels mem_return)"

abbreviation read_meta ::
  "('m, 'l, (string \<times> string) list, string \<times> nat option, string \<times> (string \<times> string) list option) reads" where
  "read_meta \<equiv> read_pair read_plain (read_pointer un_labels read_plain)"

definition labels_library :: "(string \<times> nat option, string, (string \<times> string) list) library" where
  "labels_library =
     \<lparr>ObjectMeta_DeepCopyInto = copy_meta, ListMeta_DeepCopyInto = mem_return,
      Time_DeepCopy = copy_pointer Cell_Time un_Time mem_return\<rparr>"

lemma labels_library_copies: "library_copies labels_library read_meta read_plain"
  unfolding library_copies_def labels_library_def
  by (simp add: deep_copy_pair deep_copy_pointer deep_copy_plain un_labels_def)

text \<open>A spec with a grace period, copied; the grace period of the original is changed afterwards.\<close>

definition graceful_spec :: m_CleanerSpec where
  "graceful_spec =
     \<lparr>mc_ResourcePolicySet = \<lparr>mp_ResourceSelectors = NilSlice, mp_AggregatedSelection = []\<rparr>,
      mc_Action = ActionDelete, mc_DeleteOptions = Some 1, mc_Transform = [], mc_Schedule = [],
      mc_StartingDeadlineSeconds = None, mc_Notifications = NilSlice, mc_StoreResourcePath = []\<rparr>"

definition spec_memory :: "(string \<times> nat option, string, (string \<times> string) list) cell mem" where
  "spec_memory =
     \<lparr>cells = [0 \<mapsto> Cell_CleanerSpec graceful_spec,
        1 \<mapsto> Cell_DeleteOptions \<lparr>md_GracePeriodSeconds = Some 2, md_PropagationPolicy = None\<rparr>,
        2 \<mapsto> Cell_int64 30], limit = 3\<rparr>"

lemma read_spec_memory:
  "\<exists>v. read_pointer un_CleanerSpec read_CleanerSpec spec_memory (Some 0) = Some (Some v, {0, 1, 2}) \<and>
     spec_DeleteOptions v = Some \<lparr>GracePeriodSeconds = Some 30, PropagationPolicy = None\<rparr>"
  by (auto simp: read_pointer_def read_CleanerSpec_def read_as_def read_pair_def read_slice_def load_def
      read_ResourcePolicySet_def read_DeleteOptions_def read_plain_def spec_memory_def graceful_spec_def)

theorem deep_copies_independent_witness:
  "\<exists>q m v A. DeepCopy_CleanerSpec (Some 0) spec_memory = Some (q, m) \<and>
     read_pointer un_CleanerSpec read_CleanerSpec (store 2 (Cell_int64 5) m) q = Some (Some v, A) \<and>
     spec_DeleteOptions v = Some \<lparr>GracePeriodSeconds = Some 30, PropagationPolicy = None\<rparr>"
proof -
  let ?rd = "read_pointer un_CleanerSpec read_CleanerSpec"
  have "independent_copy (DeepCopy_CleanerSpec ::
      nat option \<Rightarrow> (string \<times> nat option, string, (string \<times> string) list, nat option) copied) ?rd"
    using deep_copies_independent [OF labels_library_copies] by blast
  moreover have "valid spec_memory" by (simp add: valid_def spec_memory_def)
  moreover obtain v where "?rd spec_memory (Some 0) = Some (Some v, {0, 1, 2})"
    and v: "spec_DeleteOptions v = Some \<lparr>GracePeriodSeconds = Some 30, PropagationPolicy = None\<rparr>"
    using read_spec_memory by blast
  ultimately obtain q m A where "DeepCopy_CleanerSpec (Some 0) spec_memory = Some (q, m)" "{0, 1, 2} \<inter> A = {}"
    "\<forall>a c. a \<notin> A \<longrightarrow> ?rd (store a c m) q = Some (Some v, A)"
    unfolding independent_copy_def by metis
  then show ?thesis using v by (intro exI conjI) auto
qed

text \<open>The object of an interface is never a nil pointer.\<close>

lemma DeepCopyObject_nil:
  "DeepCopyObject_Cleaner lib None m = Some (None, m)"
  "DeepCopyObject_Cleaner lib (Some a) m = Some (ob, m') \<Longrightarrow> \<exists>b. ob = Some (Object_Cleaner (Some b))"
  "DeepCopyObject_CleanerList lib None m = Some (None, m)"
  "DeepCopyObject_CleanerList lib (Some a) m = Some (ob, m') \<Longrightarrow> \<exists>b. ob = Some (Object_CleanerList (Some b))"
  "DeepCopyObject_Report lib None m = Some (None, m)"
  "DeepCopyObject_Report lib (Some a) m = Some (ob, m') \<Longrightarrow> \<exists>b. ob = Some (Object_Report (Some b))"
  "DeepCopyObject_ReportList lib None m = Some (None, m)"
  "DeepCopyObject_ReportList lib (Some a) m = Some (ob, m') \<Longrightarrow> \<exists>b. ob = Some (Object_ReportList (Some b))"
  by (auto simp: DeepCopyObject_Cleaner_def DeepCopy_Cleaner_def DeepCopyObject_CleanerList_def
      DeepCopy_CleanerList_def DeepCopyObject_Report_def DeepCopy_Report_def DeepCopyObject_ReportList_def
      DeepCopy_ReportList_def copy_pointer_def mem_bind_def mem_return_def split: option.splits)

end
