(* ===== verification/Registration.thy ===== *)
theory Registration
  imports Actions Deep_Copy_Types
begin

text \<open>
  What the packages declare and register before \<open>main\<close> runs: the four counters of \<open>metrics.go\<close> with
  the Prometheus registry, and the types of the API group (\<open>groupversion_info.go\<close> and the \<open>init\<close>
  functions beside the types) with the scheme builder.  Registry and builder are parameters.
\<close>

section \<open>The counters\<close>

record CounterOpts =
  co_Namespace :: string
  co_Name :: string
  co_Help :: string

record CounterVec =
  cv_Opts :: CounterOpts
  cv_LabelNames :: "string list"

definition deletedCounterName :: string where
  "deletedCounterName = ''k8s_cleaner_deleted_resources_total''"

definition updatedCounterName :: string where
  "updatedCounterName = ''k8s_cleaner_updated_resources_total''"

definition scanCounterName :: string where
  "scanCounterName = ''k8s_cleaner_scan_resources_total''"

definition errorCounterName :: string where
  "errorCounterName = ''k8s_cleaner_error_resources_total''"

text \<open>The four declarations differ in name and help; the namespace is the variable of the environment.\<close>

definition NewCounterVec :: "string \<Rightarrow> string \<Rightarrow> string \<Rightarrow> CounterVec" where
  "NewCounterVec NAMESPACE name help =
     \<lparr>cv_Opts = \<lparr>co_Namespace = NAMESPACE, co_Name = name, co_Help = help\<rparr>,
      cv_LabelNames = [''cleaner_instance'', ''resource_apiversion'', ''resource_type'']\<rparr>"

definition counter_vecs :: "string \<Rightarrow> CounterVec list" where
  "counter_vecs NAMESPACE =
     [NewCounterVec NAMESPACE deletedCounterName
        ''The cumulative count of resources successfully deleted by cleaner.'',
      NewCounterVec NAMESPACE updatedCounterName
        ''The cumulative count of resources successfully updated by cleaner.'',
      NewCounterVec NAMESPACE scanCounterName
        ''The cumulative count of resources successfully found by cleaner during a scan.'',
      NewCounterVec NAMESPACE errorCounterName
        ''The cumulative count of erros encountered by cleaner during a scan.'']"

text \<open>Registering is a call of the registry, which panics when it refuses a counter.\<close>

definition init_metrics :: "(CounterVec list \<Rightarrow> 'r \<Rightarrow> 'r outcome) \<Rightarrow> string \<Rightarrow> 'r \<Rightarrow> 'r outcome" where
  "init_metrics MustRegister NAMESPACE registry = MustRegister (counter_vecs NAMESPACE) registry"

text \<open>The values a report gives for the labels of its counter.\<close>

definition label_values :: "metric_labels \<Rightarrow> string list" where
  "label_values l = [fst l, fst (snd l), snd (snd l)]"

text \<open>
  No report panics for a wrong number of label values, and a registry that takes counters of different
  names, none of which it has, takes the four.
\<close>

lemma labels_fit: "vec \<in> set (counter_vecs NAMESPACE) \<Longrightarrow> length (label_values l) = length (cv_LabelNames vec)"
  by (auto simp: counter_vecs_def NewCounterVec_def label_values_def)

lemma counter_names_distinct: "distinct (map (\<lambda>vec. co_Name (cv_Opts vec)) (counter_vecs NAMESPACE))"
  by (simp add: counter_vecs_def NewCounterVec_def deletedCounterName_def updatedCounterName_def
      scanCounterName_def errorCounterName_def)

lemma init_metrics_registers:
  assumes "\<And>vecs. distinct (map (\<lambda>vec. co_Name (cv_Opts vec)) vecs) \<Longrightarrow>
      names registry \<inter> (\<lambda>vec. co_Name (cv_Opts vec)) ` set vecs = {} \<Longrightarrow> \<exists>r. MustRegister vecs registry = Ok r"
    and "names registry = {}"
  shows "\<exists>r. init_metrics MustRegister NAMESPACE registry = Ok r"
  using assms(1) [OF counter_names_distinct] assms(2) by (simp add: init_metrics_def)

section \<open>The API group\<close>

text \<open>The group is given by its group and version; the builder collects the objects registered with it.\<close>

definition GroupVersion :: "string \<times> string" where
  "GroupVersion = (''apps.projectsveltos.io'', ''v1alpha1'')"

definition init_cleaner_types :: "(runtime_Object list \<Rightarrow> 'b \<Rightarrow> 'b) \<Rightarrow> nat \<Rightarrow> nat \<Rightarrow> 'b \<Rightarrow> 'b" where
  "init_cleaner_types Register cleaner list = Register [Object_Cleaner (Some cleaner), Object_CleanerList (Some list)]"

definition init_report_types :: "(runtime_Object list \<Rightarrow> 'b \<Rightarrow> 'b) \<Rightarrow> nat \<Rightarrow> nat \<Rightarrow> 'b \<Rightarrow> 'b" where
  "init_report_types Register report list = Register [Object_Report (Some report), Object_ReportList (Some list)]"

text \<open>The \<open>init\<close> functions of a package run in the order of its files; the objects are new ones.\<close>

definition SchemeBuilder ::
  "(string \<times> string \<Rightarrow> 'b) \<Rightarrow> (runtime_Object list \<Rightarrow> 'b \<Rightarrow> 'b) \<Rightarrow> nat \<Rightarrow> nat \<Rightarrow> nat \<Rightarrow> nat \<Rightarrow> 'b" where
  "SchemeBuilder Builder Register a b c d =
     init_report_types Register c d (init_cleaner_types Register a b (Builder GroupVersion))"

text \<open>Every type of the group that can be copied as an object is registered, once.\<close>

fun type_name :: "runtime_Object \<Rightarrow> string" where
  "type_name (Object_Cleaner _) = ''Cleaner''"
| "type_name (Object_CleanerList _) = ''CleanerList''"
| "type_name (Object_Report _) = ''Report''"
| "type_name (Object_ReportList _) = ''ReportList''"

lemma registered_types:
  assumes "builder = SchemeBuilder (\<lambda>gv. (gv, [])) (\<lambda>objs (gv, types). (gv, types @ map type_name objs)) a b c d"
  shows "fst builder = (''apps.projectsveltos.io'', ''v1alpha1'')" and "distinct (snd builder)"
    and "type_name ob \<in> set (snd builder)"
  using assms
  by (cases ob; simp add: SchemeBuilder_def init_report_types_def init_cleaner_types_def GroupVersion_def)+

end
