(* ===== verification/Spec2Isabelle.thy ===== *)
theory Spec2Isabelle
  imports Worker_Properties Executor_Properties Reconciler_Properties Startup Run_Counters Run_Progress
    Deep_Copy_Properties Registration
begin

text \<open>
  A verification development for k8s-cleaner, a Kubernetes controller that finds resources by the
  rules of \<open>Cleaner\<close> objects and deletes, transforms or reports them on a schedule.

  The program.  A reconciler (\<open>internal/controller\<close>) is called for every \<open>Cleaner\<close>: it keeps a
  finalizer on it, computes the next time of its cron schedule, queues its name with the executor when
  it is due, and writes the outcome of the last run to its status through a scope (\<open>pkg/scope\<close>).
  The executor (\<open>internal/controller/executor\<close>) is one manager, with a queue, a dirty set, a list
  of requests in progress and a map of results, and a pool of worker goroutines.  A worker runs a
  Cleaner: it lists the resources of each selector, asks a Lua script about each, filters them once
  more with an aggregated script, acts on them, counts them, sends the notifications and stores the
  resources.  The telemetry (\<open>internal/telemetry\<close>) is a collector on a timer, and \<open>cmd/main.go\<close>
  puts the parts together.

  Theories and code, in the order of the imports.
  \<^item> \<^theory_text>\<open>Prelude\<close>: errors, outcomes of calls that may not come back, the two loop shapes of the code, and the
    collections of simplification rules.
  \<^item> \<^theory_text>\<open>Job_Manager\<close> (\<open>client.go\<close>, \<open>worker.go\<close>): the record \<open>manager\<close> with \<open>Process\<close>,
    \<open>GetResult\<close>, \<open>RemoveEntries\<close>, \<open>takeRequest\<close> and \<open>storeResult\<close>, each the critical section of
    the Go function of that name (\<open>takeRequest\<close> is the one of \<open>processRequests\<close>).
  \<^item> \<^theory_text>\<open>Worker_Pool\<close>, \<^theory_text>\<open>Worker_Safety\<close>, \<^theory_text>\<open>Worker_Order\<close>, \<^theory_text>\<open>Worker_Properties\<close>: workers and
    reconcilers as a step relation, its invariants, the order of service, and the five-phase machine
    the pool implements for each Cleaner.
  \<^item> \<^theory_text>\<open>Job_Client\<close>: what a reconciler may rely on while the workers go on, as the locales \<open>job_client\<close> and
    \<open>job_service\<close>, interpreted on the manager.
  \<^item> \<^theory_text>\<open>Api_Types\<close> (\<open>api/v1alpha1\<close>): the structs, the decoded values of an object, \<open>float64\<close>.
  \<^item> \<^theory_text>\<open>Json\<close>, \<^theory_text>\<open>Lua_Convert\<close>, \<^theory_text>\<open>Lua_Roundtrip\<close>, \<^theory_text>\<open>Lua_Scripts\<close> (\<open>worker.go\<close>): \<open>mapToTable\<close>,
    \<open>toGoValue\<close>, the JSON in between, and \<open>isMatch\<close>, \<open>transform\<close>, \<open>aggregatedSelection\<close>.
  \<^item> \<^theory_text>\<open>Selection\<close> and its properties (\<open>worker.go\<close>): namespaces, label filters, listing, matching.
  \<^item> \<^theory_text>\<open>Actions\<close>, \<^theory_text>\<open>Batch\<close>, \<^theory_text>\<open>Action_Properties\<close> (\<open>worker.go\<close>, \<open>metrics.go\<close>): the delete, update
    and scan loops with their counters; what the three have in common is the locale \<open>batch\<close>.
  \<^item> \<^theory_text>\<open>Store\<close> and its properties (\<open>store.go\<close>): paths and files of stored resources.
  \<^item> \<^theory_text>\<open>Notifications\<close> and its properties (\<open>notifications.go\<close>): credentials, reports and the eight
    kinds of notification; reading a secret is the locale \<open>secret_reader\<close>.
  \<^item> \<^theory_text>\<open>Executor\<close> and its properties (\<open>worker.go\<close>): \<open>processCleanerInstance\<close>, one whole run.
  \<^item> \<^theory_text>\<open>Schedule\<close> and its properties, \<^theory_text>\<open>Reconciler\<close> and its properties (\<open>cleaner_controller.go\<close>,
    \<open>pruner.go\<close>): the schedule, the scope, and \<open>Reconcile\<close> with all it calls.
  \<^item> \<^theory_text>\<open>Telemetry\<close> (\<open>report.go\<close>), \<^theory_text>\<open>Startup\<close> (\<open>main.go\<close>): the collector, the flags and \<open>main\<close>.
  \<^item> \<^theory_text>\<open>Reconciler_Stages\<close>: a reconciliation cut where other goroutines may come in, with the proof that
    the uninterrupted stages are \<open>Reconcile\<close>.
  \<^item> \<^theory_text>\<open>Run_Stages\<close>: a run of the executor cut between any two selectors, resources, notifications
    and files, with the proof that the uninterrupted stages are \<open>processCleanerInstance\<close>.
  \<^item> \<^theory_text>\<open>Controller\<close>: stages of reconciliations, stages of runs and outside changes as steps of one
    program; \<^theory_text>\<open>Run_Safety\<close>, \<^theory_text>\<open>Run_Counters\<close> and \<^theory_text>\<open>Run_Progress\<close>: what interleaved runs do
    to the cluster and to the counter of deletions, and what scripts without end do to the pool.
  \<^item> \<^theory_text>\<open>Deep_Copy\<close>, \<^theory_text>\<open>Deep_Copy_Types\<close>, \<^theory_text>\<open>Deep_Copy_Properties\<close> (\<open>zz_generated.deepcopy.go\<close>): the API
    structs in an explicit memory, their \<open>DeepCopy\<close> methods, and the locale \<open>deep_copy\<close> these keep.
  \<^item> \<^theory_text>\<open>Registration\<close> (\<open>metrics.go\<close>, \<open>groupversion_info.go\<close>): the counters and the API types as they are
    declared and registered before \<open>main\<close>.

  What the lemmas show.  As long as no Cleaner is deleted, the pool loses no request, serves them in order
  and each in its turn, and reports a queued Cleaner in progress until a worker ends a run of it; it runs a
  Cleaner on one worker at a time except in a window the theorems describe, in which two workers come to
  run it.  A removal damages the collections, with its consequences.  What a script sees and gives back is
  characterised for all values; a cyclic result or a script that does not end takes the process or its
  worker away.  The selection is equal to a specification by sets and filters.  A run deletes selected
  resources only and all of them when it reports success, stores what the script decided, and counts and
  reports what it processed.  In the interleaved program a resource is taken out only by the delete call of
  a run for it, after a selector matched it or the user's aggregated script returned it, though perhaps it
  matches no more at that moment; and deletions of a kind that is deleted at once are not counted twice.  A
  live Cleaner is always reconciled again, is queued exactly when it is due, and shows the error of its
  last run to the first reconciliation that asks for it and closes well.  A deep copy shares nothing with
  its original.  The two theorems below are about the pool and the reconcilers in the whole program.
  Where the code does not do what it seems to mean, the theorem states what it does.

  State and effects.  The API server, the messaging services, the disk and the network are records of
  functions of an outside state of any type; a call returns its error and the new state.  Within one
  call to the API server the state is fixed, between steps of the program anything may change it.
  The clock is read as an argument where the code reads it.  A call that does not come back to its caller
  has the outcome \<open>Panic\<close>: it ends the process, or, when it runs a script without end (an interpreter call
  with no outcome), keeps its goroutine for ever; in the model a step with such a call is no step, while
  the others may go on.  Machine integers are words where they can wrap (durations,
  chat identifiers, the jitter window), and instants are integers.

  Deep copies are the one place where the identity of objects matters: there a struct has references
  into a memory of cells, and a read gives its value with the cells it went through.  Elsewhere a value
  stands for the object, and the one alias the runs depend on, a resource that is updated without a
  script, is written out in \<open>update_loop\<close>.

  Bounds.  The recursion of \<open>toGoValue\<close> follows a table that a script may make cyclic, and has the
  depth the goroutine's stack allows as an argument; the round trip holds for every depth above
  that of the object, and a cyclic table exhausts every depth.  The loop over missed schedule times
  stops after a hundred by the code's own constant.  The stages of a run have a fuel, and there is
  always enough of it.  Everything else is structural recursion.

  Parameters, with what is assumed of them stated in the theorems that need it: the Kubernetes client
  and label parser, the Lua interpreter and its tables (\<open>lua_table_laws\<close>), the cron and patch
  libraries, the messaging clients, YAML, the file system, controller-runtime, zap and pflag.  Every
  such hypothesis has an instance in the witness of its theorem.  Of the API server the theorems assume
  what it documents: a delete call takes the object out of those that are there and not marked for
  deletion, an update stores the object of its answer, which keeps what its writer decides, and a patch
  keeps the status with its times cut to the second (\<open>persisted_status\<close>).

  Not modelled: \<open>hack/tools\<close> (imports that pin build tools), logging, and the memory order of the
  unlocked first test of the two singletons.  One selector, one resource, one notification or one
  file of a run is one step of the program: the several listing calls of a selector and the several calls
  of a notification see one state.
\<close>

section \<open>The program as a whole\<close>

text \<open>
  C6. In every run of the program that meets no deleted Cleaner, whatever the reconcilers, the runs and the
  outside do and however their steps interleave, the pool is in a state the pool of workers alone can
  reach from its start; so no request is lost there: each one noted in the dirty set waits in the queue
  or is being run, and no older result stands in for it.
\<close>

theorem program_refines_pool:
  assumes "pool c0 = init_sys n" and "program_path k d r meets_no_deletion c0 c"
  shows "reach no_remove n (pool c) \<and>
    (\<forall>key \<in> set (dirty (mgr (pool c))).
       key \<in> set (jobQueue (mgr (pool c))) \<union> set (inProgress (mgr (pool c))) \<and>
       results (mgr (pool c)) key = None)"
proof -
  have "reach no_remove n (pool c0)" using assms(1) by (simp add: reach.init)
  then have "reach no_remove n (pool c)" by (rule program_path_reach [OF assms(2)])
  then show ?thesis
    using reach_pool_inv pool_manager_good unfolding manager_good_def by blast
qed

theorem program_refines_pool_witness:
  "\<exists>c. program_path ref_kube flaky_deps ref_reconciler meets_no_deletion
       (busy_program\<lparr>pool := init_sys 2\<rparr>) c \<and> reach no_remove 2 (pool c)"
proof -
  let ?c0 = "busy_program\<lparr>pool := init_sys 2\<rparr>"
  let ?s = "ref_scope (finalized late_cleaner)"
  obtain p st where stage: "reconcile_stage ref_reconciler (at_time 0) (Ready ?s) (control_at ?c0) = Ok (p, st)"
    using ready_stage_ok by blast
  have step: "program_step ref_kube flaky_deps ref_reconciler ?c0 (Advances 0 (at_time 0))
      (after_stage 0 ''c1'' p st ?c0)"
    by (rule program_step.advances [OF _ _ stage]) (simp_all add: busy_program_def)
  have "meets_no_deletion ?c0 (Advances 0 (at_time 0))" by (simp add: busy_program_def)
  then have path: "program_path ref_kube flaky_deps ref_reconciler meets_no_deletion ?c0
      (after_stage 0 ''c1'' p st ?c0)"
    using step by (rule program_path.further [OF program_path.here])
  have "pool ?c0 = init_sys 2" by simp
  from program_refines_pool [OF this path] show ?thesis using path by blast
qed



end
